(* ===== verification/Prelude.thy ===== *)
theory Prelude
  imports Complex_Main "HOL-Library.Word" "HOL-Library.AList" "HOL-Library.Sublist"
    "HOL-Library.Code_Target_Numeral"
begin

text \<open>
  Shared ground of the development: JavaScript strings and the parts of the JavaScript
  standard library that the program uses on them.

  A JavaScript string is modelled as a list of characters, one per UTF-16 code unit, for
  code units below 256; every string the modelled code measures, cuts, compares or matches
  is of that kind (transaction bytes are turned into printable ASCII before they are
  parsed).  The few glyphs outside that range (an em dash, an ellipsis, a middle dot) occur
  in display text only and are named constants holding their UTF-8 bytes.
\<close>

named_theorems js_simps \<open>unfoldings and normal forms of the JavaScript string primitives\<close>

section \<open>Character classes\<close>

definition dq :: char where "dq = CHR 0x22"
definition bsl :: char where "bsl = CHR 0x5C"
definition nul :: char where "nul = CHR 0x00"

lemmas char_names = dq_def bsl_def nul_def

text \<open>White space of \<open>trim\<close> and of the regular expression class \<open>\s\<close>, below 256.\<close>

definition is_ws :: "char \<Rightarrow> bool" where
  "is_ws c \<longleftrightarrow> c \<in> {CHR 0x09, CHR 0x0A, CHR 0x0B, CHR 0x0C, CHR 0x0D, CHR 0x20, CHR 0xA0}"

definition in_range :: "nat \<Rightarrow> nat \<Rightarrow> char \<Rightarrow> bool" where
  "in_range lo hi c \<longleftrightarrow> lo \<le> of_char c \<and> of_char c \<le> hi"

definition is_digit :: "char \<Rightarrow> bool" where "is_digit = in_range 48 57"
definition is_lower :: "char \<Rightarrow> bool" where "is_lower = in_range 97 122"
definition is_upper :: "char \<Rightarrow> bool" where "is_upper = in_range 65 90"
definition is_hex :: "char \<Rightarrow> bool" where
  "is_hex c \<longleftrightarrow> is_digit c \<or> in_range 97 102 c \<or> in_range 65 70 c"
definition is_alnum_lower :: "char \<Rightarrow> bool" where
  "is_alnum_lower c \<longleftrightarrow> is_digit c \<or> is_lower c"
definition printable :: "char \<Rightarrow> bool" where "printable = in_range 32 126"

lemmas char_class_defs =
  is_ws_def in_range_def is_digit_def is_lower_def is_upper_def is_hex_def
  is_alnum_lower_def printable_def

section \<open>Searching and cutting\<close>

definition starts_with :: "string \<Rightarrow> string \<Rightarrow> bool" where
  "starts_with p s \<longleftrightarrow> take (length p) s = p"

text \<open>\<open>indexOf\<close>: the first position, \<open>None\<close> for \<open>-1\<close>.\<close>

fun index_of :: "string \<Rightarrow> string \<Rightarrow> nat option" where
  "index_of p [] = (if p = [] then Some 0 else None)"
| "index_of p (c # s) =
     (if starts_with p (c # s) then Some 0 else map_option Suc (index_of p s))"

definition str_includes :: "string \<Rightarrow> string \<Rightarrow> bool" where
  "str_includes s p \<longleftrightarrow> index_of p s \<noteq> None"

definition slice :: "nat \<Rightarrow> nat \<Rightarrow> string \<Rightarrow> string" where
  "slice a b s = take (b - a) (drop a s)"

text \<open>\<open>s.slice(-n)\<close>.\<close>

definition slice_last :: "nat \<Rightarrow> string \<Rightarrow> string" where
  "slice_last n s = drop (length s - n) s"

definition trim_left :: "string \<Rightarrow> string" where "trim_left = dropWhile is_ws"
definition trim_right :: "string \<Rightarrow> string" where
  "trim_right s = rev (dropWhile is_ws (rev s))"
definition trim :: "string \<Rightarrow> string" where "trim s = trim_right (trim_left s)"

definition pad_start :: "nat \<Rightarrow> char \<Rightarrow> string \<Rightarrow> string" where
  "pad_start n c s = replicate (n - length s) c @ s"

fun join :: "string \<Rightarrow> string list \<Rightarrow> string" where
  "join sep [] = []"
| "join sep [s] = s"
| "join sep (s # t # ss) = s @ sep @ join sep (t # ss)"

section \<open>Case conversion\<close>

text \<open>
  \<open>toLowerCase\<close> is exact below 256.  \<open>toUpperCase\<close> is exact except for the two
  characters whose upper case lies outside that range (micro sign, y with diaeresis), which
  stay as they are; the only caller that can meet them drops everything outside A-Z next.
\<close>

definition lower_char :: "char \<Rightarrow> char" where
  "lower_char c =
     (if is_upper c \<or> (in_range 192 222 c \<and> c \<noteq> CHR 0xD7) then char_of (of_char c + (32::nat)) else c)"

definition to_lower :: "string \<Rightarrow> string" where "to_lower = map lower_char"

definition upper_char :: "char \<Rightarrow> string" where
  "upper_char c =
     (if c = CHR 0xDF then ''SS''
      else if is_lower c \<or> (in_range 224 254 c \<and> c \<noteq> CHR 0xF7)
      then [char_of (of_char c - (32::nat))] else [c])"

definition to_upper :: "string \<Rightarrow> string" where "to_upper s = concat (map upper_char s)"

section \<open>Radix notation\<close>

fun digs :: "nat \<Rightarrow> nat \<Rightarrow> nat list" where
  "digs b n = (if n < b \<or> b < 2 then [n] else digs b (n div b) @ [n mod b])"

declare digs.simps [simp del]

definition undigs :: "nat \<Rightarrow> nat list \<Rightarrow> nat" where
  "undigs b ds = foldl (\<lambda>a d. b * a + d) 0 ds"

definition digit_char :: "nat \<Rightarrow> char" where
  "digit_char d = (if d < 10 then char_of (48 + d) else char_of (87 + d))"

definition digit_val :: "char \<Rightarrow> nat" where
  "digit_val c = (if is_digit c then of_char c - 48
     else if in_range 97 122 c then of_char c - 87 else of_char c - 55)"

text \<open>\<open>n.toString(b)\<close> and the reading of a run of digits in base \<open>b\<close>.\<close>

definition radix :: "nat \<Rightarrow> nat \<Rightarrow> string" where "radix b n = map digit_char (digs b n)"
definition unradix :: "nat \<Rightarrow> string \<Rightarrow> nat" where "unradix b s = undigs b (map digit_val s)"

abbreviation dec :: "nat \<Rightarrow> string" where "dec \<equiv> radix 10"
abbreviation hex :: "nat \<Rightarrow> string" where "hex \<equiv> radix 16"

definition int_str :: "int \<Rightarrow> string" where
  "int_str i = (if i < 0 then ''-'' @ dec (nat (- i)) else dec (nat i))"

section \<open>Display glyphs\<close>

definition em_dash :: string where "em_dash = [CHR 0xE2, CHR 0x80, CHR 0x94]"
definition en_dash :: string where "en_dash = [CHR 0xE2, CHR 0x80, CHR 0x93]"
definition ellipsis :: string where "ellipsis = [CHR 0xE2, CHR 0x80, CHR 0xA6]"
definition mid_dot :: string where "mid_dot = [CHR 0xC2, CHR 0xB7]"
definition plus_minus :: string where "plus_minus = [CHR 0xC2, CHR 0xB1]"
definition arrow :: string where "arrow = [CHR 0xE2, CHR 0x86, CHR 0x92]"

definition newline :: string where "newline = [CHR 0x0A]"

section \<open>Lemmas on radix notation\<close>

lemma undigs_Nil [simp]: "undigs b [] = 0"
  by (simp add: undigs_def)

lemma undigs_snoc [simp]: "undigs b (ds @ [d]) = b * undigs b ds + d"
  by (simp add: undigs_def)

lemma undigs_digs: "2 \<le> b \<Longrightarrow> undigs b (digs b n) = n"
proof (induction b n rule: digs.induct)
  case (1 b n)
  show ?case
  proof (cases "n < b")
    case True
    then show ?thesis by (simp add: digs.simps [of b n] undigs_def)
  next
    case False
    with 1 show ?thesis by (simp add: digs.simps [of b n])
  qed
qed

lemma digs_bound: "2 \<le> b \<Longrightarrow> d \<in> set (digs b n) \<Longrightarrow> d < b"
proof (induction b n rule: digs.induct)
  case (1 b n)
  then show ?case
    by (cases "n < b") (auto simp: digs.simps [of b n])
qed

lemma digs_not_Nil [simp]: "digs b n \<noteq> []"
  by (simp add: digs.simps [of b n])

lemma of_char_char_of_small: "n < 256 \<Longrightarrow> (of_char (char_of n) :: nat) = n"
  by simp

lemma digit_val_char [simp]: "d < 36 \<Longrightarrow> digit_val (digit_char d) = d"
  by (auto simp: digit_val_def digit_char_def char_class_defs)

lemma digit_char_0_eq [simp]: "digit_char 0 = CHR ''0''"
  by code_simp

lemma unradix_radix:
  assumes "2 \<le> b" and "b \<le> 36"
  shows "unradix b (radix b n) = n"
proof -
  have "map (digit_val \<circ> digit_char) (digs b n) = digs b n"
    using assms digs_bound [OF assms(1)] by (intro map_idI) (fastforce intro: digit_val_char)
  with undigs_digs [OF assms(1)] show ?thesis
    by (simp add: unradix_def radix_def)
qed

lemma undec_dec [simp]: "unradix 10 (dec n) = n"
  by (rule unradix_radix) simp_all

lemma unhex_hex [simp]: "unradix 16 (hex n) = n"
  by (rule unradix_radix) simp_all

lemma dec_inject [simp]: "dec m = dec n \<longleftrightarrow> m = n"
  by (metis undec_dec)

lemma hex_inject [simp]: "hex m = hex n \<longleftrightarrow> m = n"
  by (metis unhex_hex)

lemma radix_not_Nil [simp]: "radix b n \<noteq> []"
  by (simp add: radix_def)

lemma digit_char_digit: "d < 10 \<Longrightarrow> is_digit (digit_char d)"
  by (simp add: digit_char_def char_class_defs)

lemma digit_char_hex: "d < 16 \<Longrightarrow> is_digit (digit_char d) \<or> in_range 97 102 (digit_char d)"
  by (auto simp: digit_char_def char_class_defs)

lemma dec_digits: "c \<in> set (dec n) \<Longrightarrow> is_digit c"
  using digs_bound [of 10] by (auto simp: radix_def digit_char_digit)

lemma hex_digits: "c \<in> set (hex n) \<Longrightarrow> is_digit c \<or> in_range 97 102 c"
  using digs_bound [of 16] by (fastforce simp: radix_def dest: digit_char_hex)

section \<open>Lemmas on searching and cutting\<close>

lemma starts_with_append [simp]: "starts_with p (p @ s)"
  by (simp add: starts_with_def)

lemma starts_with_iff: "starts_with p s \<longleftrightarrow> (\<exists>t. s = p @ t)"
proof
  assume "starts_with p s"
  then have "s = p @ drop (length p) s"
    by (metis append_take_drop_id starts_with_def)
  then show "\<exists>t. s = p @ t" ..
qed auto

lemma starts_with_Nil [simp]: "starts_with [] s"
  by (simp add: starts_with_def)

lemma starts_with_Cons [simp]:
  "starts_with (c # p) (d # s) \<longleftrightarrow> c = d \<and> starts_with p s"
  "\<not> starts_with (c # p) []"
  by (auto simp: starts_with_def)

lemma index_of_append: "index_of p (p @ s) = Some 0"
  using starts_with_append [of p s] by (cases "p @ s") auto

lemma index_of_Some:
  "index_of p s = Some i \<Longrightarrow> i \<le> length s \<and> starts_with p (drop i s)"
proof (induction s arbitrary: i)
  case Nil
  then show ?case by (auto split: if_splits)
next
  case (Cons c s)
  then show ?case by (auto split: if_splits)
qed

lemma index_of_None: "index_of p s = None \<Longrightarrow> \<not> starts_with p (drop i s)"
proof (induction s arbitrary: i)
  case Nil
  then show ?case by (auto simp: starts_with_def split: if_splits)
next
  case (Cons c s)
  from Cons.prems have hd: "\<not> starts_with p (c # s)" and tl: "index_of p s = None"
    by (auto split: if_splits)
  show ?case
  proof (cases i)
    case 0
    with hd show ?thesis by simp
  next
    case (Suc j)
    with Cons.IH [OF tl] show ?thesis by simp
  qed
qed

lemma str_includes_iff: "str_includes s p \<longleftrightarrow> (\<exists>u v. s = u @ p @ v)"
proof
  assume "str_includes s p"
  then obtain i where "index_of p s = Some i" by (auto simp: str_includes_def)
  then obtain v where "drop i s = p @ v"
    using index_of_Some starts_with_iff by blast
  then have "s = take i s @ p @ v" by (metis append_take_drop_id)
  then show "\<exists>u v. s = u @ p @ v" by blast
next
  assume "\<exists>u v. s = u @ p @ v"
  then obtain u v where s: "s = u @ p @ v" by blast
  then have "starts_with p (drop (length u) s)" by simp
  then show "str_includes s p"
    unfolding str_includes_def using index_of_None by blast
qed

text \<open>The first occurrence, when the text before it shares no character with its head.\<close>

lemma index_of_skip:
  assumes "c \<notin> set u"
  shows "index_of (c # p) (u @ (c # p) @ s) = Some (length u)"
  using assms by (induction u) (auto simp: index_of_append [of "c # p", simplified])

lemma trim_id:
  assumes "s = [] \<or> \<not> is_ws (hd s) \<and> \<not> is_ws (last s)"
  shows "trim s = s"
proof (cases "s = []")
  case True
  then show ?thesis by (simp add: trim_def trim_left_def trim_right_def)
next
  case False
  with assms have h: "\<not> is_ws (hd s)" and l: "\<not> is_ws (last s)" by auto
  from False h have "dropWhile is_ws s = s" by (cases s) auto
  moreover from False l have "dropWhile is_ws (rev s) = rev s"
    by (metis dropWhile_eq_self_iff hd_rev rev_is_Nil_conv)
  ultimately show ?thesis by (simp add: trim_def trim_left_def trim_right_def)
qed

lemma length_trim: "length (trim s) \<le> length s"
  by (simp add: trim_def trim_left_def trim_right_def)
    (metis length_dropWhile_le length_rev le_trans)

lemma set_trim: "set (trim s) \<subseteq> set s"
  unfolding trim_def trim_left_def trim_right_def
  by (metis (no_types, lifting) set_dropWhileD set_rev subsetI)

lemma length_pad_start [simp]: "length (pad_start n c s) = max n (length s)"
  by (simp add: pad_start_def)

lemma set_pad_start: "set (pad_start n c s) \<subseteq> insert c (set s)"
  by (auto simp: pad_start_def)

lemma digit_val_0 [simp]: "digit_val (CHR ''0'') = 0"
  by (simp add: digit_val_def char_class_defs)

lemma undigs_replicate_0: "undigs b (replicate k 0 @ ds) = undigs b ds"
proof -
  have "foldl (\<lambda>a d. b * a + d) 0 (replicate k 0) = 0" by (induction k) auto
  then show ?thesis by (simp add: undigs_def)
qed

lemma unradix_pad_start: "unradix b (pad_start n (CHR ''0'') s) = unradix b s"
  by (simp add: unradix_def pad_start_def undigs_replicate_0)

section \<open>Lemmas on runs\<close>

lemma takeWhile_run:
  "(\<And>c. c \<in> set u \<Longrightarrow> P c) \<Longrightarrow> (v = [] \<or> \<not> P (hd v)) \<Longrightarrow> takeWhile P (u @ v) = u"
  by (induction u) (auto simp: takeWhile_eq_Nil_iff)

lemma dropWhile_run:
  "(\<And>c. c \<in> set u \<Longrightarrow> P c) \<Longrightarrow> (v = [] \<or> \<not> P (hd v)) \<Longrightarrow> dropWhile P (u @ v) = v"
  by (induction u) (auto simp: dropWhile_eq_self_iff)

lemma length_4E:
  assumes "length xs = 4"
  obtains a b c d where "xs = [a, b, c, d]"
proof -
  have "(4::nat) = Suc (Suc (Suc (Suc 0)))" by simp
  with assms have "length xs = Suc (Suc (Suc (Suc 0)))" by simp
  then show thesis using that by (auto simp: length_Suc_conv)
qed

section \<open>Truthiness helpers\<close>

text \<open>\<open>x || d\<close> on strings: the empty string is falsy.\<close>

definition or_str :: "string \<Rightarrow> string \<Rightarrow> string" where
  "or_str s d = (if s = [] then d else s)"

end
