(* ===== verification/Json.thy ===== *)
theory Json
  imports Prelude
begin

text \<open>
  JSON values, \<open>JSON.parse\<close> and \<open>JSON.stringify\<close>, and the number conversions of
  JavaScript that the program applies to parsed values.

  A JavaScript number is \<open>NaN\<close>, an infinity or an exact rational; overflow of the double
  range is modelled, rounding to 53 bits is not.  The numbers the modelled code computes
  with are heights, counts and percentages, all integers far below 2^53, or amounts that
  are only displayed; token amounts are added as \<open>BigInt\<close>.

  The parser takes fuel; \<open>json_parse\<close> gives it one more than the length of the text.
\<close>

section \<open>Numbers\<close>

datatype jsnum = NaN | PosInf | NegInf | Fin rat

definition dbl_max :: rat where "dbl_max = 2 ^ 1024 - 2 ^ 970"

lemma dbl_max_code [code]: "dbl_max = of_int 179769313486231580793728971405303415079934132710037826936173778980444968292764750946649017977587207096330286416692887910946555547851940402630657488671505820681908902000708383676273854845817711531764475730270069855571366959622842914819860834936475292719074168444365510704342711559699508093042880177904174497792"
  by (simp add: dbl_max_def)

definition dbl :: "rat \<Rightarrow> jsnum" where
  "dbl r = (if r \<ge> dbl_max then PosInf else if r \<le> - dbl_max then NegInf else Fin r)"

fun is_finite :: "jsnum \<Rightarrow> bool" where
  "is_finite (Fin r) = True"
| "is_finite _ = False"

definition fin_int :: "int \<Rightarrow> jsnum" where "fin_int i = Fin (of_int i)"

fun frac_digits :: "nat \<Rightarrow> rat \<Rightarrow> string" where
  "frac_digits 0 r = []"
| "frac_digits (Suc k) r =
     (if r = 0 then [] else digit_char (nat \<lfloor>10 * r\<rfloor>) # frac_digits k (10 * r - of_int \<lfloor>10 * r\<rfloor>))"

text \<open>
  \<open>String(n)\<close>: exact for integers below 10^21 and for decimals of up to 15 significant
  digits of ordinary magnitude, where the shortest round-trip form is the decimal itself.
\<close>

fun num_str :: "jsnum \<Rightarrow> string" where
  "num_str NaN = ''NaN''"
| "num_str PosInf = ''Infinity''"
| "num_str NegInf = ''-Infinity''"
| "num_str (Fin r) =
     (if of_int \<lfloor>r\<rfloor> = r then int_str \<lfloor>r\<rfloor>
      else (if r < 0 then ''-'' else []) @ int_str \<lfloor>\<bar>r\<bar>\<rfloor> @ ''.'' @
        frac_digits 17 (\<bar>r\<bar> - of_int \<lfloor>\<bar>r\<bar>\<rfloor>))"

section \<open>Reading a decimal literal\<close>

fun opt_sign :: "string \<Rightarrow> bool \<times> string" where
  "opt_sign [] = (False, [])"
| "opt_sign (c # s) = (if c = CHR ''-'' then (True, s) else (False, c # s))"

fun opt_frac :: "string \<Rightarrow> (string \<times> string) option" where
  "opt_frac [] = Some ([], [])"
| "opt_frac (c # s) =
     (if c = CHR ''.'' then
        (if takeWhile is_digit s = [] then None
         else Some (takeWhile is_digit s, dropWhile is_digit s))
      else Some ([], c # s))"

definition exp_digits :: "bool \<Rightarrow> string \<Rightarrow> (int \<times> string) option" where
  "exp_digits neg s =
     (if takeWhile is_digit s = [] then None
      else Some ((if neg then - int (unradix 10 (takeWhile is_digit s))
                  else int (unradix 10 (takeWhile is_digit s))), dropWhile is_digit s))"

fun opt_exp :: "string \<Rightarrow> (int \<times> string) option" where
  "opt_exp [] = Some (0, [])"
| "opt_exp (c # s) =
     (if c = CHR ''e'' \<or> c = CHR ''E'' then
        (case s of
           [] \<Rightarrow> None
         | d # t \<Rightarrow> if d = CHR ''-'' then exp_digits True t
                    else if d = CHR ''+'' then exp_digits False t
                    else exp_digits False s)
      else Some (0, c # s))"

definition pow10 :: "int \<Rightarrow> rat" where
  "pow10 e = (if e \<ge> 0 then 10 ^ nat e else 1 / 10 ^ nat (- e))"

definition literal_value :: "bool \<Rightarrow> string \<Rightarrow> string \<Rightarrow> int \<Rightarrow> jsnum" where
  "literal_value neg ip fp e =
     (let v = of_nat (unradix 10 (ip @ fp)) * pow10 (e - int (length fp))
      in dbl (if neg then - v else v))"

definition parse_num :: "string \<Rightarrow> (jsnum \<times> string) option" where
  "parse_num s =
     (case opt_sign s of (neg, s1) \<Rightarrow>
        let ip = takeWhile is_digit s1 in
        if ip = [] \<or> (hd ip = CHR ''0'' \<and> length ip > 1) then None
        else (case opt_frac (dropWhile is_digit s1) of
                None \<Rightarrow> None
              | Some (fp, s2) \<Rightarrow>
                  (case opt_exp s2 of
                     None \<Rightarrow> None
                   | Some (e, s3) \<Rightarrow> Some (literal_value neg ip fp e, s3))))"

text \<open>
  \<open>Number(s)\<close> on a string: surrounding white space is dropped, the empty string is 0, a
  decimal literal may have a sign, leading zeros, a bare leading or trailing point and an
  exponent; hexadecimal, octal and binary literals take no sign.
\<close>

definition signed_body :: "string \<Rightarrow> bool \<times> string" where
  "signed_body s =
     (case s of c # t \<Rightarrow> if c = CHR ''-'' then (True, t) else if c = CHR ''+'' then (False, t) else (False, s)
      | [] \<Rightarrow> (False, []))"

definition after_point :: "string \<Rightarrow> string \<times> string" where
  "after_point s =
     (case s of c # t \<Rightarrow> if c = CHR ''.'' then (takeWhile is_digit t, dropWhile is_digit t) else ([], s)
      | [] \<Rightarrow> ([], []))"

definition based_literal :: "nat \<Rightarrow> (char \<Rightarrow> bool) \<Rightarrow> string \<Rightarrow> jsnum" where
  "based_literal b ok s =
     (if s \<noteq> [] \<and> list_all ok s then dbl (of_nat (unradix b s)) else NaN)"

definition decimal_literal :: "string \<Rightarrow> jsnum" where
  "decimal_literal s =
     (case signed_body s of (neg, t) \<Rightarrow>
        if t = ''Infinity'' then (if neg then NegInf else PosInf)
        else (case after_point (dropWhile is_digit t) of (fp, u) \<Rightarrow>
          if takeWhile is_digit t = [] \<and> fp = [] then NaN
          else (case opt_exp u of
                  Some (e, []) \<Rightarrow> literal_value neg (takeWhile is_digit t) fp e
                | _ \<Rightarrow> NaN)))"

definition str_number :: "string \<Rightarrow> jsnum" where
  "str_number s =
     (case trim s of
        [] \<Rightarrow> Fin 0
      | [c] \<Rightarrow> decimal_literal [c]
      | c # d # t \<Rightarrow>
          if c = CHR ''0'' \<and> d \<in> {CHR ''x'', CHR ''X''} then based_literal 16 is_hex t
          else if c = CHR ''0'' \<and> d \<in> {CHR ''o'', CHR ''O''} then based_literal 8 (in_range 48 55) t
          else if c = CHR ''0'' \<and> d \<in> {CHR ''b'', CHR ''B''} then based_literal 2 (in_range 48 49) t
          else decimal_literal (c # d # t))"

section \<open>Values\<close>

datatype json =
    JNull
  | JBool bool
  | JNum jsnum
  | JStr string
  | JArr "json list"
  | JObj "(string \<times> json) list"

text \<open>
  A JavaScript expression over parsed data yields a value or \<open>undefined\<close> (\<open>None\<close>).
  \<open>fld\<close> is a property read that cannot fail (\<open>v?.k\<close>, or \<open>v.k\<close> on a value known to be an
  object); \<open>dot\<close> is \<open>v.k\<close>, which throws (\<open>None\<close> on the outside) when \<open>v\<close> is
  \<open>undefined\<close> or \<open>null\<close>.  A key bound twice has its last value, as after \<open>JSON.parse\<close>.
\<close>

type_synonym jval = "json option"

fun fld :: "jval \<Rightarrow> string \<Rightarrow> jval" where
  "fld (Some (JObj kvs)) k = map_of (rev kvs) k"
| "fld _ k = None"

fun dot :: "jval \<Rightarrow> string \<Rightarrow> jval option" where
  "dot None k = None"
| "dot (Some JNull) k = None"
| "dot v k = Some (fld v k)"

fun truthy :: "jval \<Rightarrow> bool" where
  "truthy None = False"
| "truthy (Some JNull) = False"
| "truthy (Some (JBool b)) = b"
| "truthy (Some (JNum n)) = (n \<noteq> NaN \<and> n \<noteq> Fin 0)"
| "truthy (Some (JStr s)) = (s \<noteq> [])"
| "truthy _ = True"

fun nullish :: "jval \<Rightarrow> bool" where
  "nullish None = True"
| "nullish (Some JNull) = True"
| "nullish _ = False"

definition or_else :: "jval \<Rightarrow> jval \<Rightarrow> jval" where
  "or_else v w = (if truthy v then v else w)"

definition and_then :: "jval \<Rightarrow> jval \<Rightarrow> jval" where
  "and_then v w = (if truthy v then w else v)"

text \<open>\<open>typeof v === 'string' ? v : undefined\<close>.\<close>

fun as_str :: "jval \<Rightarrow> string option" where
  "as_str (Some (JStr s)) = Some s"
| "as_str _ = None"

text \<open>\<open>String(v)\<close> on a parsed value; inside an array \<open>null\<close> prints as the empty string.\<close>

fun json_str :: "json \<Rightarrow> string" where
  "json_str JNull = ''null''"
| "json_str (JBool b) = (if b then ''true'' else ''false'')"
| "json_str (JNum n) = num_str n"
| "json_str (JStr s) = s"
| "json_str (JArr js) = join '','' (map (\<lambda>j. if j = JNull then [] else json_str j) js)"
| "json_str (JObj _) = ''[object Object]''"

definition to_string :: "jval \<Rightarrow> string" where
  "to_string v = (case v of None \<Rightarrow> ''undefined'' | Some j \<Rightarrow> json_str j)"

text \<open>\<open>Number(v)\<close>.\<close>

fun to_number :: "jval \<Rightarrow> jsnum" where
  "to_number None = NaN"
| "to_number (Some JNull) = Fin 0"
| "to_number (Some (JBool b)) = Fin (if b then 1 else 0)"
| "to_number (Some (JNum n)) = n"
| "to_number (Some (JStr s)) = str_number s"
| "to_number (Some (JArr js)) = str_number (json_str (JArr js))"
| "to_number (Some (JObj _)) = NaN"

section \<open>Printing\<close>

definition esc_char :: "char \<Rightarrow> string" where
  "esc_char c =
     (if c = dq then [bsl, dq]
      else if c = bsl then [bsl, bsl]
      else if c = CHR 0x08 then bsl # ''b''
      else if c = CHR 0x09 then bsl # ''t''
      else if c = CHR 0x0A then bsl # ''n''
      else if c = CHR 0x0C then bsl # ''f''
      else if c = CHR 0x0D then bsl # ''r''
      else if of_char c < (32::nat) then bsl # ''u'' @ pad_start 4 (CHR ''0'') (hex (of_char c))
      else [c])"

definition quote :: "string \<Rightarrow> string" where
  "quote s = dq # concat (map esc_char s) @ [dq]"

fun json_num :: "jsnum \<Rightarrow> string" where
  "json_num (Fin r) = num_str (Fin r)"
| "json_num _ = ''null''"

fun stringify :: "json \<Rightarrow> string"
  and print_elems :: "json list \<Rightarrow> string"
  and print_members :: "(string \<times> json) list \<Rightarrow> string" where
  "stringify JNull = ''null''"
| "stringify (JBool b) = (if b then ''true'' else ''false'')"
| "stringify (JNum n) = json_num n"
| "stringify (JStr s) = quote s"
| "stringify (JArr js) = ''['' @ print_elems js @ '']''"
| "stringify (JObj kvs) = ''{'' @ print_members kvs @ ''}''"
| "print_elems [] = []"
| "print_elems [j] = stringify j"
| "print_elems (j # i # js) = stringify j @ '','' @ print_elems (i # js)"
| "print_members [] = []"
| "print_members [(k, j)] = quote k @ '':'' @ stringify j"
| "print_members ((k, j) # m # kvs) = quote k @ '':'' @ stringify j @ '','' @ print_members (m # kvs)"

section \<open>Parsing\<close>

definition json_ws :: "char \<Rightarrow> bool" where
  "json_ws c \<longleftrightarrow> c \<in> {CHR 0x20, CHR 0x09, CHR 0x0A, CHR 0x0D}"

definition skip_ws :: "string \<Rightarrow> string" where "skip_ws = dropWhile json_ws"

definition unescape :: "char \<Rightarrow> char option" where
  "unescape e =
     (if e = dq then Some dq
      else if e = bsl then Some bsl
      else if e = CHR ''/'' then Some (CHR ''/'')
      else if e = CHR ''b'' then Some (CHR 0x08)
      else if e = CHR ''f'' then Some (CHR 0x0C)
      else if e = CHR ''n'' then Some (CHR 0x0A)
      else if e = CHR ''r'' then Some (CHR 0x0D)
      else if e = CHR ''t'' then Some (CHR 0x09)
      else None)"

text \<open>A code unit of 256 or more has no character here and is read as a question mark.\<close>

definition unit_char :: "nat \<Rightarrow> char" where
  "unit_char n = (if n < 256 then char_of n else CHR ''?'')"

definition cons_fst :: "'a \<Rightarrow> ('a list \<times> 'b) option \<Rightarrow> ('a list \<times> 'b) option" where
  "cons_fst c r = map_option (apfst ((#) c)) r"

fun parse_chars :: "string \<Rightarrow> (string \<times> string) option"
  and parse_escape :: "string \<Rightarrow> (string \<times> string) option" where
  "parse_chars [] = None"
| "parse_chars (c # s) =
     (if c = dq then Some ([], s)
      else if c = bsl then parse_escape s
      else if of_char c < (32::nat) then None
      else cons_fst c (parse_chars s))"
| "parse_escape [] = None"
| "parse_escape (e # s) =
     (if e = CHR ''u'' then
        (case s of
           a # b # c # d # t \<Rightarrow>
             if list_all is_hex [a, b, c, d]
             then cons_fst (unit_char (unradix 16 [a, b, c, d])) (parse_chars t) else None
         | _ \<Rightarrow> None)
      else (case unescape e of None \<Rightarrow> None | Some d \<Rightarrow> cons_fst d (parse_chars s)))"

fun parse_val :: "nat \<Rightarrow> string \<Rightarrow> (json \<times> string) option"
  and parse_elems :: "nat \<Rightarrow> string \<Rightarrow> (json list \<times> string) option"
  and parse_members :: "nat \<Rightarrow> string \<Rightarrow> ((string \<times> json) list \<times> string) option" where
  "parse_val 0 s = None"
| "parse_val (Suc k) s =
     (case skip_ws s of
        [] \<Rightarrow> None
      | c # t \<Rightarrow>
          if c = dq then map_option (apfst JStr) (parse_chars t)
          else if c = CHR ''{'' then
            (if starts_with ''}'' (skip_ws t) then Some (JObj [], tl (skip_ws t))
             else map_option (apfst JObj) (parse_members k t))
          else if c = CHR ''['' then
            (if starts_with '']'' (skip_ws t) then Some (JArr [], tl (skip_ws t))
             else map_option (apfst JArr) (parse_elems k t))
          else if starts_with ''null'' (c # t) then Some (JNull, drop 3 t)
          else if starts_with ''true'' (c # t) then Some (JBool True, drop 3 t)
          else if starts_with ''false'' (c # t) then Some (JBool False, drop 4 t)
          else map_option (apfst JNum) (parse_num (c # t)))"
| "parse_elems 0 s = None"
| "parse_elems (Suc k) s =
     (case parse_val k s of
        None \<Rightarrow> None
      | Some (j, r) \<Rightarrow>
          (case skip_ws r of
             [] \<Rightarrow> None
           | c # t \<Rightarrow> if c = CHR '']'' then Some ([j], t)
                      else if c = CHR '','' then cons_fst j (parse_elems k t)
                      else None))"
| "parse_members 0 s = None"
| "parse_members (Suc k) s =
     (case skip_ws s of
        [] \<Rightarrow> None
      | q # s1 \<Rightarrow>
          if q \<noteq> dq then None
          else (case parse_chars s1 of
             None \<Rightarrow> None
           | Some (key, s2) \<Rightarrow>
               (case skip_ws s2 of
                  [] \<Rightarrow> None
                | d # s3 \<Rightarrow>
                    if d \<noteq> CHR '':'' then None
                    else (case parse_val k s3 of
                       None \<Rightarrow> None
                     | Some (j, r) \<Rightarrow>
                         (case skip_ws r of
                            [] \<Rightarrow> None
                          | c # t \<Rightarrow> if c = CHR ''}'' then Some ([(key, j)], t)
                                     else if c = CHR '','' then cons_fst (key, j) (parse_members k t)
                                     else None)))))"

definition json_parse :: "string \<Rightarrow> json option" where
  "json_parse s =
     (case parse_val (Suc (length s)) s of
        Some (j, r) \<Rightarrow> if skip_ws r = [] then Some j else None
      | None \<Rightarrow> None)"

end
