(* ===== verification/Json_Roundtrip.thy ===== *)
theory Json_Roundtrip
  imports Json
begin

text \<open>
  \<open>JSON.parse (JSON.stringify v) = v\<close> for every value whose numbers are integers in the
  double range, and the interface \<open>json_codec\<close> under which the memo layers use the pair.
\<close>

definition num_stop :: "string \<Rightarrow> bool" where
  "num_stop r \<longleftrightarrow> (case r of [] \<Rightarrow> True
     | c # _ \<Rightarrow> \<not> is_digit c \<and> c \<noteq> CHR ''.'' \<and> c \<noteq> CHR ''e'' \<and> c \<noteq> CHR ''E'')"

fun plain_num :: "jsnum \<Rightarrow> bool" where
  "plain_num (Fin r) \<longleftrightarrow> of_int \<lfloor>r\<rfloor> = r \<and> \<bar>r\<bar> < dbl_max"
| "plain_num _ \<longleftrightarrow> False"

fun plain :: "json \<Rightarrow> bool" where
  "plain (JNum n) = plain_num n"
| "plain (JArr js) = list_all plain js"
| "plain (JObj kvs) = list_all (\<lambda>(k, j). plain j) kvs"
| "plain _ = True"

fun jsize :: "json \<Rightarrow> nat"
  and esize :: "json list \<Rightarrow> nat"
  and msize :: "(string \<times> json) list \<Rightarrow> nat" where
  "jsize (JArr js) = Suc (esize js)"
| "jsize (JObj kvs) = Suc (msize kvs)"
| "jsize _ = 1"
| "esize [] = 0"
| "esize (j # js) = Suc (jsize j + esize js)"
| "msize [] = 0"
| "msize ((k, j) # kvs) = Suc (jsize j + msize kvs)"

section \<open>Strings\<close>

lemma esc_char_cases:
  obtains "esc_char c = [c]" "c \<noteq> dq" "c \<noteq> bsl" "\<not> of_char c < (32::nat)"
  | e where "esc_char c = [bsl, e]" "e \<noteq> CHR ''u''" "unescape e = Some c"
  | "esc_char c = bsl # ''u'' @ pad_start 4 (CHR ''0'') (hex (of_char c))" "of_char c < (32::nat)"
  by (cases "c = dq \<or> c = bsl \<or> c = CHR 0x08 \<or> c = CHR 0x09 \<or> c = CHR 0x0A \<or> c = CHR 0x0C \<or> c = CHR 0x0D";
      cases "of_char c < (32::nat)")
    (auto simp: esc_char_def unescape_def char_names)

lemma hex_small_length: "n < 256 \<Longrightarrow> length (hex n) \<le> 2"
proof -
  assume "n < 256"
  then have "n div 16 < 16" by arith
  then show ?thesis by (simp add: radix_def digs.simps [of 16 n] digs.simps [of 16 "n div 16"])
qed

lemma is_hexI: "is_digit c \<or> in_range 97 102 c \<Longrightarrow> is_hex c"
  by (auto simp: is_hex_def)

lemma is_hex_0: "is_hex (CHR ''0'')"
  by (simp add: char_class_defs)

lemma unit_char_of_char [simp]: "unit_char (of_char c) = c"
proof -
  have "(of_char c :: nat) < 256" by simp
  then show ?thesis by (simp add: unit_char_def del: of_char_mod_256)
qed

lemma parse_escape_unit:
  assumes "of_char c < (32::nat)"
  shows "parse_escape (CHR ''u'' # pad_start 4 (CHR ''0'') (hex (of_char c)) @ s)
    = cons_fst c (parse_chars s)"
proof -
  let ?h = "pad_start 4 (CHR ''0'') (hex (of_char c))"
  have "length ?h = 4"
    using hex_small_length [of "of_char c"] assms by simp
  then obtain a b d e where h: "?h = [a, b, d, e]"
    by (rule length_4E)
  have "set ?h \<subseteq> insert (CHR ''0'') (set (hex (of_char c)))"
    by (rule set_pad_start)
  then have "list_all is_hex ?h"
    unfolding list_all_iff using hex_digits is_hexI is_hex_0 by blast
  moreover have "unradix 16 ?h = of_char c"
    by (simp add: unradix_pad_start)
  ultimately show ?thesis
    unfolding h by simp
qed

lemma dq_bsl_distinct [simp]: "dq \<noteq> bsl" "bsl \<noteq> dq"
  by (simp_all add: char_names)

lemma parse_chars_escaped: "parse_chars (concat (map esc_char s) @ dq # r) = Some (s, r)"
proof (induction s)
  case Nil
  show ?case by simp
next
  case (Cons c s)
  note IH = Cons.IH
  show ?case
  proof (rule esc_char_cases [of c])
    assume "esc_char c = [c]" "c \<noteq> dq" "c \<noteq> bsl" "\<not> of_char c < (32::nat)"
    then show ?thesis using IH by (simp add: cons_fst_def)
  next
    fix e
    assume "esc_char c = [bsl, e]" "e \<noteq> CHR ''u''" "unescape e = Some c"
    then show ?thesis using IH by (simp add: cons_fst_def)
  next
    assume esc: "esc_char c = bsl # ''u'' @ pad_start 4 (CHR ''0'') (hex (of_char c))"
      and small: "of_char c < (32::nat)"
    from parse_escape_unit [OF small, of "concat (map esc_char s) @ dq # r"] IH esc
    show ?thesis by (simp add: cons_fst_def)
  qed
qed

section \<open>Numbers\<close>

lemma digs_leading: "2 \<le> b \<Longrightarrow> b \<le> n \<Longrightarrow> hd (digs b n) \<noteq> 0"
proof (induction b n rule: digs.induct)
  case (1 b n)
  then have eq: "digs b n = digs b (n div b) @ [n mod b]"
    by (simp add: digs.simps [of b n])
  show ?case
  proof (cases "n div b < b")
    case True
    moreover have "n div b \<noteq> 0" using 1 by (simp add: div_eq_0_iff)
    ultimately show ?thesis by (simp add: eq digs.simps [of b "n div b"])
  next
    case False
    with 1 have "hd (digs b (n div b)) \<noteq> 0" by simp
    then show ?thesis by (simp add: eq)
  qed
qed

lemma digit_char_0: "d < 10 \<Longrightarrow> digit_char d = CHR ''0'' \<Longrightarrow> d = 0"
  using digit_val_char [of d] by simp

lemma dec_no_leading_zero: "hd (dec n) = CHR ''0'' \<Longrightarrow> dec n = ''0''"
proof -
  assume hd0: "hd (dec n) = CHR ''0''"
  have "hd (digs 10 n) = 0"
  proof (rule digit_char_0)
    show "hd (digs 10 n) < 10" using digs_bound [of 10 "hd (digs 10 n)" n] by simp
    show "digit_char (hd (digs 10 n)) = CHR ''0''"
      using hd0 by (simp add: radix_def hd_map)
  qed
  then have "n < 10" using digs_leading [of 10 n] by (cases "n < 10") auto
  with \<open>hd (digs 10 n) = 0\<close> have "n = 0"
    by (simp add: digs.simps [of 10 n])
  then show ?thesis
    by (simp add: radix_def digs.simps [of 10 0])
qed

lemma num_stop_digit: "num_stop r \<Longrightarrow> r = [] \<or> \<not> is_digit (hd r)"
  by (auto simp: num_stop_def split: list.splits)

lemma takeWhile_dec: "num_stop r \<Longrightarrow> takeWhile is_digit (dec n @ r) = dec n"
  using dec_digits num_stop_digit by (intro takeWhile_run) auto

lemma dropWhile_dec: "num_stop r \<Longrightarrow> dropWhile is_digit (dec n @ r) = r"
  using dec_digits num_stop_digit by (intro dropWhile_run) auto

lemma opt_frac_stop: "num_stop r \<Longrightarrow> opt_frac r = Some ([], r)"
  by (cases r) (auto simp: num_stop_def)

lemma opt_exp_stop: "num_stop r \<Longrightarrow> opt_exp r = Some (0, r)"
  by (cases r) (auto simp: num_stop_def)

lemma dec_ConsE:
  obtains c s where "dec n = c # s" "is_digit c"
  by (metis dec_digits list.set_intros(1) neq_Nil_conv radix_not_Nil)

lemma opt_sign_dec: "opt_sign (dec n @ r) = (False, dec n @ r)"
  by (rule dec_ConsE [of n]) (auto simp: char_class_defs)

lemma opt_sign_int:
  "opt_sign (int_str i @ r) = (i < 0, dec (nat \<bar>i\<bar>) @ r)"
  by (simp add: int_str_def opt_sign_dec)

lemma parse_num_int:
  assumes "num_stop r" and "\<bar>of_int i\<bar> < dbl_max"
  shows "parse_num (int_str i @ r) = Some (Fin (of_int i), r)"
proof -
  have "\<not> (hd (dec (nat \<bar>i\<bar>)) = CHR ''0'' \<and> length (dec (nat \<bar>i\<bar>)) > 1)"
    using dec_no_leading_zero [of "nat \<bar>i\<bar>"] by auto
  moreover have "literal_value (i < 0) (dec (nat \<bar>i\<bar>)) [] 0 = Fin (of_int i)"
    using assms(2) by (auto simp: literal_value_def pow10_def dbl_def abs_less_iff Let_def)
  ultimately show ?thesis
    using assms(1)
    by (simp add: parse_num_def opt_sign_int takeWhile_dec dropWhile_dec opt_frac_stop
        opt_exp_stop Let_def)
qed

lemma parse_num_plain:
  assumes "plain_num n" and "num_stop r"
  shows "parse_num (json_num n @ r) = Some (n, r)"
proof -
  obtain q where n: "n = Fin q" "of_int \<lfloor>q\<rfloor> = q" "\<bar>q\<bar> < dbl_max"
    using assms(1) by (cases n) auto
  from parse_num_int [OF assms(2), of "\<lfloor>q\<rfloor>"] n show ?thesis by simp
qed

lemma int_str_hd:
  obtains c s where "int_str i = c # s" "is_digit c \<or> c = CHR ''-''"
  using that by (cases "i < 0") (auto simp: int_str_def intro: dec_ConsE [of "nat i"])

lemma json_num_hd:
  assumes "plain_num n"
  obtains c s where "json_num n = c # s" "is_digit c \<or> c = CHR ''-''"
proof -
  obtain q where n: "n = Fin q" "of_int \<lfloor>q\<rfloor> = q"
    using assms by (cases n) auto
  then have "json_num n = int_str \<lfloor>q\<rfloor>" by simp
  with int_str_hd [of "\<lfloor>q\<rfloor>"] that show ?thesis by metis
qed

section \<open>Values\<close>

lemma stringify_hd:
  assumes "plain j"
  obtains c s where "stringify j = c # s" "\<not> json_ws c" "c \<noteq> CHR '']''" "c \<noteq> CHR ''}''"
proof (cases j)
  case (JNum n)
  with assms obtain c s where "json_num n = c # s" "is_digit c \<or> c = CHR ''-''"
    using json_num_hd by (metis plain.simps(1))
  with JNum that show ?thesis by (fastforce simp: json_ws_def char_class_defs)
next
  case (JBool b)
  with that show ?thesis by (cases b) (simp_all add: json_ws_def)
qed (use that in \<open>simp_all add: json_ws_def quote_def dq_def\<close>)

lemma skip_ws_stringify:
  assumes "plain j"
  shows "skip_ws (stringify j @ r) = stringify j @ r"
  using stringify_hd [OF assms] by (metis append_Cons dropWhile.simps(2) skip_ws_def)

lemma skip_ws_Cons [simp]: "\<not> json_ws c \<Longrightarrow> skip_ws (c # s) = c # s"
  by (simp add: skip_ws_def)

lemma json_ws_simps [simp]:
  "\<not> json_ws dq" "\<not> json_ws (CHR '':'')" "\<not> json_ws (CHR '','')" "\<not> json_ws (CHR ''['')"
  "\<not> json_ws (CHR '']'')" "\<not> json_ws (CHR ''{'')" "\<not> json_ws (CHR ''}'')"
  by (simp_all add: json_ws_def dq_def)

lemma dq_other [simp]:
  "CHR ''n'' \<noteq> dq" "CHR ''t'' \<noteq> dq" "CHR ''f'' \<noteq> dq"
  "\<not> json_ws (CHR ''n'')" "\<not> json_ws (CHR ''t'')" "\<not> json_ws (CHR ''f'')"
  by (simp_all add: json_ws_def dq_def)

lemma num_stop_simps [simp]:
  "num_stop []" "num_stop (CHR '','' # r)" "num_stop (CHR '']'' # r)" "num_stop (CHR ''}'' # r)"
  by (simp_all add: num_stop_def char_class_defs)

lemma starts_print_elems:
  assumes "list_all plain js" and "js \<noteq> []"
  shows "\<not> starts_with '']'' (skip_ws (print_elems js @ r)) \<and> skip_ws (print_elems js @ r) = print_elems js @ r"
proof -
  obtain j is' where js: "js = j # is'" using assms(2) by (cases js) auto
  have "plain j" using assms(1) js by simp
  then obtain c s where c: "stringify j = c # s" "\<not> json_ws c" "c \<noteq> CHR '']''"
    by (rule stringify_hd)
  from c js obtain t where "print_elems js = c # t" by (cases is') auto
  with c show ?thesis by simp
qed

lemma print_members_hd:
  "kvs \<noteq> [] \<Longrightarrow> \<exists>t. print_members kvs = dq # t"
  by (cases kvs rule: print_members.cases) (auto simp: quote_def)

lemma starts_print_members:
  assumes "kvs \<noteq> []"
  shows "\<not> starts_with ''}'' (skip_ws (print_members kvs @ r))"
  using print_members_hd [OF assms] by (auto simp: dq_def json_ws_def skip_ws_def)

lemma parse_member_head:
  "parse_members (Suc k) (quote key @ CHR '':'' # s) =
     (case parse_val k s of None \<Rightarrow> None
      | Some (j, r) \<Rightarrow>
          (case skip_ws r of [] \<Rightarrow> None
           | c # t \<Rightarrow> if c = CHR ''}'' then Some ([(key, j)], t)
                      else if c = CHR '','' then cons_fst (key, j) (parse_members k t)
                      else None))"
  by (simp add: quote_def parse_chars_escaped)

lemma parse_stringify:
  "plain j \<Longrightarrow> jsize j \<le> k \<Longrightarrow> num_stop r \<Longrightarrow> parse_val k (stringify j @ r) = Some (j, r)"
  "list_all plain js \<Longrightarrow> js \<noteq> [] \<Longrightarrow> esize js \<le> k \<Longrightarrow>
     parse_elems k (print_elems js @ CHR '']'' # r) = Some (js, r)"
  "list_all (\<lambda>(k, j). plain j) kvs \<Longrightarrow> kvs \<noteq> [] \<Longrightarrow> msize kvs \<le> k \<Longrightarrow>
     parse_members k (print_members kvs @ CHR ''}'' # r) = Some (kvs, r)"
proof (induction j and js and kvs arbitrary: k r and k r and k r
    rule: stringify_print_elems_print_members.induct)
  case (3 n)
  then obtain c s where c: "json_num n = c # s" "is_digit c \<or> c = CHR ''-''"
    using json_num_hd by (metis plain.simps(1))
  from 3 obtain k' where k: "k = Suc k'" by (cases k) auto
  have "parse_num (json_num n @ r) = Some (n, r)"
    using 3 by (intro parse_num_plain) auto
  moreover have "c \<noteq> dq" "c \<noteq> CHR ''{''" "c \<noteq> CHR ''[''" "c \<noteq> CHR ''n''" "c \<noteq> CHR ''t''"
      "c \<noteq> CHR ''f''" "\<not> json_ws c"
    using c(2) by (auto simp: char_class_defs dq_def json_ws_def)
  ultimately show ?case using c(1) k by simp
next
  case (5 js)
  then obtain k' where k: "k = Suc k'" by (cases k) auto
  show ?case
  proof (cases "js = []")
    case True
    then show ?thesis using k by (simp add: dq_def)
  next
    case False
    with 5 k have "parse_elems k' (print_elems js @ CHR '']'' # r) = Some (js, r)" by auto
    moreover have "\<not> starts_with '']'' (skip_ws (print_elems js @ CHR '']'' # r))"
      using starts_print_elems [of js "CHR '']'' # r"] 5 False by auto
    ultimately show ?thesis using k by (simp add: dq_def)
  qed
next
  case (6 kvs)
  then obtain k' where k: "k = Suc k'" by (cases k) auto
  show ?case
  proof (cases "kvs = []")
    case True
    then show ?thesis using k by (simp add: dq_def)
  next
    case False
    with 6 k have "parse_members k' (print_members kvs @ CHR ''}'' # r) = Some (kvs, r)" by auto
    with starts_print_members [OF False, of "CHR ''}'' # r"] k
    show ?thesis by (simp add: dq_def)
  qed
next
  case (8 j)
  then obtain k' where k: "k = Suc k'" by (cases k) auto
  with 8 have "parse_val k' (stringify j @ CHR '']'' # r) = Some (j, CHR '']'' # r)" by auto
  with k show ?case by simp
next
  case (9 j i js)
  then obtain k' where k: "k = Suc k'" by (cases k) auto
  let ?t = "CHR '','' # print_elems (i # js) @ CHR '']'' # r"
  from 9 k have "parse_val k' (stringify j @ ?t) = Some (j, ?t)" by auto
  moreover from 9 k have "parse_elems k' (print_elems (i # js) @ CHR '']'' # r) = Some (i # js, r)"
    by auto
  ultimately show ?case using k by (simp add: cons_fst_def)
next
  case (11 key j)
  then obtain k' where k: "k = Suc k'" by (cases k) auto
  with 11 have "parse_val k' (stringify j @ CHR ''}'' # r) = Some (j, CHR ''}'' # r)" by auto
  with k show ?case by (simp add: parse_member_head del: parse_members.simps)
next
  case (12 key j m kvs)
  then obtain k' where k: "k = Suc k'" by (cases k) auto
  let ?t = "CHR '','' # print_members (m # kvs) @ CHR ''}'' # r"
  from 12 k have "parse_val k' (stringify j @ ?t) = Some (j, ?t)" by auto
  moreover from 12 k have
    "parse_members k' (print_members (m # kvs) @ CHR ''}'' # r) = Some (m # kvs, r)" by auto
  ultimately show ?case using k
    by (simp add: parse_member_head cons_fst_def del: parse_members.simps)
qed (auto simp: quote_def parse_chars_escaped Suc_le_eq gr0_conv_Suc)

section \<open>The fuel of the parser is enough\<close>

lemma length_quote: "2 \<le> length (quote s)"
  by (simp add: quote_def)

lemma size_print:
  "jsize j \<le> length (stringify j)"
  "esize js \<le> Suc (length (print_elems js))"
  "msize kvs \<le> Suc (length (print_members kvs))"
proof (induction j and js and kvs rule: stringify_print_elems_print_members.induct)
  case (3 n)
  show ?case by (cases n) (auto simp: int_str_def Suc_le_eq)
next
  case (4 s)
  show ?case using length_quote [of s] by simp
qed auto

lemma json_parse_stringify:
  assumes "plain j"
  shows "json_parse (stringify j) = Some j"
proof -
  have "parse_val (Suc (length (stringify j))) (stringify j @ []) = Some (j, [])"
    using assms size_print(1) [of j] by (intro parse_stringify(1)) auto
  then show ?thesis by (simp add: json_parse_def skip_ws_def)
qed

section \<open>The codec interface\<close>

text \<open>
  What the memo writers (create, id, markets) and the memo readers rely on: what one prints
  the other reads back.
\<close>

locale json_codec =
  fixes ok :: "'v \<Rightarrow> bool"
    and print :: "'v \<Rightarrow> string"
    and parse :: "string \<Rightarrow> 'v option"
  assumes parse_print: "ok v \<Longrightarrow> parse (print v) = Some v"
begin

lemma print_inject: "ok v \<Longrightarrow> ok w \<Longrightarrow> print v = print w \<Longrightarrow> v = w"
  by (metis option.inject parse_print)

end

interpretation js_json: json_codec plain stringify json_parse
  by unfold_locales (rule json_parse_stringify)

end
