(* ===== verification/Base64.thy ===== *)
theory Base64
  imports Prelude
begin

text \<open>
  The browser's \<open>atob\<close> (forgiving base64 decoding) and, as its specification partner,
  \<open>btoa\<close>.  The RPC delivers transactions in base64, so \<open>atob\<close> is on the path of every
  decoded transaction; \<open>None\<close> is the \<open>InvalidCharacterError\<close> it throws.
\<close>

type_synonym byte = "8 word"

definition b64_val :: "char \<Rightarrow> nat option" where
  "b64_val c =
     (if is_upper c then Some (of_char c - 65)
      else if is_lower c then Some (of_char c - 71)
      else if is_digit c then Some (of_char c + 4)
      else if c = CHR ''+'' then Some 62
      else if c = CHR ''/'' then Some 63
      else None)"

definition b64_char :: "nat \<Rightarrow> char" where
  "b64_char n =
     (if n < 26 then char_of (n + 65)
      else if n < 52 then char_of (n + 71)
      else if n < 62 then char_of (n - 4)
      else if n = 62 then CHR ''+'' else CHR ''/'')"

text \<open>Four sextets make three octets; two make one and three make two.\<close>

fun octets :: "nat list \<Rightarrow> nat list" where
  "octets (a # b # c # d # r) =
     (a * 4 + b div 16) # (b mod 16 * 16 + c div 4) # (c mod 4 * 64 + d) # octets r"
| "octets [a, b, c] = [a * 4 + b div 16, b mod 16 * 16 + c div 4]"
| "octets [a, b] = [a * 4 + b div 16]"
| "octets _ = []"

fun sextets :: "nat list \<Rightarrow> nat list" where
  "sextets (x # y # z # r) =
     (x div 4) # (x mod 4 * 16 + y div 16) # (y mod 16 * 4 + z div 64) # (z mod 64) # sextets r"
| "sextets [x, y] = [x div 4, x mod 4 * 16 + y div 16, y mod 16 * 4]"
| "sextets [x] = [x div 4, x mod 4 * 16]"
| "sextets [] = []"

definition ascii_ws :: "char \<Rightarrow> bool" where
  "ascii_ws c \<longleftrightarrow> c \<in> {CHR 0x09, CHR 0x0A, CHR 0x0C, CHR 0x0D, CHR 0x20}"

definition strip_pad :: "string \<Rightarrow> string" where
  "strip_pad s =
     (if length s mod 4 = 0 \<and> slice_last 1 s = ''='' then
        (if slice_last 2 s = ''=='' then take (length s - 2) s else take (length s - 1) s)
      else s)"

fun the_all :: "'a option list \<Rightarrow> 'a list option" where
  "the_all [] = Some []"
| "the_all (None # xs) = None"
| "the_all (Some x # xs) = map_option ((#) x) (the_all xs)"

definition atob :: "string \<Rightarrow> byte list option" where
  "atob raw =
     (let s = strip_pad (filter (\<lambda>c. \<not> ascii_ws c) raw) in
      if length s mod 4 = 1 then None
      else map_option (\<lambda>vs. map of_nat (octets vs)) (the_all (map b64_val s)))"

definition b64_pad :: "string \<Rightarrow> string" where
  "b64_pad s = s @ replicate ((4 - length s mod 4) mod 4) (CHR ''='')"

definition btoa :: "byte list \<Rightarrow> string" where
  "btoa bs = b64_pad (map b64_char (sextets (map unat bs)))"

section \<open>Round trip\<close>

lemma b64_val_char [simp]: "n < 64 \<Longrightarrow> b64_val (b64_char n) = Some n"
proof -
  assume n: "n < 64"
  consider "n < 26" | "26 \<le> n" "n < 52" | "52 \<le> n" "n < 62" | "n = 62" | "n = 63"
    using n by linarith
  then show ?thesis
    by cases (auto simp: b64_val_def b64_char_def is_upper_def is_lower_def is_digit_def in_range_def)
qed

lemma b64_val_outside:
  "b64_val (CHR 0x09) = None" "b64_val (CHR 0x0A) = None" "b64_val (CHR 0x0C) = None"
  "b64_val (CHR 0x0D) = None" "b64_val (CHR 0x20) = None" "b64_val (CHR ''='') = None"
  by (simp_all add: b64_val_def is_upper_def is_lower_def is_digit_def in_range_def)

lemma b64_char_plain: "n < 64 \<Longrightarrow> \<not> ascii_ws (b64_char n) \<and> b64_char n \<noteq> CHR ''=''"
proof -
  assume "n < 64"
  then have "b64_val (b64_char n) \<noteq> None" by simp
  then have "b64_char n \<notin> {CHR 0x09, CHR 0x0A, CHR 0x0C, CHR 0x0D, CHR 0x20, CHR ''=''}"
    using b64_val_outside by (metis insertE singletonD)
  then show ?thesis unfolding ascii_ws_def by blast
qed

lemma the_all_map: "(\<And>x. x \<in> set xs \<Longrightarrow> f x = Some (g x)) \<Longrightarrow> the_all (map f xs) = Some (map g xs)"
  by (induction xs) auto

lemma sextet_mid: "(x::nat) < 256 \<Longrightarrow> y < 256 \<Longrightarrow> x mod 4 * 16 + y div 16 < 64"
proof -
  assume "y < 256"
  then have "y div 16 < 16" by arith
  moreover have "x mod 4 < 4" by simp
  ultimately show ?thesis by linarith
qed

lemma sextet_late: "(y::nat) < 256 \<Longrightarrow> z < 256 \<Longrightarrow> y mod 16 * 4 + z div 64 < 64"
proof -
  assume "z < 256"
  then have "z div 64 < 4" by arith
  moreover have "y mod 16 < 16" by simp
  ultimately show ?thesis by linarith
qed

lemma sextet_first: "(x::nat) < 256 \<Longrightarrow> x div 4 < 64"
  by arith

lemma sextets_bound: "\<forall>x \<in> set xs. x < 256 \<Longrightarrow> \<forall>v \<in> set (sextets xs). v < 64"
proof (induction xs rule: sextets.induct)
  case (1 x y z r)
  then show ?case by (simp add: sextet_first sextet_mid sextet_late)
next
  case (2 x y)
  then show ?case using sextet_late [of y 0] by (simp add: sextet_first sextet_mid)
next
  case (3 x)
  then show ?case using sextet_mid [of x 0] by (simp add: sextet_first)
qed simp

lemma octet_first: "y < (256::nat) \<Longrightarrow> x div 4 * 4 + (x mod 4 * 16 + y div 16) div 16 = x"
proof -
  assume "y < 256"
  then have "y div 16 < 16" by arith
  then have "(x mod 4 * 16 + y div 16) div 16 = x mod 4" by simp
  then show ?thesis by simp
qed

lemma octet_second:
  "z < (256::nat) \<Longrightarrow> y < 256 \<Longrightarrow>
   (x mod 4 * 16 + y div 16) mod 16 * 16 + (y mod 16 * 4 + z div 64) div 4 = y"
proof -
  assume "z < 256" "y < 256"
  then have "z div 64 < 4" "y div 16 < 16" by arith+
  then have "(y mod 16 * 4 + z div 64) div 4 = y mod 16"
    and "(x mod 4 * 16 + y div 16) mod 16 = y div 16" by simp_all
  then show ?thesis by simp
qed

lemma octet_third:
  "z < (256::nat) \<Longrightarrow> (y mod 16 * 4 + z div 64) mod 4 * 64 + z mod 64 = z"
proof -
  assume "z < 256"
  then have "z div 64 < 4" by arith
  then have "(y mod 16 * 4 + z div 64) mod 4 = z div 64" by simp
  then show ?thesis by simp
qed

lemma octets_sextets: "\<forall>x \<in> set xs. x < 256 \<Longrightarrow> octets (sextets xs) = xs"
proof (induction xs rule: sextets.induct)
  case (1 x y z r)
  then have "x < 256" "y < 256" "z < 256" "octets (sextets r) = r" by auto
  then show ?case
    by (simp only: sextets.simps octets.simps octet_first octet_second octet_third)
next
  case (2 x y)
  then have "y < 256" by simp
  then show ?case
    using octet_second [of 0 y x]
    by (simp only: sextets.simps octets.simps octet_first) simp
next
  case (3 x)
  then show ?case using octet_first [of 0 x] by simp
qed simp

lemma length_sextets_mod: "length (sextets xs) mod 4 \<noteq> 1"
proof (induction xs rule: sextets.induct)
  case (1 x y z r)
  then show ?case by simp
qed auto

lemma strip_pad_pad:
  assumes "CHR ''='' \<notin> set s" and "length s mod 4 \<noteq> 1"
  shows "strip_pad (b64_pad s) = s"
proof -
  have "length s mod 4 < 4" by simp
  with assms(2) consider "length s mod 4 = 0" | "length s mod 4 = 2" | "length s mod 4 = 3"
    by linarith
  then show ?thesis
  proof cases
    case 1
    then have "b64_pad s = s" by (simp add: b64_pad_def)
    moreover have "slice_last 1 s \<noteq> ''=''"
    proof
      assume "slice_last 1 s = ''=''"
      then have "CHR ''='' \<in> set (drop (length s - 1) s)" by (simp add: slice_last_def)
      with assms(1) show False by (meson in_set_dropD)
    qed
    ultimately show ?thesis by (simp add: strip_pad_def)
  next
    case 2
    then have "b64_pad s = s @ ''==''" by (simp add: b64_pad_def numeral_2_eq_2)
    moreover have "(length s + 2) mod 4 = 0" using 2 by presburger
    ultimately show ?thesis by (simp add: strip_pad_def slice_last_def)
  next
    case 3
    then have "b64_pad s = s @ ''=''" by (simp add: b64_pad_def)
    moreover have "(length s + 1) mod 4 = 0" using 3 by presburger
    moreover have "slice_last 2 (s @ ''='') \<noteq> ''==''"
    proof
      assume eq: "slice_last 2 (s @ ''='') = ''==''"
      from 3 obtain t c where "s = t @ [c]" by (cases s rule: rev_cases) auto
      with eq have "c = CHR ''=''" by (simp add: slice_last_def)
      with \<open>s = t @ [c]\<close> assms(1) show False by simp
    qed
    ultimately show ?thesis by (simp add: strip_pad_def slice_last_def)
  qed
qed

lemma atob_btoa: "atob (btoa bs) = Some bs"
proof -
  let ?v = "sextets (map unat bs)" and ?s = "map b64_char (sextets (map unat bs))"
  have small: "\<forall>x \<in> set (map unat bs). x < 256"
    using unsigned_less [where 'b = 8] by fastforce
  have v: "\<And>n. n \<in> set ?v \<Longrightarrow> n < 64" using sextets_bound [OF small] by blast
  have no_pad: "CHR ''='' \<notin> set ?s" using v b64_char_plain by force
  have "filter (\<lambda>c. \<not> ascii_ws c) (btoa bs) = b64_pad ?s"
  proof -
    have "\<forall>c \<in> set (btoa bs). \<not> ascii_ws c"
      using v b64_char_plain by (auto simp: btoa_def b64_pad_def ascii_ws_def)
    then have "filter (\<lambda>c. \<not> ascii_ws c) (btoa bs) = btoa bs" by (rule filter_True)
    then show ?thesis by (simp add: btoa_def)
  qed
  then have "strip_pad (filter (\<lambda>c. \<not> ascii_ws c) (btoa bs)) = ?s"
    using strip_pad_pad [OF no_pad] length_sextets_mod by (simp add: btoa_def)
  moreover have "the_all (map b64_val ?s) = Some ?v"
  proof -
    have "the_all (map (\<lambda>n. b64_val (b64_char n)) ?v) = Some (map (\<lambda>n. n) ?v)"
      by (rule the_all_map) (simp add: v)
    then show ?thesis by (simp add: comp_def)
  qed
  moreover have "octets ?v = map unat bs" using octets_sextets [OF small] .
  ultimately show ?thesis
    using length_sextets_mod by (simp add: atob_def comp_def)
qed

end
