(* ===== verification/Tx_Decode.thy ===== *)
theory Tx_Decode
  imports Json_Roundtrip Base64
begin

text \<open>
  Reading transactions off the RPC, the code that wallet.js, markets.js, mempool.js,
  points.js and id.js each carry a copy of: raw transaction to bytes, bytes to printable
  text, the \<open>IREINSCRIBE1\<close> memo in the text, the JSON object in the memo, addresses and
  \<open>uire\<close> amounts.  Regular expressions are written out as the matchers they denote.
\<close>

section \<open>Bytes and text\<close>

fun hex_pairs :: "string \<Rightarrow> byte list" where
  "hex_pairs (c # d # s) = of_nat (unradix 16 [c, d]) # hex_pairs s"
| "hex_pairs _ = []"

definition bytesFromRpcTx :: "jval \<Rightarrow> byte list option" where
  "bytesFromRpcTx raw =
     (case as_str raw of
        None \<Rightarrow> Some []
      | Some s \<Rightarrow>
          if s = [] then Some []
          else let h = (if starts_with ''0x'' s then drop 2 s else s) in
            if h \<noteq> [] \<and> list_all is_hex h \<and> length h mod 2 = 0 \<and> length h \<ge> 64
            then Some (hex_pairs h)
            else atob s)"

definition ascii_byte :: "byte \<Rightarrow> char" where
  "ascii_byte b = (if 32 \<le> unat b \<and> unat b < 127 then char_of (unat b) else nul)"

definition asciiFromBytes :: "byte list \<Rightarrow> string" where
  "asciiFromBytes bs = map ascii_byte bs"

section \<open>The inscription memo\<close>

record inscription =
  mediaType :: string
  payload :: string
  raw :: string

definition INSCRIBE :: string where "INSCRIBE = ''IREINSCRIBE1''"

text \<open>
  \<open>/^IREINSCRIBE1\s+(\S+)\s+([\s\S]+)$/\<close>.  Both runs of white space are followed by a
  non-space (the subject is trimmed), so greedy matching never has to give anything back.
\<close>

definition match_inscription :: "string \<Rightarrow> (string \<times> string) option" where
  "match_inscription s =
     (if starts_with INSCRIBE s then
        (let r0 = drop (length INSCRIBE) s;
             r1 = dropWhile is_ws r0;
             m = takeWhile (\<lambda>c. \<not> is_ws c) r1;
             r2 = dropWhile (\<lambda>c. \<not> is_ws c) r1;
             p = dropWhile is_ws r2
         in if takeWhile is_ws r0 \<noteq> [] \<and> m \<noteq> [] \<and> takeWhile is_ws r2 \<noteq> [] \<and> p \<noteq> []
            then Some (m, p) else None)
      else None)"

definition parseInscription :: "string \<Rightarrow> inscription option" where
  "parseInscription ascii =
     (case index_of INSCRIBE ascii of
        None \<Rightarrow> None
      | Some idx \<Rightarrow>
          (let sl = trim (takeWhile (\<lambda>c. c \<noteq> nul) (drop idx ascii)) in
           case match_inscription sl of
             None \<Rightarrow> Some \<lparr>mediaType = [], payload = sl, raw = sl\<rparr>
           | Some (m, p) \<Rightarrow> Some \<lparr>mediaType = m, payload = trim p, raw = sl\<rparr>))"

section \<open>The JSON object in a payload\<close>

text \<open>
  The brace matcher: the number of characters up to and including the brace that closes
  the one the scan started at.  \<open>inStr\<close>, \<open>esc\<close> and \<open>depth\<close> are the loop's variables.
\<close>

fun scan_json :: "bool \<Rightarrow> bool \<Rightarrow> nat \<Rightarrow> string \<Rightarrow> nat option" where
  "scan_json inStr esc depth [] = None"
| "scan_json inStr esc depth (c # s) =
     (if inStr then
        (if esc then map_option Suc (scan_json True False depth s)
         else if c = bsl then map_option Suc (scan_json True True depth s)
         else map_option Suc (scan_json (c \<noteq> dq) esc depth s))
      else if c = dq then map_option Suc (scan_json True esc depth s)
      else if c = CHR ''{'' then map_option Suc (scan_json False esc (Suc depth) s)
      else if c = CHR ''}'' then
        (if depth = 1 then Some 1 else map_option Suc (scan_json False esc (depth - 1) s))
      else map_option Suc (scan_json False esc depth s))"

definition extractJson :: "string \<Rightarrow> json option" where
  "extractJson p =
     (if p = [] then None
      else case index_of ''{'' p of
        None \<Rightarrow> None
      | Some start \<Rightarrow>
          (case scan_json False False 0 (drop start p) of
             None \<Rightarrow> None
           | Some n \<Rightarrow> json_parse (slice start (start + n) p)))"

section \<open>Addresses and amounts\<close>

text \<open>
  \<open>/ire1[0-9a-z]{38,58}/g\<close>: the matches from left to right, each as long as possible,
  the next search starting where the last match ended.
\<close>

definition addr_at :: "string \<Rightarrow> string option" where
  "addr_at s =
     (let run = takeWhile is_alnum_lower (drop 4 s) in
      if starts_with ''ire1'' s \<and> length run \<ge> 38 then Some (take (4 + min 58 (length run)) s)
      else None)"

lemma addr_at_length: "addr_at s = Some m \<Longrightarrow> 42 \<le> length m \<and> length m \<le> length s"
proof -
  assume m: "addr_at s = Some m"
  let ?run = "takeWhile is_alnum_lower (drop 4 s)"
  have "length ?run \<le> length (drop 4 s)" by (rule length_takeWhile_le)
  with m show ?thesis by (auto simp: addr_at_def Let_def split: if_splits)
qed

function addr_matches :: "string \<Rightarrow> string list" where
  "addr_matches s =
     (case s of
        [] \<Rightarrow> []
      | c # t \<Rightarrow>
          (case addr_at s of
             Some m \<Rightarrow> m # addr_matches (drop (length m) s)
           | None \<Rightarrow> addr_matches t))"
  by pat_completeness auto
termination
  by (relation "measure length") (auto dest: addr_at_length)

declare addr_matches.simps [simp del]

definition push_new :: "'a list \<Rightarrow> 'a \<Rightarrow> 'a list" where
  "push_new seen m = (if m \<in> set seen then seen else seen @ [m])"

definition extractAddrs :: "string \<Rightarrow> string list" where
  "extractAddrs ascii = foldl push_new [] (addr_matches ascii)"

text \<open>
  \<open>/uire\x00{0,4}([0-9]{1,20})/g\<close>; the code keeps the first match only.  Fewer NULs than
  the longest run are followed by a NUL, never by a digit, so nothing is given back.
\<close>

definition uire_at :: "string \<Rightarrow> string option" where
  "uire_at s =
     (if starts_with ''uire'' s then
        (let r = drop 4 s; z = takeWhile (\<lambda>c. c = nul) r; d = takeWhile is_digit (drop (length z) r)
         in if length z \<le> 4 \<and> d \<noteq> [] then Some (take 20 d) else None)
      else None)"

text \<open>\<open>/([0-9]{1,20})\x00{0,2}uire/\<close> at one position.\<close>

definition amount_uire_at :: "string \<Rightarrow> string option" where
  "amount_uire_at s =
     (let d = takeWhile is_digit s; r = drop (length d) s; z = takeWhile (\<lambda>c. c = nul) r
      in if 1 \<le> length d \<and> length d \<le> 20 \<and> length z \<le> 2 \<and> starts_with ''uire'' (drop (length z) r)
         then Some d else None)"

fun first_match :: "(string \<Rightarrow> 'a option) \<Rightarrow> string \<Rightarrow> 'a option" where
  "first_match f [] = f []"
| "first_match f (c # s) = (case f (c # s) of Some m \<Rightarrow> Some m | None \<Rightarrow> first_match f s)"

definition extractUireAmount :: "string \<Rightarrow> string" where
  "extractUireAmount ascii =
     (case first_match uire_at ascii of
        Some a \<Rightarrow> a
      | None \<Rightarrow> (case first_match amount_uire_at ascii of Some a \<Rightarrow> a | None \<Rightarrow> ''0''))"

definition isStakeAscii :: "string \<Rightarrow> bool" where
  "isStakeAscii ascii \<longleftrightarrow>
     str_includes ascii ''cosmos.staking.'' \<or> str_includes ascii ''cosmos.distribution.'' \<or>
     str_includes ascii ''cosmos.slashing.''"

text \<open>\<open>/^ire1[0-9a-z]{38,58}$/\<close>.\<close>

definition isIreAddr :: "string \<Rightarrow> bool" where
  "isIreAddr s \<longleftrightarrow> starts_with ''ire1'' s \<and> list_all is_alnum_lower (drop 4 s) \<and>
     42 \<le> length s \<and> length s \<le> 62"

text \<open>\<open>/\/(?:cosmos|ibc)\.[A-Za-z0-9./]+/g\<close>, the message type URLs.\<close>

definition url_char :: "char \<Rightarrow> bool" where
  "url_char c \<longleftrightarrow> is_upper c \<or> is_lower c \<or> is_digit c \<or> c = CHR ''.'' \<or> c = CHR ''/''"

definition url_from :: "string \<Rightarrow> string \<Rightarrow> string option" where
  "url_from p s =
     (let run = takeWhile url_char (drop (length p) s) in
      if starts_with p s \<and> run \<noteq> [] then Some (p @ run) else None)"

definition url_at :: "string \<Rightarrow> string option" where
  "url_at s = (case url_from ''/cosmos.'' s of Some m \<Rightarrow> Some m | None \<Rightarrow> url_from ''/ibc.'' s)"

lemma url_at_length: "url_at s = Some m \<Longrightarrow> 0 < length m"
  by (auto simp: url_at_def url_from_def Let_def split: if_splits option.splits)

function messageUrls :: "string \<Rightarrow> string list" where
  "messageUrls s =
     (case s of
        [] \<Rightarrow> []
      | c # t \<Rightarrow>
          (case url_at s of
             Some m \<Rightarrow> m # messageUrls (drop (length m) s)
           | None \<Rightarrow> messageUrls t))"
  by pat_completeness auto
termination
  by (relation "measure length") (auto dest: url_at_length)

declare messageUrls.simps [simp del]

definition messageCount :: "string \<Rightarrow> nat" where
  "messageCount ascii = max 1 (length (messageUrls ascii))"

definition escape_entity :: "char \<Rightarrow> string" where
  "escape_entity c =
     (if c = CHR ''&'' then ''&amp;''
      else if c = CHR ''<'' then ''&lt;''
      else if c = CHR ''>'' then ''&gt;''
      else if c = dq then ''&quot;''
      else [c])"

text \<open>
  The four \<open>replace\<close> calls run one after the other; the ampersand goes first, so no later
  call meets a character an earlier one produced and one pass over the text is the same
  (\<open>escapeHtml_passes\<close>).
\<close>

definition replace_char :: "char \<Rightarrow> string \<Rightarrow> string \<Rightarrow> string" where
  "replace_char c r s = concat (map (\<lambda>d. if d = c then r else [d]) s)"

definition escapeHtml :: "string \<Rightarrow> string" where
  "escapeHtml s =
     replace_char dq ''&quot;'' (replace_char (CHR ''>'') ''&gt;''
       (replace_char (CHR ''<'') ''&lt;'' (replace_char (CHR ''&'') ''&amp;'' s)))"

section \<open>Lemmas on text\<close>

lemma length_asciiFromBytes [simp]: "length (asciiFromBytes bs) = length bs"
  by (simp add: asciiFromBytes_def)

lemma ascii_byte_range: "ascii_byte b = nul \<or> printable (ascii_byte b)"
  by (auto simp: ascii_byte_def printable_def in_range_def)

lemma ascii_chars: "c \<in> set (asciiFromBytes bs) \<Longrightarrow> c = nul \<or> printable c"
  using ascii_byte_range by (auto simp: asciiFromBytes_def)

definition char_byte :: "char \<Rightarrow> byte" where "char_byte c = of_nat (of_char c)"

lemma unat_char_byte [simp]: "unat (char_byte c) = of_char c"
proof -
  have "(of_char c :: nat) < 256" by simp
  then show ?thesis by (simp add: char_byte_def unat_of_nat)
qed

lemma ascii_char_byte: "printable c \<Longrightarrow> ascii_byte (char_byte c) = c"
  by (simp add: ascii_byte_def printable_def in_range_def)

lemma asciiFromBytes_append [simp]:
  "asciiFromBytes (bs @ cs) = asciiFromBytes bs @ asciiFromBytes cs"
  by (simp add: asciiFromBytes_def)

lemma asciiFromBytes_text:
  "list_all printable s \<Longrightarrow> asciiFromBytes (map char_byte s) = s"
  by (induction s) (auto simp: asciiFromBytes_def ascii_char_byte)

lemma escapeHtml_passes: "escapeHtml s = concat (map escape_entity s)"
proof (induction s)
  case Nil
  then show ?case by (simp add: escapeHtml_def replace_char_def)
next
  case (Cons c s)
  have "escapeHtml (c # s) = escapeHtml [c] @ escapeHtml s"
    by (simp add: escapeHtml_def replace_char_def)
  moreover have "escapeHtml [c] = escape_entity c"
    by (auto simp: escapeHtml_def replace_char_def escape_entity_def dq_def)
  ultimately show ?case using Cons by simp
qed

end
