(* ===== verification/Memo.thy ===== *)
theory Memo
  imports Tx_Decode
begin

text \<open>
  What the decoder does with a memo that one of the site's own writers produced: the brace
  matcher stops exactly at the end of a printed object, whatever quotes, backslashes and
  braces its strings hold, and the inscription parser gives the printed object back from
  the middle of a transaction.  The addresses the decoder collects are well formed.
\<close>

section \<open>The brace matcher on printed values\<close>

definition adv :: "nat \<Rightarrow> nat option \<Rightarrow> nat option" where
  "adv n r = map_option ((+) n) r"

lemma adv_0 [simp]: "adv 0 r = r"
  by (cases r) (simp_all add: adv_def)

lemma adv_adv [simp]: "adv m (adv n r) = adv (m + n) r"
  by (cases r) (simp_all add: adv_def)

lemma adv_Some [simp]: "adv n (Some k) = Some (n + k)"
  by (simp add: adv_def)

lemma adv_Suc: "map_option Suc r = adv 1 r"
  by (cases r) (auto simp: adv_def)

definition inert :: "string \<Rightarrow> bool" where
  "inert s \<longleftrightarrow> dq \<notin> set s \<and> CHR ''{'' \<notin> set s \<and> CHR ''}'' \<notin> set s"

lemma scan_inert:
  "inert u \<Longrightarrow> scan_json False e d (u @ r) = adv (length u) (scan_json False e d r)"
proof (induction u)
  case Nil
  then show ?case by (simp add: adv_Suc)
next
  case (Cons c u)
  then have "inert u" "c \<noteq> dq" "c \<noteq> CHR ''{''" "c \<noteq> CHR ''}''"
    by (auto simp: inert_def)
  with Cons.IH show ?case by (simp add: adv_Suc)
qed

lemma scan_in_string:
  "dq \<notin> set u \<Longrightarrow> bsl \<notin> set u \<Longrightarrow>
   scan_json True False d (u @ r) = adv (length u) (scan_json True False d r)"
proof (induction u)
  case Nil
  then show ?case by (simp add: adv_Suc)
next
  case (Cons c u)
  then have "c \<noteq> dq" "c \<noteq> bsl" by auto
  with Cons show ?case by (simp add: adv_Suc)
qed

lemma hex_run_plain: "dq \<notin> set (pad_start 4 (CHR ''0'') (hex n)) \<and> bsl \<notin> set (pad_start 4 (CHR ''0'') (hex n))"
proof -
  have "c \<noteq> dq \<and> c \<noteq> bsl" if "is_digit c \<or> in_range 97 102 c" for c
    using that by (auto simp: char_class_defs char_names)
  then have "dq \<notin> set (hex n)" "bsl \<notin> set (hex n)" using hex_digits by blast+
  then show ?thesis
    by (auto simp: pad_start_def char_names)
qed

lemma scan_esc_char:
  "scan_json True False d (esc_char c @ r) =
     adv (length (esc_char c)) (scan_json True False d r)"
proof (rule esc_char_cases [of c])
  assume "esc_char c = [c]" "c \<noteq> dq" "c \<noteq> bsl"
  then show ?thesis by (simp add: adv_Suc)
next
  fix e
  assume "esc_char c = [bsl, e]"
  then show ?thesis by (simp add: adv_Suc)
next
  let ?h = "pad_start 4 (CHR ''0'') (hex (of_char c))"
  assume "esc_char c = bsl # ''u'' @ ?h"
  then show ?thesis
    using scan_in_string [of ?h d r] hex_run_plain
    by (simp add: adv_Suc)
qed

lemma scan_escaped:
  "scan_json True False d (concat (map esc_char s) @ r) =
     adv (length (concat (map esc_char s))) (scan_json True False d r)"
  by (induction s) (simp_all add: scan_esc_char adv_Suc)

lemma scan_quote:
  "scan_json False False d (quote s @ r) =
     adv (length (quote s)) (scan_json False False d r)"
  using scan_escaped [of d s "dq # r"]
  by (simp add: quote_def adv_Suc)

lemma json_num_chars:
  assumes "plain_num n" and "c \<in> set (json_num n)"
  shows "is_digit c \<or> c = CHR ''-''"
proof -
  obtain q where "n = Fin q" "of_int \<lfloor>q\<rfloor> = q" using assms(1) by (cases n) auto
  with assms(2) dec_digits show ?thesis by (auto simp: int_str_def split: if_splits)
qed

lemma inert_num: "plain_num n \<Longrightarrow> inert (json_num n)"
  unfolding inert_def using json_num_chars by (fastforce simp: char_class_defs char_names)

lemma inert_words: "inert ''null''" "inert ''true''" "inert ''false''" "inert ''[''" "inert '']''"
    "inert '',''" "inert '':''"
  by (simp_all add: inert_def dq_def)

lemmas scan_char = scan_inert [of "[c]" for c, simplified]

lemma scan_open: "scan_json False False d (CHR ''{'' # r) = adv 1 (scan_json False False (Suc d) r)"
  by (simp add: dq_def adv_Suc)

lemma scan_close:
  "scan_json False False (Suc (Suc d)) (CHR ''}'' # r) = adv 1 (scan_json False False (Suc d) r)"
  "scan_json False False (Suc 0) (CHR ''}'' # r) = Some 1"
  by (simp_all add: dq_def adv_Suc)

lemma scan_punct:
  "c \<in> {CHR '','', CHR '':'', CHR ''['', CHR '']''} \<Longrightarrow>
   scan_json False False d (c # r) = adv 1 (scan_json False False d r)"
  by (auto simp: dq_def adv_Suc)

lemma scan_print:
  "plain j \<Longrightarrow> scan_json False False (Suc d) (stringify j @ r) =
     adv (length (stringify j)) (scan_json False False (Suc d) r)"
  "list_all plain js \<Longrightarrow> scan_json False False (Suc d) (print_elems js @ r) =
     adv (length (print_elems js)) (scan_json False False (Suc d) r)"
  "list_all (\<lambda>(k, j). plain j) kvs \<Longrightarrow> scan_json False False (Suc d) (print_members kvs @ r) =
     adv (length (print_members kvs)) (scan_json False False (Suc d) r)"
proof (induction j and js and kvs arbitrary: d r and d r and d r
    rule: stringify_print_elems_print_members.induct)
  case 1
  show ?case using scan_inert [OF inert_words(1), of False "Suc d" r] by (simp del: scan_json.simps)
next
  case (2 b)
  show ?case
    using scan_inert [OF inert_words(2), of False "Suc d" r]
      scan_inert [OF inert_words(3), of False "Suc d" r] by (simp del: scan_json.simps)
next
  case (3 n)
  then show ?case by (simp add: scan_inert inert_num del: scan_json.simps)
next
  case (4 s)
  show ?case by (simp add: scan_quote del: scan_json.simps)
next
  case (5 js)
  then have "scan_json False False (Suc d) (print_elems js @ CHR '']'' # r) =
      adv (length (print_elems js)) (scan_json False False (Suc d) (CHR '']'' # r))"
    by simp
  then show ?case
    by (simp add: scan_punct adv_Suc del: scan_json.simps)
next
  case (6 kvs)
  then have "scan_json False False (Suc (Suc d)) (print_members kvs @ CHR ''}'' # r) =
      adv (length (print_members kvs)) (scan_json False False (Suc (Suc d)) (CHR ''}'' # r))"
    by simp
  then show ?case
    by (simp add: scan_open scan_close adv_Suc del: scan_json.simps)
next
  case (9 j i js)
  let ?t = "print_elems (i # js) @ r"
  from 9 have "scan_json False False (Suc d) (stringify j @ CHR '','' # ?t) =
      adv (length (stringify j)) (scan_json False False (Suc d) (CHR '','' # ?t))"
    and "scan_json False False (Suc d) ?t =
      adv (length (print_elems (i # js))) (scan_json False False (Suc d) r)"
    by auto
  then show ?case
    by (simp add: scan_punct adv_Suc del: scan_json.simps)
next
  case (11 key j)
  then have "scan_json False False (Suc d) (stringify j @ r) =
      adv (length (stringify j)) (scan_json False False (Suc d) r)"
    by simp
  then show ?case
    by (simp add: scan_quote scan_punct adv_Suc del: scan_json.simps)
next
  case (12 key j m kvs)
  let ?t = "print_members (m # kvs) @ r"
  from 12 have "scan_json False False (Suc d) (stringify j @ CHR '','' # ?t) =
      adv (length (stringify j)) (scan_json False False (Suc d) (CHR '','' # ?t))"
    and "scan_json False False (Suc d) ?t =
      adv (length (print_members (m # kvs))) (scan_json False False (Suc d) r)"
    by auto
  then show ?case
    by (simp add: scan_quote scan_punct adv_Suc del: scan_json.simps)
qed (simp_all add: adv_Suc del: scan_json.simps)

lemma scan_object:
  assumes "plain (JObj kvs)"
  shows "scan_json False False 0 (stringify (JObj kvs) @ r) = Some (length (stringify (JObj kvs)))"
  using scan_print(3) [of kvs 0 "CHR ''}'' # r"] assms
  by (simp add: scan_open scan_close del: scan_json.simps)

lemma extractJson_print:
  assumes "plain (JObj kvs)" and "CHR ''{'' \<notin> set u"
  shows "extractJson (u @ stringify (JObj kvs) @ r) = Some (JObj kvs)"
proof -
  have hd: "stringify (JObj kvs) = CHR ''{'' # (print_members kvs @ ''}'')" by simp
  have "index_of ''{'' (u @ stringify (JObj kvs) @ r) = Some (length u)"
    using index_of_skip [OF assms(2), of "[]"] by (simp add: hd)
  moreover have "slice (length u) (length u + length (stringify (JObj kvs))) (u @ stringify (JObj kvs) @ r)
      = stringify (JObj kvs)"
    by (simp add: slice_def)
  ultimately show ?thesis
    using scan_object [OF assms(1), of r] js_json.parse_print [OF assms(1)]
    by (simp add: extractJson_def hd del: stringify.simps)
qed

section \<open>Printed objects are printable\<close>

fun json_ascii :: "json \<Rightarrow> bool" where
  "json_ascii (JStr s) = list_all printable s"
| "json_ascii (JArr js) = list_all json_ascii js"
| "json_ascii (JObj kvs) = list_all (\<lambda>(k, j). list_all printable k \<and> json_ascii j) kvs"
| "json_ascii _ = True"

lemma printable_esc: "printable c \<Longrightarrow> list_all printable (esc_char c)"
  by (auto simp: esc_char_def printable_def in_range_def char_names)

lemma printable_lits:
  "list_all printable ''null''" "list_all printable ''true''" "list_all printable ''false''"
  "list_all printable ''[]{},:''"
  by (simp_all add: printable_def in_range_def)

lemma printable_quote: "list_all printable s \<Longrightarrow> list_all printable (quote s)"
proof -
  assume "list_all printable s"
  then have "list_all printable (concat (map esc_char s))"
    by (induction s) (auto simp: printable_esc)
  then show ?thesis by (simp add: quote_def printable_def in_range_def dq_def)
qed

lemma printable_num: "plain_num n \<Longrightarrow> list_all printable (json_num n)"
  using json_num_chars unfolding list_all_iff by (fastforce simp: char_class_defs)

lemma printable_print:
  "plain j \<Longrightarrow> json_ascii j \<Longrightarrow> list_all printable (stringify j)"
  "list_all plain js \<Longrightarrow> list_all json_ascii js \<Longrightarrow> list_all printable (print_elems js)"
  "list_all (\<lambda>(k, j). plain j) kvs \<Longrightarrow> list_all (\<lambda>(k, j). list_all printable k \<and> json_ascii j) kvs \<Longrightarrow>
     list_all printable (print_members kvs)"
proof (induction j and js and kvs rule: stringify_print_elems_print_members.induct)
  case (3 n)
  then show ?case by (simp add: printable_num)
qed (use printable_lits in \<open>auto simp: printable_quote\<close>)

section \<open>The memo in a transaction\<close>

text \<open>\<open>IREINSCRIBE1 application/json {json}\<close>, as \<open>memoFor\<close> builds it.\<close>

definition MEMO_PREFIX :: string where "MEMO_PREFIX = ''IREINSCRIBE1 application/json ''"

definition memo_text :: "json \<Rightarrow> string" where
  "memo_text j = MEMO_PREFIX @ stringify j"

lemma match_inscription_memo:
  assumes "body \<noteq> []" and "\<not> is_ws (hd body)"
  shows "match_inscription (MEMO_PREFIX @ body) = Some (''application/json'', body)"
proof -
  obtain c t where body: "body = c # t" and c: "\<not> is_ws c" using assms by (cases body) auto
  show ?thesis
    by (simp add: match_inscription_def MEMO_PREFIX_def INSCRIBE_def body c is_ws_def Let_def
        del: insert_iff) (use c in \<open>simp add: is_ws_def\<close>)
qed

lemma stringify_object_ends:
  "hd (stringify (JObj kvs)) = CHR ''{''" "last (stringify (JObj kvs)) = CHR ''}''"
  "stringify (JObj kvs) \<noteq> []"
  by simp_all

lemma nul_not_printable: "\<not> printable nul"
  by (simp add: printable_def in_range_def nul_def)

lemma parseInscription_memo:
  assumes plain: "plain (JObj kvs)" and ascii: "json_ascii (JObj kvs)"
    and idx: "index_of INSCRIBE txt = Some i"
    and at: "drop i txt = memo_text (JObj kvs) @ rest"
    and rest: "rest = [] \<or> hd rest = nul"
  shows "parseInscription txt =
    Some \<lparr>mediaType = ''application/json'', payload = stringify (JObj kvs), raw = memo_text (JObj kvs)\<rparr>"
proof -
  let ?b = "stringify (JObj kvs)" and ?m = "memo_text (JObj kvs)"
  have ends: "\<not> is_ws (hd ?b)" "\<not> is_ws (last ?b)" "?b \<noteq> []"
    by (simp_all add: is_ws_def)
  have "list_all printable ?m"
    using printable_print(1) [OF plain ascii]
    by (simp add: memo_text_def MEMO_PREFIX_def printable_def in_range_def del: stringify.simps)
  then have no_nul: "c \<noteq> nul" if "c \<in> set ?m" for c
    using that nul_not_printable by (auto simp: list_all_iff)
  have "takeWhile (\<lambda>c. c \<noteq> nul) (drop i txt) = ?m"
    unfolding at using no_nul rest by (intro takeWhile_run) auto
  moreover have "trim ?m = ?m"
    using ends by (intro trim_id) (simp add: memo_text_def MEMO_PREFIX_def is_ws_def del: stringify.simps)
  moreover have "match_inscription ?m = Some (''application/json'', ?b)"
    using match_inscription_memo ends unfolding memo_text_def by blast
  moreover have "trim ?b = ?b" using ends by (intro trim_id) simp
  ultimately show ?thesis using idx by (simp add: parseInscription_def del: stringify.simps)
qed

section \<open>Transactions that carry a memo\<close>

text \<open>
  The bytes of a transaction that carries a memo: something before it without a capital I,
  the memo, and then nothing or a byte that is not printable.
\<close>

definition carries :: "byte list \<Rightarrow> string \<Rightarrow> bool" where
  "carries bytes memo \<longleftrightarrow>
     (\<exists>pre post. bytes = pre @ map char_byte memo @ post \<and>
        CHR ''I'' \<notin> set (asciiFromBytes pre) \<and>
        (post = [] \<or> ascii_byte (hd post) = nul))"

lemma memo_printable:
  "plain (JObj kvs) \<Longrightarrow> json_ascii (JObj kvs) \<Longrightarrow> list_all printable (memo_text (JObj kvs))"
  using printable_print(1) [of "JObj kvs"]
  by (simp add: memo_text_def MEMO_PREFIX_def printable_def in_range_def del: stringify.simps)

lemma carries_at:
  assumes "carries bytes memo" "list_all printable memo" "memo = INSCRIBE @ t"
  obtains i r where "index_of INSCRIBE (asciiFromBytes bytes) = Some i"
    "drop i (asciiFromBytes bytes) = memo @ r" "r = [] \<or> hd r = nul"
proof -
  obtain pre post where b: "bytes = pre @ map char_byte memo @ post"
    and pre: "CHR ''I'' \<notin> set (asciiFromBytes pre)"
    and post: "post = [] \<or> ascii_byte (hd post) = nul"
    using assms(1) by (auto simp: carries_def)
  let ?p = "asciiFromBytes pre" and ?r = "asciiFromBytes post"
  have a: "asciiFromBytes bytes = ?p @ memo @ ?r"
    using assms(2) by (simp add: b asciiFromBytes_text)
  have "index_of INSCRIBE (asciiFromBytes bytes) = Some (length ?p)"
    unfolding a assms(3) INSCRIBE_def using index_of_skip [OF pre, of "tl INSCRIBE" "t @ ?r"]
    by (simp add: INSCRIBE_def)
  moreover have "drop (length ?p) (asciiFromBytes bytes) = memo @ ?r" by (simp add: a)
  moreover have "?r = [] \<or> hd ?r = nul" using post by (cases post) (auto simp: asciiFromBytes_def)
  ultimately show thesis by (rule that)
qed

section \<open>Collected addresses\<close>

lemma addr_at_addr:
  assumes "addr_at s = Some m"
  shows "isIreAddr m \<and> (\<exists>v. s = m @ v)"
proof -
  let ?run = "takeWhile is_alnum_lower (drop 4 s)"
  let ?n = "min 58 (length ?run)"
  from assms have s: "starts_with ''ire1'' s" and len: "38 \<le> length ?run"
    and m: "m = take (4 + ?n) s"
    by (auto simp: addr_at_def Let_def split: if_splits)
  from s obtain t where st: "s = ''ire1'' @ t" using starts_with_iff by blast
  have "take ?n t = take ?n ?run"
  proof -
    have "t = ?run @ dropWhile is_alnum_lower t" by (simp add: st)
    then show ?thesis by (metis (no_types, lifting) append_Nil2 diff_is_0_eq min.cobounded2 take0 take_append)
  qed
  moreover have "m = ''ire1'' @ take ?n t"
    unfolding m st by (simp only: take_append) (simp add: st)
  ultimately have "m = ''ire1'' @ take ?n ?run" by simp
  moreover have "list_all is_alnum_lower (take ?n ?run)"
    unfolding list_all_iff by (meson in_set_takeD set_takeWhileD)
  ultimately have "isIreAddr m" using len by (simp add: isIreAddr_def)
  moreover have "s = m @ drop (4 + ?n) s" using m by simp
  ultimately show ?thesis by blast
qed

lemma addr_matches_addr:
  "m \<in> set (addr_matches s) \<Longrightarrow> isIreAddr m \<and> (\<exists>u v. s = u @ m @ v)"
proof (induction s rule: addr_matches.induct)
  case (1 s)
  show ?case
  proof (cases s)
    case Nil
    with 1 show ?thesis by (simp add: addr_matches.simps)
  next
    case (Cons c t)
    show ?thesis
    proof (cases "addr_at s")
      case None
      with 1 Cons have "isIreAddr m \<and> (\<exists>u v. t = u @ m @ v)"
        by (simp add: addr_matches.simps [of "c # t"])
      with Cons show ?thesis by (metis append_Cons)
    next
      case (Some a)
      from addr_at_addr [OF Some] obtain v where a: "isIreAddr a" "s = a @ v" by blast
      show ?thesis
      proof (cases "m = a")
        case True
        with a show ?thesis by (metis append_Nil)
      next
        case False
        with 1 Cons Some have "isIreAddr m \<and> (\<exists>u w. drop (length a) s = u @ m @ w)"
          by (simp add: addr_matches.simps [of "c # t"])
        with a show ?thesis by (metis append.assoc append_eq_conv_conj)
      qed
    qed
  qed
qed

lemma foldl_push_new:
  "set (foldl push_new seen ms) = set seen \<union> set ms \<and> (distinct seen \<longrightarrow> distinct (foldl push_new seen ms))"
  by (induction ms arbitrary: seen) (auto simp: push_new_def)

lemma extractAddrs_set: "set (extractAddrs s) = set (addr_matches s)"
  using foldl_push_new [of "[]" "addr_matches s"] by (simp add: extractAddrs_def)

lemma extractAddrs_distinct: "distinct (extractAddrs s)"
  using foldl_push_new [of "[]" "addr_matches s"] by (simp add: extractAddrs_def)

end
