(* ===== verification/Block_Cache.thy ===== *)
theory Block_Cache
  imports Tx_Decode
begin

text \<open>
  The polling window and the block cache that wallet.js and markets.js keep.  Heights are
  JavaScript numbers, hence rationals here.  The cache is a \<open>Map\<close> from heights to decoded
  blocks: an association list in insertion order.  A poll first drops what lies outside
  the window, then loads what is missing.  When a poll fails half way, which of the
  concurrent loads had finished is not determined; \<open>part\<close> says for which heights they had.
\<close>

type_synonym 'r cache = "(rat \<times> 'r) list"

definition window_min :: "nat \<Rightarrow> rat \<Rightarrow> rat" where
  "window_min window height = max 1 (height - of_nat window + 1)"

definition heights_from :: "rat \<Rightarrow> rat \<Rightarrow> rat list" where
  "heights_from lo hi = map (\<lambda>i. lo + of_nat i) [0..<nat (\<lfloor>hi - lo\<rfloor> + 1)]"

definition evict :: "rat \<Rightarrow> rat \<Rightarrow> 'r cache \<Rightarrow> 'r cache" where
  "evict lo hi cache = filter (\<lambda>(h, _). \<not> (h < lo \<or> h > hi)) cache"

definition cached_load :: "(rat \<Rightarrow> 'r option) \<Rightarrow> 'r cache \<Rightarrow> rat \<Rightarrow> 'r option" where
  "cached_load load cache h = (case map_of cache h of Some r \<Rightarrow> Some r | None \<Rightarrow> load h)"

definition load_blocks :: "(rat \<Rightarrow> 'r option) \<Rightarrow> 'r cache \<Rightarrow> rat list \<Rightarrow> 'r list option" where
  "load_blocks load cache hs = the_all (map (cached_load load cache) hs)"

fun fill :: "(rat \<Rightarrow> 'r option) \<Rightarrow> (rat \<Rightarrow> bool) \<Rightarrow> 'r cache \<Rightarrow> rat list \<Rightarrow> 'r cache" where
  "fill load part cache [] = cache"
| "fill load part cache (h # hs) =
     (case map_of cache h of
        Some _ \<Rightarrow> fill load part cache hs
      | None \<Rightarrow>
          (case (if part h then load h else None) of
             Some r \<Rightarrow> fill load part (cache @ [(h, r)]) hs
           | None \<Rightarrow> fill load part cache hs))"

definition block_path :: "rat \<Rightarrow> string" where
  "block_path h = ''/rpc/block?height='' @ num_str (Fin h)"

text \<open>What \<open>for (const x of v)\<close> walks over; it throws on a value that is not iterable.\<close>

fun iterate :: "jval \<Rightarrow> jval list option" where
  "iterate (Some (JArr js)) = Some (map Some js)"
| "iterate (Some (JStr s)) = Some (map (\<lambda>c. Some (JStr [c])) s)"
| "iterate _ = None"

definition or_empty :: "jval \<Rightarrow> jval" where "or_empty v = or_else v (Some (JArr []))"

definition fld_path :: "jval \<Rightarrow> string list \<Rightarrow> jval" where
  "fld_path v ks = foldl fld v ks"

section \<open>Windows\<close>

lemma heights_from_range: "h \<in> set (heights_from lo hi) \<Longrightarrow> lo \<le> h \<and> h \<le> hi"
proof -
  assume "h \<in> set (heights_from lo hi)"
  then obtain i where h: "h = lo + of_nat i" and i: "i < nat (\<lfloor>hi - lo\<rfloor> + 1)"
    by (auto simp: heights_from_def)
  from i have "int i \<le> \<lfloor>hi - lo\<rfloor>" by linarith
  then have "of_int (int i) \<le> hi - lo" by (simp add: le_floor_iff)
  then show ?thesis using h by simp
qed

lemma heights_from_complete:
  assumes "lo + of_nat i \<le> hi"
  shows "lo + of_nat i \<in> set (heights_from lo hi)"
proof -
  from assms have "of_int (int i) \<le> hi - lo" by simp
  then have "int i \<le> \<lfloor>hi - lo\<rfloor>" by (simp only: le_floor_iff)
  then have "i < nat (\<lfloor>hi - lo\<rfloor> + 1)" by linarith
  then show ?thesis by (auto simp: heights_from_def)
qed

lemma heights_from_distinct: "distinct (heights_from lo hi)"
  by (simp add: heights_from_def distinct_map inj_on_def)

lemma window_length:
  assumes "1 \<le> height" and "0 < window"
  shows "length (heights_from (window_min window height) height) \<le> window"
proof -
  have "height - window_min window height \<le> of_nat window - 1"
    by (simp add: window_min_def)
  then have "\<lfloor>height - window_min window height\<rfloor> \<le> int window - 1"
    by (metis floor_diff_one floor_mono floor_of_nat)
  then show ?thesis unfolding heights_from_def by simp
qed

section \<open>The cache\<close>

definition cache_ok :: "(rat \<Rightarrow> 'r \<Rightarrow> bool) \<Rightarrow> 'r cache \<Rightarrow> bool" where
  "cache_ok ok cache \<longleftrightarrow> (\<forall>(h, r) \<in> set cache. ok h r)"

definition cache_in :: "rat \<Rightarrow> rat \<Rightarrow> 'r cache \<Rightarrow> bool" where
  "cache_in lo hi = cache_ok (\<lambda>h r. lo \<le> h \<and> h \<le> hi)"

lemma cache_ok_snoc [simp]: "cache_ok ok (cache @ [(h, r)]) \<longleftrightarrow> cache_ok ok cache \<and> ok h r"
  by (auto simp: cache_ok_def)

lemma evict_in: "cache_in lo hi (evict lo hi cache)"
  by (auto simp: cache_in_def cache_ok_def evict_def)

lemma fill_cache_ok:
  "cache_ok ok cache \<Longrightarrow> (\<And>h r. h \<in> set hs \<Longrightarrow> load h = Some r \<Longrightarrow> ok h r) \<Longrightarrow>
   cache_ok ok (fill load part cache hs)"
proof (induction hs arbitrary: cache)
  case (Cons h hs)
  show ?case
  proof (cases "map_of cache h = None \<and> part h \<and> load h \<noteq> None")
    case True
    then obtain r where r: "map_of cache h = None" "part h" "load h = Some r" by auto
    with Cons.prems have "cache_ok ok (cache @ [(h, r)])" by simp
    then have "cache_ok ok (fill load part (cache @ [(h, r)]) hs)"
      using Cons.prems(2) by (intro Cons.IH) auto
    with r show ?thesis by simp
  next
    case False
    then have "fill load part cache (h # hs) = fill load part cache hs"
      by (auto split: option.splits)
    with Cons show ?thesis by simp
  qed
qed simp

lemma fill_in:
  "cache_in lo hi cache \<Longrightarrow> \<forall>h \<in> set hs. lo \<le> h \<and> h \<le> hi \<Longrightarrow> cache_in lo hi (fill load part cache hs)"
  unfolding cache_in_def by (rule fill_cache_ok) auto

lemma fill_distinct: "distinct (map fst cache) \<Longrightarrow> distinct (map fst (fill load part cache hs))"
  by (induction hs arbitrary: cache) (auto split: option.splits simp: map_of_eq_None_iff)

lemma evict_distinct: "distinct (map fst cache) \<Longrightarrow> distinct (map fst (evict lo hi cache))"
  by (simp add: evict_def distinct_map_filter)

lemma fill_keeps: "map_of cache h = Some r \<Longrightarrow> map_of (fill load part cache hs) h = Some r"
proof (induction hs arbitrary: cache)
  case (Cons k hs)
  then show ?case by (auto split: option.splits simp: map_add_def simp del: map_of_append
      intro!: Cons.IH simp: map_of_append)
qed simp

lemma the_all_Some: "the_all xs = Some ys \<Longrightarrow> xs = map Some ys"
  by (induction xs arbitrary: ys rule: the_all.induct) auto

lemma the_all_nth: "the_all xs = Some ys \<Longrightarrow> x \<in> set xs \<Longrightarrow> \<exists>y \<in> set ys. x = Some y"
  using the_all_Some by fastforce

lemma the_all_rel: "the_all (map f xs) = Some ys \<Longrightarrow> list_all2 (\<lambda>x y. f x = Some y) xs ys"
proof -
  assume "the_all (map f xs) = Some ys"
  then have "map f xs = map Some ys" by (rule the_all_Some)
  then show ?thesis by (induction xs arbitrary: ys) (auto simp: Cons_eq_map_conv)
qed

text \<open>After a full load every height of the window is in the cache.\<close>

lemma fill_complete:
  "load_blocks load cache hs = Some rs \<Longrightarrow> distinct hs \<Longrightarrow>
   h \<in> set hs \<Longrightarrow> map_of (fill load (\<lambda>_. True) cache hs) h \<noteq> None"
proof (induction hs arbitrary: cache rs)
  case (Cons k hs)
  obtain r rs' where r: "cached_load load cache k = Some r"
      and rs': "load_blocks load cache hs = Some rs'"
    using Cons.prems(1) by (cases "cached_load load cache k") (auto simp: load_blocks_def)
  have later: "load_blocks load (cache @ [(k, r)]) hs = Some rs'"
  proof -
    have "map (cached_load load (cache @ [(k, r)])) hs = map (cached_load load cache) hs"
      using Cons.prems(2) by (auto simp: cached_load_def map_add_def split: option.splits)
    with rs' show ?thesis unfolding load_blocks_def by (simp only:)
  qed
  show ?case
  proof (cases "map_of cache k")
    case (Some q)
    show ?thesis
    proof (cases "h = k")
      case True
      then show ?thesis using fill_keeps [of cache k q load "\<lambda>_. True" hs] Some by simp
    next
      case False
      then show ?thesis using Cons.IH [OF rs'] Cons.prems Some by auto
    qed
  next
    case None
    then have l: "load k = Some r" using r by (simp add: cached_load_def)
    show ?thesis
    proof (cases "h = k")
      case True
      have "map_of (cache @ [(k, r)]) k = Some r" using None by (simp add: map_add_def)
      from fill_keeps [OF this] show ?thesis using True None l by simp
    next
      case False
      then show ?thesis using Cons.IH [OF later] Cons.prems None l by auto
    qed
  qed
qed simp

section \<open>The interface of a block loader\<close>

text \<open>
  What the pages rely on: \<open>loadBlock(h)\<close> returns a record that belongs to height \<open>h\<close>.
  Then every record a poll works with, cached or fresh, belongs to its height.
\<close>

locale block_source =
  fixes load :: "rat \<Rightarrow> 'r option"
    and ok :: "rat \<Rightarrow> 'r \<Rightarrow> bool"
  assumes load_ok: "load h = Some r \<Longrightarrow> ok h r"
begin

lemma evict_ok: "cache_ok ok cache \<Longrightarrow> cache_ok ok (evict lo hi cache)"
  by (auto simp: cache_ok_def evict_def)

lemma fill_ok: "cache_ok ok cache \<Longrightarrow> cache_ok ok (fill load part cache hs)"
  by (rule fill_cache_ok) (auto intro: load_ok)

lemma cached_load_ok: "cache_ok ok cache \<Longrightarrow> cached_load load cache h = Some r \<Longrightarrow> ok h r"
  by (auto simp: cached_load_def cache_ok_def intro: load_ok dest: map_of_SomeD split: option.splits)

lemma load_blocks_ok:
  assumes "cache_ok ok cache" and "load_blocks load cache hs = Some rs"
  shows "list_all2 ok hs rs"
proof -
  from assms(2) have "map (cached_load load cache) hs = map Some rs"
    by (simp add: load_blocks_def the_all_Some)
  then show ?thesis
  proof (induction hs arbitrary: rs)
    case Nil
    then show ?case by simp
  next
    case (Cons h hs)
    then obtain r rs' where "rs = r # rs'" by (cases rs) auto
    with Cons cached_load_ok [OF assms(1)] show ?case by auto
  qed
qed

end

end
