(* ===== verification/Markets.thy ===== *)
theory Markets
  imports Memo Block_Cache "HOL-Library.Product_Lexorder" "HOL-Library.Monad_Syntax"
begin

text \<open>
  site/assets/markets.js: the prediction-market board.  \<open>decodeBets\<close> turns a transaction
  into at most one \<open>ire-bet\<close> event, \<open>reconstruct\<close> folds the events of a window into
  markets, \<open>odds\<close> reads a market's percentages, the \<open>*Cli\<close> functions print the commands
  whose memos \<open>decodeBets\<close> reads back, and \<open>markets_tick\<close> is one poll.  SHA-256 of the
  transaction bytes (WebCrypto) is the parameter \<open>sha\<close>; the node is the function \<open>get\<close>
  from request paths to answers, \<open>None\<close> when the request fails.
\<close>

definition BLOCK_WINDOW :: nat where "BLOCK_WINDOW = 80"
definition MEMPOOL_LIMIT :: nat where "MEMPOOL_LIMIT = 50"

section \<open>Events\<close>

record bet_event =
  ev_op :: string
  ev_body :: json
  ev_id :: string
  ev_hash :: string
  ev_msgs :: nat
  ev_height :: "rat option"
  ev_pending :: bool

definition parseAmount :: "jval \<Rightarrow> nat" where
  "parseAmount a =
     (if nullish a then 0
      else let s = trim (to_string a) in
        if s \<noteq> [] \<and> list_all is_digit s then unradix 10 s else 0)"

definition bet_body :: "inscription option \<Rightarrow> json option" where
  "bet_body ins =
     (case ins of
        None \<Rightarrow> None
      | Some i \<Rightarrow>
          (case extractJson (payload i) of
             None \<Rightarrow> None
           | Some body \<Rightarrow>
               if fld (Some body) ''p'' \<noteq> Some (JStr ''ire-bet'') \<or> as_str (fld (Some body) ''op'') = None
               then None else Some body))"

definition decodeBets ::
  "(byte list \<Rightarrow> string) \<Rightarrow> jval \<Rightarrow> rat option \<Rightarrow> bool \<Rightarrow> bet_event list option" where
  "decodeBets sha tx height pending =
     (case bytesFromRpcTx tx of
        None \<Rightarrow> None
      | Some bytes \<Rightarrow>
          (let hash = sha bytes; ascii = asciiFromBytes bytes in
           case bet_body (parseInscription ascii) of
             None \<Rightarrow> Some []
           | Some body \<Rightarrow>
               Some [\<lparr>ev_op = the (as_str (fld (Some body) ''op'')), ev_body = body,
                      ev_id = hash @ ''i'' @ dec 0, ev_hash = hash,
                      ev_msgs = messageCount ascii, ev_height = height, ev_pending = pending\<rparr>]))"

section \<open>Reconstructing the markets\<close>

record analysis =
  an_id :: string
  an_y :: "rat option"
  an_n :: "rat option"
  an_note :: string
  an_pending :: bool
  an_height :: "rat option"

record resolution =
  rs_w :: string
  rs_id :: string
  rs_pending :: bool
  rs_height :: "rat option"

record market =
  mk_id :: string
  mk_q :: string
  mk_o :: "string list"
  mk_height :: "rat option"
  mk_pending :: bool
  mk_yes :: nat
  mk_no :: nat
  mk_pendingYes :: nat
  mk_pendingNo :: nat
  mk_resolve :: "resolution option"
  mk_analyses :: "analysis list"
  mk_buys :: nat
  mk_pendingBuys :: nat

definition str_or :: "jval \<Rightarrow> string" where
  "str_or v = (if truthy v then to_string v else [])"

definition trimmed_str :: "jval \<Rightarrow> string" where
  "trimmed_str v = (case as_str v of Some s \<Rightarrow> trim s | None \<Rightarrow> [])"

definition outcomes :: "jval \<Rightarrow> string list" where
  "outcomes v = (case v of Some (JArr js) \<Rightarrow> map json_str js | _ \<Rightarrow> [''y'', ''n''])"

definition finite_or_null :: "jsnum \<Rightarrow> rat option" where
  "finite_or_null n = (case n of Fin r \<Rightarrow> Some r | _ \<Rightarrow> None)"

definition body_fld :: "bet_event \<Rightarrow> string \<Rightarrow> jval" where
  "body_fld ev k = fld (Some (ev_body ev)) k"

definition new_market :: "bet_event \<Rightarrow> string \<Rightarrow> market" where
  "new_market ev q =
     \<lparr>mk_id = ev_id ev, mk_q = q, mk_o = outcomes (body_fld ev ''o''),
      mk_height = ev_height ev, mk_pending = ev_pending ev,
      mk_yes = 0, mk_no = 0, mk_pendingYes = 0, mk_pendingNo = 0,
      mk_resolve = None, mk_analyses = [], mk_buys = 0, mk_pendingBuys = 0\<rparr>"

type_synonym board = "(string \<times> market) list"

definition open_step :: "bet_event \<Rightarrow> board \<Rightarrow> board" where
  "open_step ev ms =
     (if ev_op ev \<noteq> ''open'' then ms
      else let q = trimmed_str (body_fld ev ''q'') in
        if q = [] then ms else AList.update (ev_id ev) (new_market ev q) ms)"

definition count_buy :: "bet_event \<Rightarrow> market \<Rightarrow> market" where
  "count_buy ev mk =
     mk\<lparr>mk_buys := mk_buys mk + 1,
        mk_pendingBuys := (if ev_pending ev then mk_pendingBuys mk + 1 else mk_pendingBuys mk)\<rparr>"

definition buy_event :: "bet_event \<Rightarrow> market \<Rightarrow> market" where
  "buy_event ev mk =
     (let amt = parseAmount (body_fld ev ''a''); side = to_lower (str_or (body_fld ev ''s'')) in
      if amt = 0 then mk
      else if side = ''y'' \<or> side = ''yes'' then
        count_buy ev (mk\<lparr>mk_yes := mk_yes mk + amt,
          mk_pendingYes := (if ev_pending ev then mk_pendingYes mk + amt else mk_pendingYes mk)\<rparr>)
      else if side = ''n'' \<or> side = ''no'' then
        count_buy ev (mk\<lparr>mk_no := mk_no mk + amt,
          mk_pendingNo := (if ev_pending ev then mk_pendingNo mk + amt else mk_pendingNo mk)\<rparr>)
      else mk)"

definition resolve_event :: "bet_event \<Rightarrow> market \<Rightarrow> market" where
  "resolve_event ev mk =
     (let w = to_lower (str_or (body_fld ev ''w'')) in
      if w = [] then mk
      else mk\<lparr>mk_resolve := Some \<lparr>rs_w = w, rs_id = ev_id ev, rs_pending = ev_pending ev,
                                    rs_height = ev_height ev\<rparr>\<rparr>)"

definition analyze_event :: "bet_event \<Rightarrow> market \<Rightarrow> market" where
  "analyze_event ev mk =
     mk\<lparr>mk_analyses := mk_analyses mk @
        [\<lparr>an_id = ev_id ev,
          an_y = finite_or_null (to_number (body_fld ev ''y'')),
          an_n = finite_or_null (to_number (body_fld ev ''n'')),
          an_note = trimmed_str (body_fld ev ''note''),
          an_pending = ev_pending ev, an_height = ev_height ev\<rparr>]\<rparr>"

definition apply_event :: "bet_event \<Rightarrow> market \<Rightarrow> market" where
  "apply_event ev mk =
     (if ev_op ev = ''buy'' then buy_event ev mk
      else if ev_op ev = ''resolve'' then resolve_event ev mk
      else if ev_op ev = ''analyze'' then analyze_event ev mk
      else mk)"

definition event_step :: "bet_event \<Rightarrow> board \<Rightarrow> board" where
  "event_step ev ms =
     (let mid = trimmed_str (body_fld ev ''m'') in
      if mid = [] then ms
      else case map_of ms mid of
        None \<Rightarrow> ms
      | Some mk \<Rightarrow> AList.update mid (apply_event ev mk) ms)"

text \<open>
  \<open>Array.prototype.sort\<close> is stable; the comparator orders by (pending first, height
  descending), a total preorder, so the sorted array is the stable sort by that key.
\<close>

definition height_or_0 :: "rat option \<Rightarrow> rat" where
  "height_or_0 h = (case h of Some r \<Rightarrow> r | None \<Rightarrow> 0)"

definition recency :: "bool \<Rightarrow> rat option \<Rightarrow> bool \<times> rat" where
  "recency pending h = (\<not> pending, - height_or_0 h)"

definition sort_analyses :: "market \<Rightarrow> market" where
  "sort_analyses mk =
     mk\<lparr>mk_analyses := sort_key (\<lambda>a. recency (an_pending a) (an_height a)) (mk_analyses mk)\<rparr>"

definition board_of :: "bet_event list \<Rightarrow> board" where
  "board_of events = fold event_step events (fold open_step events [])"

definition reconstruct :: "bet_event list \<Rightarrow> market list" where
  "reconstruct events =
     sort_key (\<lambda>mk. recency (mk_pending mk) (mk_height mk))
       (map (sort_analyses \<circ> snd) (board_of events))"

section \<open>Odds\<close>

record odds_view =
  od_yes :: int
  od_no :: int
  od_known :: bool
  od_vol :: nat

definition odds :: "market \<Rightarrow> odds_view" where
  "odds mk =
     (let total = mk_yes mk + mk_no mk in
      if total = 0 then \<lparr>od_yes = 50, od_no = 50, od_known = False, od_vol = 0\<rparr>
      else let yesPct = int (mk_yes mk * 100 div total) in
        \<lparr>od_yes = yesPct, od_no = 100 - yesPct, od_known = True, od_vol = total\<rparr>)"

section \<open>Commands\<close>

definition memoFor :: "json \<Rightarrow> string" where
  "memoFor obj = ''IREINSCRIBE1 application/json '' @ stringify obj"

definition cliSend :: "string \<Rightarrow> string \<Rightarrow> string" where
  "cliSend amount memo = join newline
     [''ired tx bank send <from> <from> '' @ amount @ ''uire '' @ [bsl],
      ''  --chain-id ire-1 '' @ [bsl],
      ''  --from <key> '' @ [bsl],
      ''  --gas-prices 0.001uire '' @ [bsl],
      ''  --memo '' @ [CHR 0x27] @ memo @ [CHR 0x27] @ '' '' @ [bsl],
      ''  --home '' @ [dq] @ ''$HOME/.ire'' @ [dq] @ '' '' @ [bsl],
      ''  --yes'']"

definition open_obj :: "string \<Rightarrow> json" where
  "open_obj question = JObj [(''p'', JStr ''ire-bet''), (''op'', JStr ''open''),
     (''q'', JStr (or_str question ''ETF approved 2026?'')), (''o'', JArr [JStr ''y'', JStr ''n''])]"

definition buy_obj :: "string \<Rightarrow> string \<Rightarrow> json" where
  "buy_obj mid side = JObj [(''p'', JStr ''ire-bet''), (''op'', JStr ''buy''),
     (''m'', JStr mid), (''s'', JStr side), (''a'', JStr ''1000000'')]"

definition resolve_obj :: "string \<Rightarrow> string \<Rightarrow> json" where
  "resolve_obj mid w = JObj [(''p'', JStr ''ire-bet''), (''op'', JStr ''resolve''),
     (''m'', JStr mid), (''w'', JStr w)]"

definition analyze_obj :: "string \<Rightarrow> json" where
  "analyze_obj mid = JObj [(''p'', JStr ''ire-bet''), (''op'', JStr ''analyze''),
     (''m'', JStr mid), (''y'', JNum (Fin 65)), (''n'', JNum (Fin 35)), (''note'', JStr ''brief'')]"

definition openCli :: "string \<Rightarrow> string" where
  "openCli question = cliSend ''1'' (memoFor (open_obj question))"

definition buyCli :: "string \<Rightarrow> string \<Rightarrow> string" where
  "buyCli mid side = cliSend ''1000000'' (memoFor (buy_obj mid side))"

definition resolveCli :: "string \<Rightarrow> string \<Rightarrow> string" where
  "resolveCli mid w = cliSend ''1'' (memoFor (resolve_obj mid w))"

definition analyzeCli :: "string \<Rightarrow> string" where
  "analyzeCli mid = cliSend ''1'' (memoFor (analyze_obj mid))"

section \<open>One poll\<close>

record market_block =
  mb_height :: rat
  mb_events :: "bet_event list"

definition decode_all ::
  "(byte list \<Rightarrow> string) \<Rightarrow> jval list \<Rightarrow> rat option \<Rightarrow> bool \<Rightarrow> bet_event list option" where
  "decode_all sha txs height pending =
     map_option concat (the_all (map (\<lambda>tx. decodeBets sha tx height pending) txs))"

definition market_load ::
  "(string \<Rightarrow> json option) \<Rightarrow> (byte list \<Rightarrow> string) \<Rightarrow> rat \<Rightarrow> market_block option" where
  "market_load get sha h = do {
     data \<leftarrow> get (block_path h);
     result \<leftarrow> dot (Some data) ''result'';
     txs \<leftarrow> iterate (or_empty (fld_path result [''block'', ''data'', ''txs'']));
     events \<leftarrow> decode_all sha txs (Some h) False;
     Some \<lparr>mb_height = h, mb_events = events\<rparr> }"

record market_state =
  ms_online :: bool
  ms_height :: "rat option"
  ms_catchingUp :: bool
  ms_markets :: "market list"
  ms_scanned :: nat
  ms_pendingCount :: nat
  ms_windowMin :: "rat option"
  ms_cache :: "market_block cache"

definition status_height :: "jval \<Rightarrow> rat option" where
  "status_height v = (case to_number v of Fin r \<Rightarrow> if r < 1 then None else Some r | _ \<Rightarrow> None)"

text \<open>\<open>Number(m.header && m.header.height)\<close>, kept when finite and inside the window.\<close>

definition meta_height :: "jval \<Rightarrow> jsnum option" where
  "meta_height m = map_option (\<lambda>hd. to_number (and_then hd (fld hd ''height''))) (dot m ''header'')"

definition meta_heights :: "rat \<Rightarrow> rat \<Rightarrow> jval \<Rightarrow> rat list option" where
  "meta_heights lo hi v =
     (case or_empty v of
        Some (JArr ms) \<Rightarrow>
          map_option (\<lambda>ns. filter (\<lambda>h. lo \<le> h \<and> h \<le> hi)
              (concat (map (\<lambda>n. case n of Fin r \<Rightarrow> [r] | _ \<Rightarrow> []) ns)))
            (the_all (map (meta_height \<circ> Some) ms))
      | _ \<Rightarrow> None)"

record poll_plan =
  pp_height :: rat
  pp_catchingUp :: bool
  pp_min :: rat
  pp_heights :: "rat list"
  pp_mempool :: jval

definition chain_path :: "rat \<Rightarrow> rat \<Rightarrow> string" where
  "chain_path lo hi = ''/rpc/blockchain?minHeight='' @ num_str (Fin lo) @ ''&maxHeight='' @ num_str (Fin hi)"

definition mempool_path :: "nat \<Rightarrow> string" where
  "mempool_path limit = ''/rpc/unconfirmed_txs?limit='' @ dec limit"

definition market_plan :: "(string \<Rightarrow> json option) \<Rightarrow> poll_plan option" where
  "market_plan get = do {
     status \<leftarrow> get ''/rpc/status'';
     result \<leftarrow> dot (Some status) ''result'';
     sync \<leftarrow> dot result ''sync_info'';
     latest \<leftarrow> dot sync ''latest_block_height'';
     height \<leftarrow> status_height latest;
     let minH = window_min BLOCK_WINDOW height;
     chain \<leftarrow> get (chain_path minH height);
     mempool \<leftarrow> get (mempool_path MEMPOOL_LIMIT);
     chainResult \<leftarrow> dot (Some chain) ''result'';
     metas \<leftarrow> dot chainResult ''block_metas'';
     hs \<leftarrow> meta_heights minH height metas;
     let heights = foldl push_new [] hs;
     Some \<lparr>pp_height = height, pp_catchingUp = truthy (fld sync ''catching_up''), pp_min = minH,
           pp_heights = (if heights = [] then heights_from minH height else heights),
           pp_mempool = Some mempool\<rparr> }"

definition market_events ::
  "(string \<Rightarrow> json option) \<Rightarrow> (byte list \<Rightarrow> string) \<Rightarrow> market_block cache \<Rightarrow> poll_plan \<Rightarrow>
   (bet_event list \<times> bet_event list) option" where
  "market_events get sha cache p = do {
     blocks \<leftarrow> load_blocks (market_load get sha) cache (pp_heights p);
     result \<leftarrow> dot (pp_mempool p) ''result'';
     txs \<leftarrow> iterate (or_empty (fld result ''txs''));
     pend \<leftarrow> decode_all sha txs None True;
     Some (concat (map mb_events blocks), pend) }"

definition markets_offline :: "market_block cache \<Rightarrow> market_state \<Rightarrow> market_state" where
  "markets_offline cache st = st\<lparr>ms_online := False, ms_markets := [], ms_cache := cache\<rparr>"

definition markets_tick ::
  "(string \<Rightarrow> json option) \<Rightarrow> (byte list \<Rightarrow> string) \<Rightarrow> (rat \<Rightarrow> bool) \<Rightarrow> market_state \<Rightarrow> market_state" where
  "markets_tick get sha part st =
     (case market_plan get of
        None \<Rightarrow> markets_offline (ms_cache st) st
      | Some p \<Rightarrow>
          (let cache = evict (pp_min p) (pp_height p) (ms_cache st) in
           case market_events get sha cache p of
             None \<Rightarrow> markets_offline (fill (market_load get sha) part cache (pp_heights p)) st
           | Some (chain, pend) \<Rightarrow>
               \<lparr>ms_online = True, ms_height = Some (pp_height p), ms_catchingUp = pp_catchingUp p,
                ms_markets = reconstruct (chain @ pend), ms_scanned = length (pp_heights p),
                ms_pendingCount = length pend, ms_windowMin = Some (pp_min p),
                ms_cache = fill (market_load get sha) (\<lambda>_. True) cache (pp_heights p)\<rparr>))"

end
