(* ===== verification/Markets_Board.thy ===== *)
theory Markets_Board
  imports Markets "HOL-Library.Multiset"
begin

text \<open>
  What the board of markets.js shows.  The abstract specification of a market is a tally
  over the whole event list (\<open>tally\<close>, \<open>last_resolve\<close>, \<open>opened\<close>), with no state and no
  order of evaluation; the lemmas below show that the two loops of \<open>reconstruct\<close> compute
  it, that the board holds each market once, sorted, and that the odds are percentages.
\<close>

section \<open>The specification\<close>

definition opens :: "bet_event \<Rightarrow> bool" where
  "opens ev \<longleftrightarrow> ev_op ev = ''open'' \<and> trimmed_str (body_fld ev ''q'') \<noteq> []"

definition addresses :: "string \<Rightarrow> bet_event \<Rightarrow> bool" where
  "addresses mid ev \<longleftrightarrow> mid \<noteq> [] \<and> trimmed_str (body_fld ev ''m'') = mid"

definition side_of :: "bet_event \<Rightarrow> string" where
  "side_of ev = to_lower (str_or (body_fld ev ''s''))"

text \<open>The pledge an event makes to side \<open>sd\<close> of market \<open>mid\<close>.\<close>

definition pledge :: "string set \<Rightarrow> string \<Rightarrow> bet_event \<Rightarrow> nat" where
  "pledge sd mid ev =
     (if ev_op ev = ''buy'' \<and> addresses mid ev \<and> side_of ev \<in> sd
      then parseAmount (body_fld ev ''a'') else 0)"

definition yes_side :: "string set" where "yes_side = {''y'', ''yes''}"
definition no_side :: "string set" where "no_side = {''n'', ''no''}"

definition tally :: "(bet_event \<Rightarrow> nat) \<Rightarrow> bet_event list \<Rightarrow> nat" where
  "tally f evs = sum_list (map f evs)"

definition is_buy :: "string \<Rightarrow> bet_event \<Rightarrow> bool" where
  "is_buy mid ev \<longleftrightarrow> pledge (yes_side \<union> no_side) mid ev \<noteq> 0"

definition is_resolve :: "string \<Rightarrow> bet_event \<Rightarrow> bool" where
  "is_resolve mid ev \<longleftrightarrow> ev_op ev = ''resolve'' \<and> addresses mid ev \<and>
     to_lower (str_or (body_fld ev ''w'')) \<noteq> []"

definition resolution_of :: "bet_event \<Rightarrow> resolution" where
  "resolution_of ev = \<lparr>rs_w = to_lower (str_or (body_fld ev ''w'')), rs_id = ev_id ev,
     rs_pending = ev_pending ev, rs_height = ev_height ev\<rparr>"

definition last_resolve :: "string \<Rightarrow> bet_event list \<Rightarrow> resolution option" where
  "last_resolve mid evs =
     (case filter (is_resolve mid) evs of [] \<Rightarrow> None | rs \<Rightarrow> Some (resolution_of (last rs)))"

section \<open>One event\<close>

lemmas market_steps = apply_event_def buy_event_def resolve_event_def analyze_event_def
  count_buy_def Let_def

lemma apply_event_fixed:
  "mk_id (apply_event ev mk) = mk_id mk" "mk_q (apply_event ev mk) = mk_q mk"
  "mk_o (apply_event ev mk) = mk_o mk" "mk_height (apply_event ev mk) = mk_height mk"
  "mk_pending (apply_event ev mk) = mk_pending mk"
  by (simp_all add: market_steps)

lemma side_cases: "s \<in> yes_side \<longleftrightarrow> s = ''y'' \<or> s = ''yes''" "s \<in> no_side \<longleftrightarrow> s = ''n'' \<or> s = ''no''"
  by (auto simp: yes_side_def no_side_def)

lemma sides_disjoint: "s \<in> yes_side \<Longrightarrow> s \<notin> no_side"
  by (auto simp: yes_side_def no_side_def)

lemma apply_event_tally:
  assumes "addresses mid ev"
  shows "mk_yes (apply_event ev mk) = mk_yes mk + pledge yes_side mid ev"
    "mk_no (apply_event ev mk) = mk_no mk + pledge no_side mid ev"
    "mk_pendingYes (apply_event ev mk) = mk_pendingYes mk + (if ev_pending ev then pledge yes_side mid ev else 0)"
    "mk_pendingNo (apply_event ev mk) = mk_pendingNo mk + (if ev_pending ev then pledge no_side mid ev else 0)"
    "mk_buys (apply_event ev mk) = mk_buys mk + (if is_buy mid ev then 1 else 0)"
    "mk_pendingBuys (apply_event ev mk) = mk_pendingBuys mk + (if is_buy mid ev \<and> ev_pending ev then 1 else 0)"
  using assms
  by (simp_all add: market_steps pledge_def is_buy_def side_cases side_of_def)

lemma apply_event_resolve:
  assumes "addresses mid ev"
  shows "mk_resolve (apply_event ev mk) =
    (if is_resolve mid ev then Some (resolution_of ev) else mk_resolve mk)"
  using assms by (simp add: market_steps is_resolve_def resolution_of_def)

text \<open>An event that names another market contributes nothing.\<close>

lemma not_addressed:
  assumes "\<not> addresses mid ev"
  shows "pledge sd mid ev = 0" "\<not> is_buy mid ev" "\<not> is_resolve mid ev"
  using assms by (simp_all add: pledge_def is_buy_def is_resolve_def)

section \<open>The two loops\<close>

lemma event_step_dom: "map fst (event_step ev ms) = map fst ms"
proof -
  have "k \<in> fst ` set ms" if "map_of ms k = Some v" for k v
    using that map_of_SomeD by force
  then show ?thesis
    by (auto simp: event_step_def Let_def update_keys split: option.splits)
qed

lemma event_step_lookup:
  "map_of (event_step ev ms) mid =
     (if addresses mid ev then map_option (apply_event ev) (map_of ms mid) else map_of ms mid)"
  by (auto simp: event_step_def Let_def addresses_def update_conv' split: option.splits)

lemma fold_event_dom: "map fst (fold event_step evs ms) = map fst ms"
  by (induction evs arbitrary: ms) (simp_all add: event_step_dom)

lemma fold_event_lookup_None: "map_of (fold event_step evs ms) mid = None \<longleftrightarrow> map_of ms mid = None"
proof -
  have "map_of xs mid = None \<longleftrightarrow> mid \<notin> set (map fst xs)" for xs :: board
    by (simp add: map_of_eq_None_iff)
  then show ?thesis by (simp add: fold_event_dom del: set_map)
qed

text \<open>The effect of the second loop on one market: the events that address it, in order.\<close>

lemma fold_event_lookup:
  "map_of (fold event_step evs ms) mid =
     map_option (fold apply_event (filter (addresses mid) evs)) (map_of ms mid)"
  by (induction evs arbitrary: ms)
    (auto simp: event_step_lookup option.map_comp comp_def option.map_id)

lemma open_step_distinct: "distinct (map fst ms) \<Longrightarrow> distinct (map fst (open_step ev ms))"
  by (simp add: open_step_def Let_def distinct_update)

lemma open_step_keys: "fst ` set (open_step ev ms) = fst ` set ms \<union> (if opens ev then {ev_id ev} else {})"
proof -
  have "fst ` set (AList.update k v ms) = insert k (fst ` set ms)" for k v
  proof -
    have "set (map fst (AList.update k v ms)) = insert k (set (map fst ms))"
      by (auto simp: update_keys simp del: set_map)
    then show ?thesis by simp
  qed
  then show ?thesis by (auto simp: open_step_def opens_def Let_def)
qed

text \<open>A market of the board was opened by an event and starts empty.\<close>

definition fresh_from :: "bet_event list \<Rightarrow> string \<Rightarrow> market \<Rightarrow> bool" where
  "fresh_from evs mid mk \<longleftrightarrow>
     (\<exists>ev \<in> set evs. opens ev \<and> ev_id ev = mid \<and> mk = new_market ev (trimmed_str (body_fld ev ''q'')))"

lemma fold_open:
  assumes "distinct (map fst ms)"
  shows "distinct (map fst (fold open_step evs ms))"
    "fst ` set (fold open_step evs ms) = fst ` set ms \<union> ev_id ` {ev \<in> set evs. opens ev}"
proof -
  have "distinct (map fst (fold open_step evs ms)) \<and>
    fst ` set (fold open_step evs ms) = fst ` set ms \<union> ev_id ` {ev \<in> set evs. opens ev}"
    using assms
  proof (induction evs arbitrary: ms)
    case (Cons ev evs)
    from Cons.IH [OF open_step_distinct [OF Cons.prems, of ev]] show ?case
      by (auto simp: open_step_keys)
  qed simp
  then show "distinct (map fst (fold open_step evs ms))"
    "fst ` set (fold open_step evs ms) = fst ` set ms \<union> ev_id ` {ev \<in> set evs. opens ev}" by auto
qed

lemma open_step_lookup:
  "map_of (open_step ev ms) mid =
     (if opens ev \<and> ev_id ev = mid then Some (new_market ev (trimmed_str (body_fld ev ''q'')))
      else map_of ms mid)"
  by (auto simp: open_step_def opens_def Let_def update_conv')

lemma fold_open_lookup:
  "map_of (fold open_step evs ms) mid =
     (case filter (\<lambda>ev. opens ev \<and> ev_id ev = mid) evs of
        [] \<Rightarrow> map_of ms mid
      | os \<Rightarrow> Some (new_market (last os) (trimmed_str (body_fld (last os) ''q''))))"
  by (induction evs arbitrary: ms) (auto simp: open_step_lookup split: list.splits)

lemma board_distinct: "distinct (map fst (board_of evs))"
  by (simp add: board_of_def fold_event_dom fold_open)

lemma board_keys: "fst ` set (board_of evs) = ev_id ` {ev \<in> set evs. opens ev}"
proof -
  have "set (map fst (board_of evs)) = set (map fst (fold open_step evs []))"
    by (simp only: board_of_def fold_event_dom)
  then show ?thesis by (simp add: fold_open)
qed

text \<open>Each entry of the board, in closed form.\<close>

lemma board_entry:
  assumes "(mid, mk) \<in> set (board_of evs)"
  obtains ev where "ev \<in> set evs" "opens ev" "ev_id ev = mid"
    "mk = fold apply_event (filter (addresses mid) evs) (new_market ev (trimmed_str (body_fld ev ''q'')))"
proof -
  let ?os = "filter (\<lambda>ev. opens ev \<and> ev_id ev = mid) evs"
  from assms have "map_of (board_of evs) mid = Some mk"
    using board_distinct by simp
  then have *: "map_option (fold apply_event (filter (addresses mid) evs))
      (map_of (fold open_step evs []) mid) = Some mk"
    by (simp add: board_of_def fold_event_lookup)
  then have ne: "?os \<noteq> []" by (auto simp: fold_open_lookup split: list.splits)
  then have "last ?os \<in> set ?os" by (rule last_in_set)
  then have last: "last ?os \<in> set evs \<and> opens (last ?os) \<and> ev_id (last ?os) = mid" by auto
  from ne * have "mk = fold apply_event (filter (addresses mid) evs)
      (new_market (last ?os) (trimmed_str (body_fld (last ?os) ''q'')))"
    by (auto simp: fold_open_lookup split: list.splits)
  with last that show thesis by blast
qed

lemma fold_apply_fixed:
  "mk_id (fold apply_event evs mk) = mk_id mk" "mk_q (fold apply_event evs mk) = mk_q mk"
  "mk_height (fold apply_event evs mk) = mk_height mk"
  "mk_pending (fold apply_event evs mk) = mk_pending mk"
  by (induction evs arbitrary: mk) (simp_all add: apply_event_fixed)

lemma board_id: "(mid, mk) \<in> set (board_of evs) \<Longrightarrow> mk_id mk = mid"
  by (erule board_entry) (simp add: fold_apply_fixed new_market_def)

section \<open>The tally of a market\<close>

lemma tally_Nil [simp]: "tally f [] = 0" by (simp add: tally_def)
lemma tally_Cons [simp]: "tally f (ev # evs) = f ev + tally f evs" by (simp add: tally_def)

definition tallies :: "string \<Rightarrow> bet_event list \<Rightarrow> market \<Rightarrow> market \<Rightarrow> bool" where
  "tallies mid evs mk mk' \<longleftrightarrow>
     mk_yes mk' = mk_yes mk + tally (pledge yes_side mid) evs \<and>
     mk_no mk' = mk_no mk + tally (pledge no_side mid) evs \<and>
     mk_pendingYes mk' = mk_pendingYes mk + tally (pledge yes_side mid) (filter ev_pending evs) \<and>
     mk_pendingNo mk' = mk_pendingNo mk + tally (pledge no_side mid) (filter ev_pending evs) \<and>
     mk_buys mk' = mk_buys mk + length (filter (is_buy mid) evs) \<and>
     mk_pendingBuys mk' = mk_pendingBuys mk + length (filter (is_buy mid) (filter ev_pending evs))"

lemma fold_apply_tallies:
  "tallies mid evs mk (fold apply_event (filter (addresses mid) evs) mk)"
proof (induction evs arbitrary: mk)
  case Nil
  then show ?case by (simp add: tallies_def)
next
  case (Cons ev evs)
  show ?case
  proof (cases "addresses mid ev")
    case True
    with Cons [of "apply_event ev mk"] show ?thesis by (simp add: tallies_def apply_event_tally)
  next
    case False
    with Cons [of mk] show ?thesis by (simp add: tallies_def not_addressed)
  qed
qed

lemma last_resolve_Cons:
  "last_resolve mid (ev # evs) =
     (case last_resolve mid evs of
        Some r \<Rightarrow> Some r
      | None \<Rightarrow> if is_resolve mid ev then Some (resolution_of ev) else None)"
  by (auto simp: last_resolve_def split: list.splits)

lemma fold_apply_resolve:
  "mk_resolve (fold apply_event (filter (addresses mid) evs) mk) =
     (case last_resolve mid evs of Some r \<Rightarrow> Some r | None \<Rightarrow> mk_resolve mk)"
proof (induction evs arbitrary: mk)
  case Nil
  then show ?case by (simp add: last_resolve_def)
next
  case (Cons ev evs)
  then show ?case
    by (cases "addresses mid ev")
      (auto simp: last_resolve_Cons apply_event_resolve not_addressed split: option.splits)
qed

lemma reconstruct_entry:
  assumes "mk \<in> set (reconstruct evs)"
  obtains mk' where "(mk_id mk', mk') \<in> set (board_of evs)" "mk = sort_analyses mk'"
  using assms board_id that by (fastforce simp: reconstruct_def)

lemma sort_analyses_fixed [simp]:
  "mk_id (sort_analyses mk) = mk_id mk" "mk_yes (sort_analyses mk) = mk_yes mk"
  "mk_no (sort_analyses mk) = mk_no mk" "mk_pendingYes (sort_analyses mk) = mk_pendingYes mk"
  "mk_pendingNo (sort_analyses mk) = mk_pendingNo mk" "mk_buys (sort_analyses mk) = mk_buys mk"
  "mk_pendingBuys (sort_analyses mk) = mk_pendingBuys mk" "mk_resolve (sort_analyses mk) = mk_resolve mk"
  "mk_pending (sort_analyses mk) = mk_pending mk" "mk_height (sort_analyses mk) = mk_height mk"
  "mk_q (sort_analyses mk) = mk_q mk"
  by (simp_all add: sort_analyses_def)

lemma map_ids: "map mk_id (map (sort_analyses \<circ> snd) (board_of evs)) = map fst (board_of evs)"
  using board_id by auto

lemma reconstruct_mset_ids: "mset (map mk_id (reconstruct evs)) = mset (map fst (board_of evs))"
  unfolding map_ids [symmetric] by (simp only: reconstruct_def mset_map mset_sort)

lemma reconstruct_ids: "mk_id ` set (reconstruct evs) = ev_id ` {ev \<in> set evs. opens ev}"
proof -
  have "set (map mk_id (reconstruct evs)) = set (map fst (board_of evs))"
    using reconstruct_mset_ids by (rule mset_eq_setD)
  then show ?thesis by (simp add: board_keys)
qed

lemma reconstruct_distinct: "distinct (map mk_id (reconstruct evs))"
  using board_distinct reconstruct_mset_ids mset_eq_imp_distinct_iff by blast

section \<open>Properties of the board\<close>

text \<open>
  Property C20: the amounts a market shows are exactly the tally of the valid buy pledges
  that name it, over the whole event list and in whatever order the events come, pending
  ones also counted apart; pledges of zero, of an unknown side or to another market count
  nowhere.
\<close>
theorem reconstruct_tally:
  assumes "mk \<in> set (reconstruct evs)"
  shows "mk_yes mk = tally (pledge yes_side (mk_id mk)) evs \<and>
    mk_no mk = tally (pledge no_side (mk_id mk)) evs \<and>
    mk_pendingYes mk = tally (pledge yes_side (mk_id mk)) (filter ev_pending evs) \<and>
    mk_pendingNo mk = tally (pledge no_side (mk_id mk)) (filter ev_pending evs) \<and>
    mk_buys mk = length (filter (is_buy (mk_id mk)) evs) \<and>
    mk_pendingBuys mk = length (filter (is_buy (mk_id mk)) (filter ev_pending evs))"
proof -
  obtain mk' where mk': "(mk_id mk', mk') \<in> set (board_of evs)" "mk = sort_analyses mk'"
    using assms by (rule reconstruct_entry)
  from mk'(1) obtain ev where "mk' = fold apply_event (filter (addresses (mk_id mk')) evs)
      (new_market ev (trimmed_str (body_fld ev ''q'')))"
    by (rule board_entry) blast
  with fold_apply_tallies [of "mk_id mk'" evs "new_market ev (trimmed_str (body_fld ev ''q''))"] mk'(2)
  have "tallies (mk_id mk) evs (new_market ev (trimmed_str (body_fld ev ''q''))) mk"
    by (simp add: tallies_def)
  then show ?thesis by (simp add: tallies_def new_market_def)
qed

definition demo_buy :: bet_event where
  "demo_buy = \<lparr>ev_op = ''buy'', ev_body = buy_obj ''ab'' ''Y'', ev_id = ''cd'', ev_hash = [],
     ev_msgs = 1, ev_height = None, ev_pending = True\<rparr>"

definition demo_open :: bet_event where
  "demo_open = \<lparr>ev_op = ''open'', ev_body = open_obj ''Rain?'', ev_id = ''ab'', ev_hash = [],
     ev_msgs = 1, ev_height = Some 7, ev_pending = False\<rparr>"

lemma reconstruct_tally_witness:
  "\<exists>mk \<in> set (reconstruct [demo_buy, demo_open]). mk_id mk = ''ab'' \<and> mk_yes mk = 1000000"
proof -
  have "opens demo_open" "ev_id demo_open = ''ab''" by code_simp+
  then have "''ab'' \<in> mk_id ` set (reconstruct [demo_buy, demo_open])"
    by (auto simp: reconstruct_ids intro!: rev_image_eqI [of demo_open])
  then obtain mk where mk: "mk \<in> set (reconstruct [demo_buy, demo_open])" "mk_id mk = ''ab''" by auto
  from reconstruct_tally [OF mk(1)] mk(2)
  have "mk_yes mk = tally (pledge yes_side ''ab'') [demo_buy, demo_open]" by simp
  also have "\<dots> = 1000000" by code_simp
  finally show ?thesis using mk by blast
qed

text \<open>
  Property C28: every market of the board was opened by exactly the events with a non-blank
  question, no market is shown twice, and its resolution is the one of the last valid
  resolve event that names it.
\<close>
theorem reconstruct_markets:
  "mk_id ` set (reconstruct evs) = ev_id ` {ev \<in> set evs. opens ev} \<and>
   distinct (map mk_id (reconstruct evs)) \<and>
   map mk_resolve (reconstruct evs) = map (\<lambda>mk. last_resolve (mk_id mk) evs) (reconstruct evs)"
proof (intro conjI map_cong [OF refl])
  show "mk_id ` set (reconstruct evs) = ev_id ` {ev \<in> set evs. opens ev}" by (rule reconstruct_ids)
  show "distinct (map mk_id (reconstruct evs))" by (rule reconstruct_distinct)
next
  fix mk assume "mk \<in> set (reconstruct evs)"
  then obtain mk' where mk': "(mk_id mk', mk') \<in> set (board_of evs)" "mk = sort_analyses mk'"
    by (rule reconstruct_entry)
  from mk'(1) obtain ev where "mk' = fold apply_event (filter (addresses (mk_id mk')) evs)
      (new_market ev (trimmed_str (body_fld ev ''q'')))"
    by (rule board_entry) blast
  then have "mk_resolve mk' = last_resolve (mk_id mk') evs"
    by (metis fold_apply_resolve new_market_def market.select_convs(10) option.case_eq_if option.collapse)
  with mk'(2) show "mk_resolve mk = last_resolve (mk_id mk) evs" by simp
qed

text \<open>
  The board lists the mempool markets first and then the markets by
  descending height, and inside every market its analyses in the same order.
\<close>
theorem reconstruct_sorted:
  "sorted (map (\<lambda>mk. recency (mk_pending mk) (mk_height mk)) (reconstruct evs)) \<and>
   list_all (\<lambda>mk. sorted (map (\<lambda>a. recency (an_pending a) (an_height a)) (mk_analyses mk)))
     (reconstruct evs)"
  by (auto simp: reconstruct_def sort_analyses_def list_all_iff)

text \<open>
  The odds of a market are whole percentages that add up to 100; with at least
  one pledge \<open>yes\<close> is the exact share rounded down, and without one it is a 50/50
  placeholder marked as not known.
\<close>
theorem odds_percentages:
  "od_yes (odds mk) + od_no (odds mk) = 100 \<and> 0 \<le> od_yes (odds mk) \<and> 0 \<le> od_no (odds mk) \<and>
   od_vol (odds mk) = mk_yes mk + mk_no mk \<and>
   (od_known (odds mk) \<longleftrightarrow> 0 < mk_yes mk + mk_no mk) \<and>
   od_yes (odds mk) = (if od_known (odds mk)
      then \<lfloor>100 * of_nat (mk_yes mk) / (of_nat (mk_yes mk + mk_no mk) :: rat)\<rfloor> else 50)"
proof (cases "mk_yes mk + mk_no mk = 0")
  case True
  then show ?thesis by (simp add: odds_def)
next
  case False
  let ?t = "mk_yes mk + mk_no mk"
  have "mk_yes mk * 100 div ?t \<le> ?t * 100 div ?t" by (intro div_le_mono) simp
  moreover have "?t * 100 div ?t = 100" using False by (rule nonzero_mult_div_cancel_left)
  ultimately have le: "mk_yes mk * 100 div ?t \<le> 100" by (simp only:)
  have "\<lfloor>of_nat (mk_yes mk * 100) / (of_nat ?t :: rat)\<rfloor> = int (mk_yes mk * 100 div ?t)"
    by (rule floor_divide_of_nat_eq)
  moreover have "(of_nat (mk_yes mk * 100) :: rat) = 100 * of_nat (mk_yes mk)" by simp
  ultimately have "\<lfloor>100 * of_nat (mk_yes mk) / (of_nat ?t :: rat)\<rfloor> = int (mk_yes mk * 100 div ?t)"
    by (simp only:)
  with False le show ?thesis by (auto simp: odds_def Let_def)
qed

end

