(* ===== verification/Markets_Feed.thy ===== *)
theory Markets_Feed
  imports Markets_Board
begin

text \<open>
  From the node to the board of markets.js: the memo that a printed command carries is the
  event that \<open>decodeBets\<close> reads back, and the polling loop keeps its cache and its board
  inside the window it announces.
\<close>

section \<open>Memos\<close>

lemma memoFor_memo_text: "memoFor = memo_text"
  by (simp add: fun_eq_iff memoFor_def memo_text_def MEMO_PREFIX_def)

definition bet_fields :: "string \<Rightarrow> json \<Rightarrow> bool" where
  "bet_fields op j \<longleftrightarrow>
     fld (Some j) ''p'' = Some (JStr ''ire-bet'') \<and> fld (Some j) ''op'' = Some (JStr op)"

definition memo_event ::
  "(byte list \<Rightarrow> string) \<Rightarrow> byte list \<Rightarrow> string \<Rightarrow> json \<Rightarrow> rat option \<Rightarrow> bool \<Rightarrow> bet_event" where
  "memo_event sha bytes op j height pending =
     \<lparr>ev_op = op, ev_body = j, ev_id = sha bytes @ ''i0'', ev_hash = sha bytes,
      ev_msgs = messageCount (asciiFromBytes bytes), ev_height = height, ev_pending = pending\<rparr>"

lemma carries_inscription:
  assumes "plain (JObj kvs)" "json_ascii (JObj kvs)" "carries bytes (memo_text (JObj kvs))"
  shows "parseInscription (asciiFromBytes bytes) =
    Some \<lparr>mediaType = ''application/json'', payload = stringify (JObj kvs), raw = memo_text (JObj kvs)\<rparr>"
proof -
  obtain t where t: "memo_text (JObj kvs) = INSCRIBE @ t"
    by (simp add: memo_text_def MEMO_PREFIX_def INSCRIBE_def)
  obtain i r where "index_of INSCRIBE (asciiFromBytes bytes) = Some i"
    "drop i (asciiFromBytes bytes) = memo_text (JObj kvs) @ r" "r = [] \<or> hd r = nul"
    using assms(3) memo_printable [OF assms(1,2)] t by (rule carries_at)
  then show ?thesis by (rule parseInscription_memo [OF assms(1,2)])
qed

lemma decode_memo:
  assumes "bytesFromRpcTx tx = Some bytes" "carries bytes (memo_text (JObj kvs))"
    "plain (JObj kvs)" "json_ascii (JObj kvs)" "bet_fields op (JObj kvs)"
  shows "decodeBets sha tx height pending = Some [memo_event sha bytes op (JObj kvs) height pending]"
proof -
  have "extractJson (stringify (JObj kvs)) = Some (JObj kvs)"
    using extractJson_print [of kvs "[]" "[]"] assms(3) by (simp del: stringify.simps)
  with assms show ?thesis
    by (simp add: decodeBets_def carries_inscription bet_body_def bet_fields_def Let_def
        memo_event_def radix_def digs.simps del: stringify.simps fld.simps)
qed

lemma decode_obj:
  assumes "bytesFromRpcTx tx = Some bytes" "carries bytes (memoFor obj)"
    "plain obj" "json_ascii obj" "bet_fields op obj"
  shows "decodeBets sha tx height pending = Some [memo_event sha bytes op obj height pending]"
proof (cases obj)
  case (JObj kvs)
  with assms show ?thesis by (simp only: memoFor_memo_text decode_memo)
qed (use assms(5) in \<open>simp_all add: bet_fields_def\<close>)

text \<open>The commands' memos are well-formed JSON over printable text.\<close>

lemma command_objects:
  "bet_fields ''open'' (open_obj q)" "bet_fields ''buy'' (buy_obj m s)"
  "bet_fields ''resolve'' (resolve_obj m w)" "bet_fields ''analyze'' (analyze_obj m)"
  by (simp_all add: bet_fields_def open_obj_def buy_obj_def resolve_obj_def analyze_obj_def)

lemma command_plain:
  "plain (open_obj q)" "plain (buy_obj m s)" "plain (resolve_obj m w)" "plain (analyze_obj m)"
  by (simp_all add: open_obj_def buy_obj_def resolve_obj_def analyze_obj_def dbl_max_def)

lemma command_ascii:
  "list_all printable q \<Longrightarrow> json_ascii (open_obj q)"
  "list_all printable m \<Longrightarrow> list_all printable s \<Longrightarrow> json_ascii (buy_obj m s)"
  "list_all printable m \<Longrightarrow> list_all printable w \<Longrightarrow> json_ascii (resolve_obj m w)"
  "list_all printable m \<Longrightarrow> json_ascii (analyze_obj m)"
  by (simp_all add: open_obj_def buy_obj_def resolve_obj_def analyze_obj_def or_str_def
      printable_def in_range_def)

lemma buy_event_pledge:
  assumes "mid \<noteq> []" "trim mid = mid"
  shows "pledge yes_side mid (memo_event sha bytes ''buy'' (buy_obj mid s) height pending) =
           (if to_lower s \<in> yes_side then 1000000 else 0)"
    "pledge no_side mid (memo_event sha bytes ''buy'' (buy_obj mid s) height pending) =
           (if to_lower s \<in> no_side then 1000000 else 0)"
proof -
  let ?ev = "memo_event sha bytes ''buy'' (buy_obj mid s) height pending"
  have "parseAmount (body_fld ?ev ''a'') = 1000000"
  proof -
    have "body_fld ?ev ''a'' = Some (JStr ''1000000'')"
      by (simp add: body_fld_def memo_event_def buy_obj_def)
    then show ?thesis by (simp only:) code_simp
  qed
  moreover have "addresses mid ?ev"
    using assms by (simp add: addresses_def body_fld_def memo_event_def buy_obj_def trimmed_str_def)
  moreover have "side_of ?ev = to_lower s"
    by (simp add: side_of_def body_fld_def memo_event_def buy_obj_def str_or_def to_string_def to_lower_def)
  moreover have "ev_op ?ev = ''buy''" by (simp add: memo_event_def)
  ultimately show "pledge yes_side mid ?ev = (if to_lower s \<in> yes_side then 1000000 else 0)"
    "pledge no_side mid ?ev = (if to_lower s \<in> no_side then 1000000 else 0)"
    by (simp_all add: pledge_def)
qed

text \<open>
  Property C26: round trip of the printed commands.  A transaction that carries the memo
  of \<open>openCli\<close>, \<open>buyCli\<close>, \<open>resolveCli\<close> or \<open>analyzeCli\<close> is decoded into exactly one event,
  with the operation and the body that the command printed and an identifier made of the
  transaction's hash.
\<close>
theorem commands_decode:
  assumes "bytesFromRpcTx tx = Some bytes"
    and "list_all printable q" "list_all printable mid" "list_all printable side"
    and "(op, obj) \<in> {(''open'', open_obj q), (''buy'', buy_obj mid side),
                       (''resolve'', resolve_obj mid side), (''analyze'', analyze_obj mid)}"
    and "carries bytes (memoFor obj)"
  shows "decodeBets sha tx height pending = Some [memo_event sha bytes op obj height pending]"
proof -
  have "bet_fields op obj" "plain obj" "json_ascii obj"
    using assms(2-5) command_objects command_plain command_ascii by auto
  with assms(1,6) show ?thesis by (intro decode_obj)
qed

definition demo_tx :: string where "demo_tx = btoa (0x0A # map char_byte (memoFor (buy_obj ''ab'' ''y'')))"

lemma demo_tx_bytes:
  "bytesFromRpcTx (Some (JStr demo_tx)) = Some (0x0A # map char_byte (memoFor (buy_obj ''ab'' ''y'')))"
proof -
  have "hd demo_tx = CHR ''C''" "hd (tl demo_tx) = CHR ''k''" "demo_tx \<noteq> []" "tl demo_tx \<noteq> []"
    by code_simp+
  then obtain t where "demo_tx = CHR ''C'' # CHR ''k'' # t" by (metis list.collapse)
  then show ?thesis
    using atob_btoa [of "0x0A # map char_byte (memoFor (buy_obj ''ab'' ''y''))"]
    by (simp add: bytesFromRpcTx_def Let_def is_hex_def is_digit_def in_range_def demo_tx_def)
qed

lemma commands_decode_witness:
  "\<exists>ev. decodeBets (\<lambda>_. ''ff'') (Some (JStr demo_tx)) (Some 7) False = Some [ev] \<and>
     ev_op ev = ''buy'' \<and> ev_id ev = ''ffi0''"
proof -
  let ?b = "0x0A # map char_byte (memoFor (buy_obj ''ab'' ''y''))"
  have "ascii_byte 0x0A \<noteq> CHR ''I''" by code_simp
  then have "carries ?b (memoFor (buy_obj ''ab'' ''y''))"
    unfolding carries_def
    by (intro exI [of _ "[0x0A]"] exI [of _ "[]"]) (simp add: asciiFromBytes_def)
  then have "decodeBets (\<lambda>_. ''ff'') (Some (JStr demo_tx)) (Some 7) False =
      Some [memo_event (\<lambda>_. ''ff'') ?b ''buy'' (buy_obj ''ab'' ''y'') (Some 7) False]"
    by (intro commands_decode [OF demo_tx_bytes, of "[]" "''ab''" "''y''"])
      (simp_all add: printable_def in_range_def)
  then show ?thesis by (simp add: memo_event_def)
qed

lemma pledge_is_buy: "pledge yes_side mid ev \<noteq> 0 \<Longrightarrow> is_buy mid ev"
  by (simp add: pledge_def is_buy_def split: if_splits)

text \<open>
  A buy command moves the board by the pledge it prints: once the transaction
  that carries \<open>buyCli mid side\<close> is decoded, market \<open>mid\<close> has one more buy of 1000000 uire
  on the named side and every other market is as before.
\<close>
theorem buy_command_effect:
  assumes "bytesFromRpcTx tx = Some bytes" "list_all printable mid" "list_all printable side"
    and "mid \<noteq> []" "trim mid = mid" "to_lower side \<in> yes_side"
    and "carries bytes (memoFor (buy_obj mid side))" "map_of ms mid = Some mk"
  shows "\<exists>ev. decodeBets sha tx height pending = Some [ev] \<and>
    map_option mk_yes (map_of (event_step ev ms) mid) = Some (mk_yes mk + 1000000) \<and>
    map_option mk_no (map_of (event_step ev ms) mid) = Some (mk_no mk) \<and>
    map_option mk_buys (map_of (event_step ev ms) mid) = Some (mk_buys mk + 1) \<and>
    (\<forall>other. other \<noteq> mid \<longrightarrow> map_of (event_step ev ms) other = map_of ms other)"
proof -
  let ?ev = "memo_event sha bytes ''buy'' (buy_obj mid side) height pending"
  have d: "decodeBets sha tx height pending = Some [?ev]"
    using assms(1,7) command_plain(2) command_ascii(2) [OF assms(2,3)] command_objects(2) by (rule decode_obj)
  have a: "addresses other ?ev \<longleftrightarrow> other = mid" for other
    using assms(4,5) by (auto simp: addresses_def body_fld_def memo_event_def buy_obj_def trimmed_str_def)
  have p: "pledge yes_side mid ?ev = 1000000" "pledge no_side mid ?ev = 0"
    using buy_event_pledge [OF assms(4,5)] assms(6) sides_disjoint [OF assms(6)] by simp_all
  then have b: "is_buy mid ?ev" by (intro pledge_is_buy) simp
  have "map_of (event_step ?ev ms) other = (if other = mid then Some (apply_event ?ev mk) else map_of ms other)"
    for other using assms(8) by (simp add: event_step_lookup a)
  then show ?thesis using d p b a by (intro exI [of _ ?ev]) (simp add: apply_event_tally)
qed

lemma buy_command_effect_witness:
  "\<exists>ev. decodeBets (\<lambda>_. ''ff'') (Some (JStr demo_tx)) None True = Some [ev] \<and>
    map_option mk_yes (map_of (event_step ev [(''ab'', new_market demo_open ''Rain?'')]) ''ab'') = Some 1000000"
proof -
  let ?b = "0x0A # map char_byte (memoFor (buy_obj ''ab'' ''y''))"
  have "ascii_byte 0x0A \<noteq> CHR ''I''" by code_simp
  then have c: "carries ?b (memoFor (buy_obj ''ab'' ''y''))"
    unfolding carries_def
    by (intro exI [of _ "[0x0A]"] exI [of _ "[]"]) (simp add: asciiFromBytes_def)
  have "trim ''ab'' = ''ab''" "to_lower ''y'' \<in> yes_side" "list_all printable ''ab''" "list_all printable ''y''"
    by code_simp+
  from buy_command_effect [OF demo_tx_bytes this(3,4) _ this(1,2) c, of "[(''ab'', new_market demo_open ''Rain?'')]"
      "new_market demo_open ''Rain?''" "\<lambda>_. ''ff''" None True]
  show ?thesis by (auto simp: new_market_def)
qed

section \<open>Polling\<close>

definition block_events_ok :: "rat \<Rightarrow> market_block \<Rightarrow> bool" where
  "block_events_ok h b \<longleftrightarrow> mb_height b = h \<and>
     (\<forall>ev \<in> set (mb_events b). ev_height ev = Some h \<and> \<not> ev_pending ev)"

lemma decodeBets_meta:
  "decodeBets sha tx height pending = Some evs \<Longrightarrow> ev \<in> set evs \<Longrightarrow>
   ev_height ev = height \<and> ev_pending ev = pending"
  by (auto simp: decodeBets_def Let_def split: option.splits)

lemma decode_all_meta:
  assumes "decode_all sha txs height pending = Some evs" "ev \<in> set evs"
  shows "ev_height ev = height \<and> ev_pending ev = pending"
proof -
  from assms(1) obtain ess where ess: "the_all (map (\<lambda>tx. decodeBets sha tx height pending) txs) = Some ess"
    "evs = concat ess" by (auto simp: decode_all_def)
  with assms(2) obtain es where es: "es \<in> set ess" "ev \<in> set es" by auto
  from the_all_Some [OF ess(1)] es(1) have "Some es \<in> set (map (\<lambda>tx. decodeBets sha tx height pending) txs)"
    by (metis imageI list.set_map)
  then obtain tx where "decodeBets sha tx height pending = Some es" by auto
  from decodeBets_meta [OF this es(2)] show ?thesis .
qed

interpretation market_source: block_source "market_load get sha" block_events_ok for get sha
proof unfold_locales
  fix h b assume "market_load get sha h = Some b"
  then show "block_events_ok h b"
    using decode_all_meta
    by (fastforce simp: market_load_def block_events_ok_def Let_def split: option.splits bind_splits)
qed

definition markets_start :: market_state where
  "markets_start = \<lparr>ms_online = False, ms_height = None, ms_catchingUp = False, ms_markets = [],
     ms_scanned = 0, ms_pendingCount = 0, ms_windowMin = None, ms_cache = []\<rparr>"

definition in_window :: "market_state \<Rightarrow> rat \<Rightarrow> bool" where
  "in_window st h \<longleftrightarrow>
     (case (ms_windowMin st, ms_height st) of (Some lo, Some hi) \<Rightarrow> lo \<le> h \<and> h \<le> hi | _ \<Rightarrow> False)"

definition markets_inv :: "market_state \<Rightarrow> bool" where
  "markets_inv st \<longleftrightarrow>
     cache_ok block_events_ok (ms_cache st) \<and> distinct (map fst (ms_cache st)) \<and>
     (if ms_online st
      then (\<forall>(h, b) \<in> set (ms_cache st). in_window st h) \<and>
        (\<forall>mk \<in> set (ms_markets st). \<not> mk_pending mk \<longrightarrow>
           (\<exists>h. mk_height mk = Some h \<and> in_window st h))
      else ms_markets st = [])"

lemma meta_heights_in: "meta_heights lo hi v = Some hs \<Longrightarrow> h \<in> set hs \<Longrightarrow> lo \<le> h \<and> h \<le> hi"
  by (auto simp: meta_heights_def split: option.splits json.splits)

lemma market_plan_heights:
  assumes "market_plan get = Some p" "h \<in> set (pp_heights p)"
  shows "pp_min p \<le> h \<and> h \<le> pp_height p"
proof -
  obtain lo hi metas hs where hs: "meta_heights lo hi metas = Some hs"
    and p: "pp_min p = lo" "pp_height p = hi"
      "pp_heights p = (if foldl push_new [] hs = [] then heights_from lo hi else foldl push_new [] hs)"
    using assms(1) by (auto simp: market_plan_def Let_def split: bind_splits)
  have "set (foldl push_new [] hs) = set hs" by (simp add: foldl_push_new)
  with assms(2) p meta_heights_in [OF hs] heights_from_range show ?thesis by (auto split: if_splits)
qed

lemma market_events_blocks:
  assumes "market_events get sha cache p = Some (chain, pend)"
  obtains blocks where "load_blocks (market_load get sha) cache (pp_heights p) = Some blocks"
    "chain = concat (map mb_events blocks)" "\<forall>ev \<in> set pend. ev_pending ev"
  using assms that decode_all_meta
  by (auto simp: market_events_def split: bind_splits)

text \<open>A confirmed event of a poll comes from a block of the window.\<close>

lemma market_events_window:
  assumes p: "market_plan get = Some p" and c: "cache_ok block_events_ok cache"
    and e: "market_events get sha cache p = Some (chain, pend)"
    and ev: "ev \<in> set (chain @ pend)" "\<not> ev_pending ev"
  shows "\<exists>h. ev_height ev = Some h \<and> pp_min p \<le> h \<and> h \<le> pp_height p"
proof -
  obtain blocks where b: "load_blocks (market_load get sha) cache (pp_heights p) = Some blocks"
    "chain = concat (map mb_events blocks)" "\<forall>ev \<in> set pend. ev_pending ev"
    using e by (rule market_events_blocks)
  with ev obtain blk where blk: "blk \<in> set blocks" "ev \<in> set (mb_events blk)" by auto
  from market_source.load_blocks_ok [OF c b(1)] blk(1)
  obtain h where "h \<in> set (pp_heights p)" "block_events_ok h blk"
    by (metis in_set_conv_nth list_all2_conv_all_nth)
  with blk(2) market_plan_heights [OF p] show ?thesis by (auto simp: block_events_ok_def)
qed

text \<open>A market carries the height and the pending mark of the event that opened it.\<close>

lemma reconstruct_opened:
  assumes "mk \<in> set (reconstruct evs)"
  shows "\<exists>ev \<in> set evs. opens ev \<and> mk_height mk = ev_height ev \<and> mk_pending mk = ev_pending ev"
proof -
  obtain mk' where mk': "(mk_id mk', mk') \<in> set (board_of evs)" "mk = sort_analyses mk'"
    using assms by (rule reconstruct_entry)
  from mk'(1) obtain ev where "ev \<in> set evs" "opens ev"
    "mk' = fold apply_event (filter (addresses (mk_id mk')) evs)
      (new_market ev (trimmed_str (body_fld ev ''q'')))"
    by (rule board_entry) blast
  with mk'(2) show ?thesis by (metis fold_apply_fixed(3,4) market.select_convs(4,5) new_market_def
      sort_analyses_fixed(9,10))
qed

lemma markets_inv_offline:
  "cache_ok block_events_ok cache \<Longrightarrow> distinct (map fst cache) \<Longrightarrow> markets_inv (markets_offline cache st)"
  by (simp add: markets_inv_def markets_offline_def)

text \<open>
  Property C27: whatever the node answers and however the concurrent loads end, polling
  keeps the page sound.  Every cached block holds its own height's events; while the page
  is online the cache and every confirmed market it shows lie in the window it announces;
  while it is offline it shows no market.
\<close>
theorem markets_tick_inv:
  "markets_inv markets_start \<and> (markets_inv st \<longrightarrow> markets_inv (markets_tick get sha part st))"
proof (intro conjI impI)
  show "markets_inv markets_start" by (simp add: markets_inv_def markets_start_def cache_ok_def)
next
  assume inv: "markets_inv st"
  then have c: "cache_ok block_events_ok (ms_cache st)" and d: "distinct (map fst (ms_cache st))"
    by (simp_all add: markets_inv_def)
  show "markets_inv (markets_tick get sha part st)"
  proof (cases "market_plan get")
    case None
    with c d show ?thesis by (simp add: markets_tick_def markets_inv_offline)
  next
    case (Some p)
    let ?cache = "evict (pp_min p) (pp_height p) (ms_cache st)"
    have c': "cache_ok block_events_ok ?cache" using c by (rule market_source.evict_ok)
    have filled: "cache_ok block_events_ok (fill (market_load get sha) q ?cache (pp_heights p))"
      "distinct (map fst (fill (market_load get sha) q ?cache (pp_heights p)))" for q
      using market_source.fill_ok [OF c'] fill_distinct [OF evict_distinct [OF d]] by auto
    show ?thesis
    proof (cases "market_events get sha ?cache p")
      case None
      with Some filled show ?thesis by (simp add: markets_tick_def Let_def markets_inv_offline)
    next
      case (Some r)
      obtain chain pend where r: "r = (chain, pend)" by (cases r)
      have "cache_in (pp_min p) (pp_height p) (fill (market_load get sha) (\<lambda>_. True) ?cache (pp_heights p))"
        using evict_in market_plan_heights [OF \<open>market_plan get = Some p\<close>] by (intro fill_in) auto
      moreover have "\<exists>h. mk_height mk = Some h \<and> pp_min p \<le> h \<and> h \<le> pp_height p"
        if "mk \<in> set (reconstruct (chain @ pend))" "\<not> mk_pending mk" for mk
        using reconstruct_opened [OF that(1)] that(2)
          market_events_window [OF \<open>market_plan get = Some p\<close> c' Some [unfolded r]] by metis
      ultimately show ?thesis using Some \<open>market_plan get = Some p\<close> r filled
        by (simp add: markets_tick_def Let_def markets_inv_def in_window_def cache_in_def cache_ok_def)
    qed
  qed
qed

lemma markets_tick_inv_witness: "markets_inv (markets_tick (\<lambda>_. None) (\<lambda>_. []) (\<lambda>_. True) markets_start)"
  using markets_tick_inv [of markets_start "\<lambda>_. None" "\<lambda>_. []" "\<lambda>_. True"] by blast

end
