(* ===== verification/Display.thy ===== *)
theory Display
  imports Tx_Decode
begin

text \<open>
  Formatting and addressing shared by the site's pages: \<open>Intl.NumberFormat('en-US')\<close>,
  amounts of uire shown as IRE, shortened addresses, ages, and the query encoding of
  links.  \<open>Date\<close> parsing belongs to the engine: \<open>ago\<close> takes the parsed time.
\<close>

section \<open>Numbers\<close>

text \<open>Groups of three digits from the right.\<close>

fun group_rev :: "string \<Rightarrow> string" where
  "group_rev (a # b # c # d # s) = a # b # c # CHR '','' # group_rev (d # s)"
| "group_rev s = s"

definition group :: "string \<Rightarrow> string" where "group s = rev (group_rev (rev s))"

definition strip_zeros :: "string \<Rightarrow> string" where
  "strip_zeros s = rev (dropWhile (\<lambda>c. c = CHR ''0'') (rev s))"

definition point_digits :: "string \<Rightarrow> string" where
  "point_digits s = (if s = [] then [] else CHR ''.'' # s)"

text \<open>At most \<open>k\<close> fraction digits, rounded half away from zero, without trailing zeros.\<close>

definition intl_format :: "nat \<Rightarrow> rat \<Rightarrow> string" where
  "intl_format k r =
     (let n = nat \<lfloor>\<bar>r\<bar> * 10 ^ k + 1 / 2\<rfloor>;
          fp = n mod 10 ^ k
      in (if r < 0 then ''-'' else []) @ group (dec (n div 10 ^ k)) @
         (if fp = 0 then [] else point_digits (strip_zeros (pad_start k (CHR ''0'') (dec fp)))))"

text \<open>\<open>fmtIre\<close>: the pages differ in the number of fraction digits only.\<close>

definition fmt_ire :: "nat \<Rightarrow> jsnum \<Rightarrow> string" where
  "fmt_ire k n = (case n of Fin r \<Rightarrow> intl_format k (r / 1000000) | _ \<Rightarrow> em_dash)"

definition locale_int :: "rat \<Rightarrow> string" where "locale_int = intl_format 3"

text \<open>\<open>x.toFixed(k)\<close> on the exact value, ties up in magnitude.\<close>

definition to_fixed :: "nat \<Rightarrow> rat \<Rightarrow> string" where
  "to_fixed k r =
     (let n = nat \<lfloor>\<bar>r\<bar> * 10 ^ k + 1 / 2\<rfloor> in
      (if r < 0 then ''-'' else []) @ dec (n div 10 ^ k) @
      (if k = 0 then [] else ''.'' @ pad_start k (CHR ''0'') (dec (n mod 10 ^ k))))"

section \<open>Addresses and ages\<close>

definition shortAddr :: "string \<Rightarrow> string" where
  "shortAddr addr =
     (if addr = [] then em_dash
      else if length addr < 16 then addr
      else take 8 addr @ ellipsis @ slice_last 6 addr)"

definition ago_text :: "int \<Rightarrow> string" where
  "ago_text ms =
     (let s = max 0 \<lfloor>of_int ms / 1000 + 1 / (2::rat)\<rfloor> in
      if s < 60 then int_str s @ ''s ago''
      else if s < 3600 then int_str (s div 60) @ ''m ago''
      else int_str (s div 3600) @ ''h ago'')"

text \<open>\<open>/^ire1[0-9a-z]{38,90}$/\<close>, the test of the send form and of the identity page.\<close>

definition ireOk :: "string \<Rightarrow> bool" where
  "ireOk s \<longleftrightarrow> starts_with ''ire1'' s \<and> list_all is_alnum_lower (drop 4 s) \<and>
     42 \<le> length s \<and> length s \<le> 94"

lemma ireOk_chars:
  assumes "ireOk s"
  shows "list_all is_alnum_lower s"
proof -
  from assms obtain t where s: "s = ''ire1'' @ t" and t: "list_all is_alnum_lower t"
    by (auto simp: ireOk_def starts_with_iff)
  have "list_all is_alnum_lower ''ire1''"
    by (simp add: is_alnum_lower_def is_lower_def is_digit_def in_range_def)
  with t show ?thesis unfolding s by (simp only: list_all_append)
qed

lemma isIreAddr_ireOk: "isIreAddr s \<Longrightarrow> ireOk s"
  by (simp add: isIreAddr_def ireOk_def)

section \<open>Query strings\<close>

definition utf8 :: "char \<Rightarrow> nat list" where
  "utf8 c = (let n = of_char c in if n < 128 then [n] else [192 + n div 64, 128 + n mod 64])"

definition percent :: "nat \<Rightarrow> string" where
  "percent n = CHR ''%'' # to_upper (pad_start 2 (CHR ''0'') (hex n))"

definition uri_plain :: "char \<Rightarrow> bool" where
  "uri_plain c \<longleftrightarrow> is_digit c \<or> is_lower c \<or> is_upper c \<or> c \<in> set (''-_.!~*()'' @ [CHR 0x27])"

definition encodeURIComponent :: "string \<Rightarrow> string" where
  "encodeURIComponent s =
     concat (map (\<lambda>c. if uri_plain c then [c] else concat (map percent (utf8 c))) s)"

text \<open>The serialisation of \<open>URLSearchParams\<close>.\<close>

definition form_plain :: "char \<Rightarrow> bool" where
  "form_plain c \<longleftrightarrow> is_digit c \<or> is_lower c \<or> is_upper c \<or> c \<in> set ''*-._''"

definition form_encode :: "string \<Rightarrow> string" where
  "form_encode s =
     concat (map (\<lambda>c. if form_plain c then [c] else if c = CHR '' '' then ''+''
                      else concat (map percent (utf8 c))) s)"

lemma encode_addr:
  assumes "ireOk s"
  shows "encodeURIComponent s = s" "form_encode s = s"
proof -
  from ireOk_chars [OF assms] have "\<forall>c \<in> set s. is_alnum_lower c" by (simp only: list_all_iff)
  then have "\<forall>c \<in> set s. uri_plain c \<and> form_plain c"
    by (simp only: form_plain_def is_alnum_lower_def uri_plain_def) blast
  then have "map (\<lambda>c. if uri_plain c then [c] else concat (map percent (utf8 c))) s = map (\<lambda>c. [c]) s"
    "map (\<lambda>c. if form_plain c then [c] else if c = CHR '' '' then ''+'' else concat (map percent (utf8 c))) s
      = map (\<lambda>c. [c]) s"
    by (auto intro: map_cong)
  then show "encodeURIComponent s = s" "form_encode s = s"
    unfolding encodeURIComponent_def form_encode_def by (simp_all only: concat_map_singleton map_ident)
qed

section \<open>Escaping\<close>

lemma escape_entity_safe:
  "c \<in> set (escape_entity d) \<Longrightarrow> c \<noteq> CHR ''<'' \<and> c \<noteq> CHR ''>'' \<and> c \<noteq> dq"
  by (auto simp: escape_entity_def dq_def split: if_splits)

lemma escapeHtml_chars: "c \<in> set (escapeHtml s) \<Longrightarrow> c \<noteq> CHR ''<'' \<and> c \<noteq> CHR ''>'' \<and> c \<noteq> dq"
  unfolding escapeHtml_passes using escape_entity_safe by fastforce

text \<open>Reading the four entities back.\<close>

fun unescape_html :: "string \<Rightarrow> string" where
  "unescape_html [] = []"
| "unescape_html (c # s) =
     (if starts_with ''&amp;'' (c # s) then CHR ''&'' # unescape_html (drop 4 s)
      else if starts_with ''&lt;'' (c # s) then CHR ''<'' # unescape_html (drop 3 s)
      else if starts_with ''&gt;'' (c # s) then CHR ''>'' # unescape_html (drop 3 s)
      else if starts_with ''&quot;'' (c # s) then dq # unescape_html (drop 5 s)
      else c # unescape_html s)"

lemma unescape_entity: "unescape_html (escape_entity c @ s) = c # unescape_html s"
  by (simp add: escape_entity_def)

lemma unescape_escape: "unescape_html (escapeHtml s) = s"
  unfolding escapeHtml_passes by (induction s) (simp_all add: unescape_entity)

text \<open>
  Property C36: \<open>escapeHtml\<close> makes any text safe to splice into the page's HTML, as an
  element's text or as a double-quoted attribute: it leaves no angle bracket and no double
  quote, and no information is lost, since the browser's decoding of the four entities
  gives the text back.
\<close>
theorem escapeHtml_safe:
  "CHR ''<'' \<notin> set (escapeHtml s) \<and> CHR ''>'' \<notin> set (escapeHtml s) \<and> dq \<notin> set (escapeHtml s) \<and>
   unescape_html (escapeHtml s) = s"
  using escapeHtml_chars unescape_escape by blast

end
