(* ===== verification/Wallet.thy ===== *)
theory Wallet
  imports Memo Block_Cache Display "HOL-Library.Monad_Syntax"
begin

text \<open>
  site/assets/wallet.js: the activity page of one address.  The page polls the last 50
  blocks and the mempool, keeps the decoded blocks in a cache, and shows the transactions
  that involve the address, newest first.  As in Markets, SHA-256 is the parameter \<open>sha\<close>
  and the node the function \<open>get\<close>; \<open>clock\<close> is \<open>Date\<close>: the age in milliseconds of a
  timestamp, \<open>None\<close> when it does not parse.
\<close>

definition WALLET_WINDOW :: nat where "WALLET_WINDOW = 50"
definition WALLET_LIMIT :: nat where "WALLET_LIMIT = 50"

section \<open>Transactions\<close>

datatype tx_kind = Bet | Inscribe | Stake | Receive | Send

record wtx =
  w_hash :: string
  w_id :: string
  w_from :: string
  w_to :: string
  w_amount :: string
  w_inscription :: "inscription option"
  w_isStake :: bool
  w_pending :: bool
  w_height :: "rat option"
  w_time :: jval
  w_addrs :: "string list"

definition kindFor :: "wtx \<Rightarrow> string \<Rightarrow> tx_kind" where
  "kindFor tx viewer =
     (case w_inscription tx of
        Some i \<Rightarrow>
          (case extractJson (payload i) of
             Some body \<Rightarrow> if fld (Some body) ''p'' = Some (JStr ''ire-bet'') then Bet else Inscribe
           | None \<Rightarrow> Inscribe)
      | None \<Rightarrow>
          if w_isStake tx then Stake
          else if viewer \<noteq> [] \<and> w_to tx = viewer \<and> w_from tx \<noteq> viewer then Receive
          else Send)"

definition decodeTx ::
  "(byte list \<Rightarrow> string) \<Rightarrow> jval \<Rightarrow> rat option \<Rightarrow> bool \<Rightarrow> jval \<Rightarrow> wtx option" where
  "decodeTx sha tx height pending time =
     (case bytesFromRpcTx tx of
        None \<Rightarrow> None
      | Some bytes \<Rightarrow>
          (let hash = sha bytes; ascii = asciiFromBytes bytes; addrs = extractAddrs ascii in
           Some \<lparr>w_hash = hash, w_id = hash @ ''i0'',
             w_from = (case addrs of a # _ \<Rightarrow> a | [] \<Rightarrow> []),
             w_to = (case addrs of a # b # _ \<Rightarrow> b | [a] \<Rightarrow> a | [] \<Rightarrow> []),
             w_amount = extractUireAmount ascii, w_inscription = parseInscription ascii,
             w_isStake = isStakeAscii ascii, w_pending = pending, w_height = height,
             w_time = or_else time None, w_addrs = addrs\<rparr>))"

definition involves :: "wtx \<Rightarrow> string \<Rightarrow> bool" where
  "involves tx addr \<longleftrightarrow> addr \<noteq> [] \<and> (w_from tx = addr \<or> w_to tx = addr \<or> addr \<in> set (w_addrs tx))"

definition counterparty :: "string \<Rightarrow> tx_kind \<Rightarrow> wtx \<Rightarrow> string" where
  "counterparty addr kind tx =
     (if kind = Receive then or_str (w_from tx) (w_to tx)
      else if addr \<noteq> [] \<and> w_to tx \<noteq> [] \<and> w_to tx \<noteq> addr then w_to tx
      else if w_from tx \<noteq> [] \<and> w_from tx \<noteq> addr then w_from tx
      else if w_from tx \<noteq> [] \<and> w_to tx \<noteq> [] \<and> w_from tx = w_to tx then w_to tx
      else or_str (w_to tx) (w_from tx))"

section \<open>Blocks\<close>

record wallet_block =
  wb_height :: rat
  wb_time :: jval
  wb_txs :: "wtx list"

definition wallet_load ::
  "(string \<Rightarrow> json option) \<Rightarrow> (byte list \<Rightarrow> string) \<Rightarrow> rat \<Rightarrow> wallet_block option" where
  "wallet_load get sha h = do {
     data \<leftarrow> get (block_path h);
     result \<leftarrow> dot (Some data) ''result'';
     block \<leftarrow> dot result ''block'';
     header \<leftarrow> dot block ''header'';
     raws \<leftarrow> iterate (or_empty (and_then (fld block ''data'') (fld_path block [''data'', ''txs''])));
     time \<leftarrow> dot header ''time'';
     txs \<leftarrow> the_all (map (\<lambda>tx. decodeTx sha tx (Some h) False time) raws);
     Some \<lparr>wb_height = h, wb_time = time, wb_txs = txs\<rparr> }"

section \<open>The page\<close>

record wallet_state =
  ws_online :: bool
  ws_height :: "rat option"
  ws_catchingUp :: bool
  ws_address :: string
  ws_balance :: "json option"
  ws_balanceError :: string
  ws_txs :: "(tx_kind \<times> wtx) list"
  ws_selected :: "string option"
  ws_windowMin :: "rat option"
  ws_cache :: "wallet_block cache"
  ws_stored :: string
  ws_query :: "string option"

definition balance_path :: "string \<Rightarrow> string" where
  "balance_path addr =
     ''/api/cosmos/bank/v1beta1/balances/'' @ encodeURIComponent addr @ ''/by_denom?denom=uire''"

definition lookupBalance :: "(string \<Rightarrow> json option) \<Rightarrow> string \<Rightarrow> wallet_state \<Rightarrow> wallet_state" where
  "lookupBalance get addr st =
     (if \<not> isIreAddr addr
      then st\<lparr>ws_balance := None,
              ws_balanceError := (if addr \<noteq> [] then ''Not an ire1 account address.'' else [])\<rparr>
      else case get (balance_path addr) \<bind> (\<lambda>data. dot (Some data) ''balance'') of
        None \<Rightarrow> st\<lparr>ws_balance := None, ws_balanceError := ''Balance unavailable.''\<rparr>
      | Some b \<Rightarrow> st\<lparr>ws_balance := or_else (and_then b (fld b ''amount'')) (Some (JStr ''0'')),
                     ws_balanceError := []\<rparr>)"

text \<open>
  The address also goes to \<open>localStorage\<close> (best effort: \<open>store\<close> says whether the browser
  took it) and to the page's own query string.
\<close>

definition setAddress :: "bool \<Rightarrow> string \<Rightarrow> wallet_state \<Rightarrow> wallet_state" where
  "setAddress store addr st =
     (let new = trim addr in
      st\<lparr>ws_address := new, ws_stored := (if store then new else ws_stored st),
         ws_query := (if new \<noteq> [] then Some new else None)\<rparr>)"

definition shareUrl :: "string \<Rightarrow> wallet_state \<Rightarrow> string" where
  "shareUrl origin st =
     origin @ ''/wallet/'' @ (if ws_address st \<noteq> [] then ''?a='' @ form_encode (ws_address st) else [])"

section \<open>One poll\<close>

record wallet_plan =
  wp_height :: rat
  wp_catchingUp :: bool
  wp_mempool :: jval

definition wallet_plan_of :: "(string \<Rightarrow> json option) \<Rightarrow> wallet_plan option" where
  "wallet_plan_of get = do {
     status \<leftarrow> get ''/rpc/status'';
     result \<leftarrow> dot (Some status) ''result'';
     sync \<leftarrow> dot result ''sync_info'';
     latest \<leftarrow> dot sync ''latest_block_height'';
     height \<leftarrow> (case to_number latest of Fin r \<Rightarrow> if r < 1 then None else Some r | _ \<Rightarrow> None);
     mempool \<leftarrow> get (''/rpc/unconfirmed_txs?limit='' @ dec WALLET_LIMIT);
     Some \<lparr>wp_height = height, wp_catchingUp = truthy (fld sync ''catching_up''),
           wp_mempool = Some mempool\<rparr> }"

definition wp_min :: "wallet_plan \<Rightarrow> rat" where
  "wp_min p = window_min WALLET_WINDOW (wp_height p)"

definition wp_heights :: "wallet_plan \<Rightarrow> rat list" where
  "wp_heights p = heights_from (wp_min p) (wp_height p)"

text \<open>
  The feed before filtering: pending transactions that no block of the window holds, then
  the blocks' transactions, highest block first.
\<close>

definition confirmed_of :: "wallet_block list \<Rightarrow> wtx list" where
  "confirmed_of blocks = concat (map wb_txs (sort_key (\<lambda>b. - wb_height b) blocks))"

definition merge_feed :: "wtx list \<Rightarrow> wtx list \<Rightarrow> wtx list" where
  "merge_feed pending confirmed =
     (let seen = w_hash ` set confirmed in filter (\<lambda>tx. w_hash tx \<notin> seen) pending @ confirmed)"

definition wallet_feed ::
  "(string \<Rightarrow> json option) \<Rightarrow> (byte list \<Rightarrow> string) \<Rightarrow> wallet_block cache \<Rightarrow> wallet_plan \<Rightarrow>
   (wtx list \<times> wallet_block list) option" where
  "wallet_feed get sha cache p = do {
     blocks \<leftarrow> load_blocks (wallet_load get sha) cache (wp_heights p);
     result \<leftarrow> dot (wp_mempool p) ''result'';
     raws \<leftarrow> iterate (or_empty (and_then result (fld result ''txs'')));
     pend \<leftarrow> the_all (map (\<lambda>tx. decodeTx sha tx None True (Some JNull)) raws);
     Some (pend, blocks) }"

definition view_for :: "string \<Rightarrow> wtx list \<Rightarrow> (tx_kind \<times> wtx) list" where
  "view_for addr txs =
     (if isIreAddr addr
      then map (\<lambda>tx. (kindFor tx addr, tx)) (filter (\<lambda>tx. involves tx addr) txs)
      else [])"

definition wallet_offline :: "wallet_block cache \<Rightarrow> wallet_state \<Rightarrow> wallet_state" where
  "wallet_offline cache st = st\<lparr>ws_online := False, ws_txs := [], ws_cache := cache\<rparr>"

definition wallet_tick ::
  "(string \<Rightarrow> json option) \<Rightarrow> (byte list \<Rightarrow> string) \<Rightarrow> (rat \<Rightarrow> bool) \<Rightarrow> wallet_state \<Rightarrow> wallet_state" where
  "wallet_tick get sha part st =
     (case wallet_plan_of get of
        None \<Rightarrow> wallet_offline (ws_cache st) st
      | Some p \<Rightarrow>
          (let cache = evict (wp_min p) (wp_height p) (ws_cache st) in
           case wallet_feed get sha cache p of
             None \<Rightarrow> wallet_offline (fill (wallet_load get sha) part cache (wp_heights p)) st
           | Some (pend, blocks) \<Rightarrow>
               (let st' = (if isIreAddr (ws_address st) then lookupBalance get (ws_address st) st else st) in
                st'\<lparr>ws_online := True, ws_height := Some (wp_height p),
                    ws_catchingUp := wp_catchingUp p, ws_windowMin := Some (wp_min p),
                    ws_txs := view_for (ws_address st) (merge_feed pend (confirmed_of blocks)),
                    ws_cache := fill (wallet_load get sha) (\<lambda>_. True) cache (wp_heights p)\<rparr>)))"

section \<open>User actions\<close>

definition wallet_submit ::
  "(string \<Rightarrow> json option) \<Rightarrow> (byte list \<Rightarrow> string) \<Rightarrow> (rat \<Rightarrow> bool) \<Rightarrow> bool \<Rightarrow> string \<Rightarrow>
   wallet_state \<Rightarrow> wallet_state" where
  "wallet_submit get sha part store input st =
     (let addr = trim input;
          st1 = (setAddress store addr st)\<lparr>ws_selected := None\<rparr> in
      if addr \<noteq> [] \<and> \<not> isIreAddr addr
      then st1\<lparr>ws_balance := None, ws_balanceError := ''Not an ire1 account address.'', ws_txs := []\<rparr>
      else wallet_tick get sha part (lookupBalance get (ws_address st1) st1))"

definition select_row :: "string \<Rightarrow> wallet_state \<Rightarrow> wallet_state" where
  "select_row hash st = st\<lparr>ws_selected := (if ws_selected st = Some hash then None else Some hash)\<rparr>"

text \<open>The address restored on load: the stored one, then the one in the query.\<close>

definition wallet_restore :: "bool \<Rightarrow> string \<Rightarrow> string \<Rightarrow> wallet_state \<Rightarrow> wallet_state" where
  "wallet_restore store saved fromQ st =
     (let st1 = (if saved \<noteq> [] then setAddress store saved st else st) in
      if trim fromQ \<noteq> [] then setAddress store (trim fromQ) st1 else st1)"

text \<open>The send form: a message for the button, or the command it copies.\<close>

definition js_round :: "rat \<Rightarrow> int" where "js_round r = \<lfloor>r + 1 / 2\<rfloor>"

definition wallet_send :: "wallet_state \<Rightarrow> string \<Rightarrow> string \<Rightarrow> string + string" where
  "wallet_send st toField amtField =
     (let from = ws_address st; dest = trim toField in
      if \<not> ireOk from then Inl ''Set your ire1 first''
      else if \<not> ireOk dest then Inl ''Bad to address''
      else case str_number (trim amtField) of
        Fin n \<Rightarrow>
          if n \<le> 0 then Inl ''Set amount''
          else Inr (''ired tx bank send '' @ from @ '' '' @ dest @ '' '' @ int_str (js_round (n * 1000000)) @
            ''uire --chain-id ire-1 --from <key> --gas-prices 0.001uire --home $HOME/.ire --yes'')
      | _ \<Rightarrow> Inl ''Set amount'')"

end
