(* ===== verification/Wallet_Feed.thy ===== *)
theory Wallet_Feed
  imports Wallet
begin

text \<open>
  What the activity page of wallet.js guarantees: an invariant over every history of
  polls, submitted addresses and row selections (\<open>wallet_reach\<close>), completeness of the feed,
  and the safety of the command the send form copies.
\<close>

section \<open>Blocks belong to their height\<close>

definition wallet_block_ok :: "rat \<Rightarrow> wallet_block \<Rightarrow> bool" where
  "wallet_block_ok h b \<longleftrightarrow> wb_height b = h \<and>
     (\<forall>tx \<in> set (wb_txs b). w_height tx = Some h \<and> \<not> w_pending tx)"

lemma decodeTx_meta:
  "decodeTx sha rw height pending time = Some tx \<Longrightarrow> w_height tx = height \<and> w_pending tx = pending"
  by (auto simp: decodeTx_def Let_def split: option.splits)

lemma the_all_decode:
  assumes "the_all (map (\<lambda>rw. decodeTx sha rw height pending time) raws) = Some txs" "tx \<in> set txs"
  shows "w_height tx = height \<and> w_pending tx = pending"
proof -
  from the_all_Some [OF assms(1)] assms(2)
  have "Some tx \<in> set (map (\<lambda>rw. decodeTx sha rw height pending time) raws)"
    by (metis imageI list.set_map)
  then obtain rw where "decodeTx sha rw height pending time = Some tx" by auto
  then show ?thesis by (rule decodeTx_meta)
qed

interpretation wallet_source: block_source "wallet_load get sha" wallet_block_ok for get sha
proof unfold_locales
  fix h b assume "wallet_load get sha h = Some b"
  then show "wallet_block_ok h b"
    using the_all_decode
    by (fastforce simp: wallet_load_def wallet_block_ok_def split: bind_splits)
qed

section \<open>The merged feed\<close>

definition newer :: "wtx \<Rightarrow> wtx \<Rightarrow> bool" where
  "newer a b \<longleftrightarrow> w_pending a \<or>
     (\<not> w_pending b \<and> the (w_height b) \<le> the (w_height a))"

lemma confirmed_of_set: "set (confirmed_of blocks) = (\<Union>b \<in> set blocks. set (wb_txs b))"
  by (auto simp: confirmed_of_def)

lemma sorted_wrt_all: "\<forall>x \<in> set xs. \<forall>y \<in> set xs. P x y \<Longrightarrow> sorted_wrt P xs"
  by (induction xs) auto

lemma confirmed_sorted:
  assumes "\<forall>b \<in> set blocks. wallet_block_ok (wb_height b) b"
  shows "sorted_wrt newer (confirmed_of blocks)"
proof -
  have "sorted_wrt newer (concat (map wb_txs bs))"
    if "sorted (map (\<lambda>b. - wb_height b) bs)" "\<forall>b \<in> set bs. wallet_block_ok (wb_height b) b" for bs
    using that
  proof (induction bs)
    case (Cons b bs)
    have "\<forall>x \<in> set (wb_txs b). \<forall>y \<in> set (wb_txs b). newer x y"
      using Cons.prems(2) by (simp add: newer_def wallet_block_ok_def)
    then have one: "sorted_wrt newer (wb_txs b)" by (rule sorted_wrt_all)
    have "newer x y" if "x \<in> set (wb_txs b)" "c \<in> set bs" "y \<in> set (wb_txs c)" for x y c
      using that Cons.prems by (auto simp: newer_def wallet_block_ok_def)
    then have "\<forall>x \<in> set (wb_txs b). \<forall>y \<in> set (concat (map wb_txs bs)). newer x y" by auto
    with one Cons show ?case by (simp add: sorted_wrt_append)
  qed simp
  then show ?thesis using assms by (simp add: confirmed_of_def)
qed

lemma merge_feed_set:
  "set (merge_feed pend conf) =
     {tx \<in> set pend. w_hash tx \<notin> w_hash ` set conf} \<union> set conf"
  by (auto simp: merge_feed_def Let_def)

lemma merge_feed_sorted:
  assumes "\<forall>tx \<in> set pend. w_pending tx" "sorted_wrt newer conf"
  shows "sorted_wrt newer (merge_feed pend conf)"
proof -
  have "sorted_wrt newer xs" if "\<forall>tx \<in> set xs. w_pending tx" for xs
    using that by (induction xs) (auto simp: newer_def)
  with assms show ?thesis by (auto simp: merge_feed_def Let_def sorted_wrt_append newer_def)
qed

section \<open>The invariant of the page\<close>

definition wallet_in_window :: "wallet_state \<Rightarrow> wtx \<Rightarrow> bool" where
  "wallet_in_window st tx \<longleftrightarrow>
     (case (ws_windowMin st, ws_height st, w_height tx) of
        (Some lo, Some hi, Some h) \<Rightarrow> lo \<le> h \<and> h \<le> hi | _ \<Rightarrow> False)"

definition wallet_inv :: "wallet_state \<Rightarrow> bool" where
  "wallet_inv st \<longleftrightarrow>
     cache_ok wallet_block_ok (ws_cache st) \<and> distinct (map fst (ws_cache st)) \<and>
     (\<not> ws_online st \<longrightarrow> ws_txs st = []) \<and>
     (\<forall>(k, tx) \<in> set (ws_txs st).
        isIreAddr (ws_address st) \<and> involves tx (ws_address st) \<and> k = kindFor tx (ws_address st) \<and>
        (\<not> w_pending tx \<longrightarrow> wallet_in_window st tx)) \<and>
     (\<forall>(k, tx) \<in> set (ws_txs st). \<forall>(l, ux) \<in> set (ws_txs st).
        w_pending tx \<and> \<not> w_pending ux \<longrightarrow> w_hash tx \<noteq> w_hash ux) \<and>
     sorted_wrt newer (map snd (ws_txs st))"

definition wallet_start :: wallet_state where
  "wallet_start = \<lparr>ws_online = False, ws_height = None, ws_catchingUp = False, ws_address = [],
     ws_balance = None, ws_balanceError = [], ws_txs = [], ws_selected = None, ws_windowMin = None,
     ws_cache = [], ws_stored = [], ws_query = None\<rparr>"

inductive wallet_reach :: "(byte list \<Rightarrow> string) \<Rightarrow> wallet_state \<Rightarrow> bool" for sha where
  opened: "wallet_reach sha (wallet_restore store saved fromQ wallet_start)"
| polled: "wallet_reach sha st \<Longrightarrow> wallet_reach sha (wallet_tick get sha part st)"
| submitted: "wallet_reach sha st \<Longrightarrow> wallet_reach sha (wallet_submit get sha part store input st)"
| selected: "wallet_reach sha st \<Longrightarrow> wallet_reach sha (select_row hash st)"

lemma lookupBalance_frame:
  "ws_cache (lookupBalance get a st) = ws_cache st" "ws_address (lookupBalance get a st) = ws_address st"
  "ws_txs (lookupBalance get a st) = ws_txs st" "ws_online (lookupBalance get a st) = ws_online st"
  by (simp_all add: lookupBalance_def split: option.splits)

definition cache_fine :: "wallet_state \<Rightarrow> bool" where
  "cache_fine st \<longleftrightarrow> cache_ok wallet_block_ok (ws_cache st) \<and> distinct (map fst (ws_cache st))"

lemma wallet_inv_offline:
  "cache_ok wallet_block_ok cache \<Longrightarrow> distinct (map fst cache) \<Longrightarrow> wallet_inv (wallet_offline cache st)"
  by (simp add: wallet_inv_def wallet_offline_def)

lemma wallet_feed_parts:
  assumes "wallet_feed get sha cache p = Some (pend, blocks)"
  shows "load_blocks (wallet_load get sha) cache (wp_heights p) = Some blocks"
    "\<forall>tx \<in> set pend. w_pending tx"
  using assms the_all_decode by (auto simp: wallet_feed_def split: bind_splits)

lemma wallet_feed_blocks:
  assumes "wallet_feed get sha cache p = Some (pend, blocks)" "cache_ok wallet_block_ok cache"
  shows "list_all2 wallet_block_ok (wp_heights p) blocks"
  using wallet_source.load_blocks_ok [OF assms(2) wallet_feed_parts(1) [OF assms(1)]] .

lemma feed_block_ok:
  assumes "list_all2 wallet_block_ok hs blocks" "b \<in> set blocks"
  shows "wallet_block_ok (wb_height b) b \<and> wb_height b \<in> set hs"
proof -
  from assms obtain h where "h \<in> set hs" "wallet_block_ok h b"
    by (metis in_set_conv_nth list_all2_conv_all_nth)
  then show ?thesis by (simp add: wallet_block_ok_def)
qed

lemma view_for_set:
  "(k, tx) \<in> set (view_for a txs) \<longleftrightarrow> isIreAddr a \<and> tx \<in> set txs \<and> involves tx a \<and> k = kindFor tx a"
  by (auto simp: view_for_def)

lemma view_for_sorted: "sorted_wrt newer txs \<Longrightarrow> sorted_wrt newer (map snd (view_for a txs))"
  by (simp add: view_for_def comp_def sorted_wrt_filter)

lemma wallet_tick_keeps:
  assumes "cache_fine st"
  shows "wallet_inv (wallet_tick get sha part st)"
proof (cases "wallet_plan_of get")
  case None
  with assms show ?thesis by (simp add: wallet_tick_def wallet_inv_offline cache_fine_def)
next
  case (Some p)
  let ?cache = "evict (wp_min p) (wp_height p) (ws_cache st)"
  have c: "cache_ok wallet_block_ok ?cache"
    using assms by (simp add: cache_fine_def wallet_source.evict_ok)
  have f: "cache_ok wallet_block_ok (fill (wallet_load get sha) q ?cache (wp_heights p))"
    "distinct (map fst (fill (wallet_load get sha) q ?cache (wp_heights p)))" for q
    using wallet_source.fill_ok [OF c] fill_distinct [OF evict_distinct] assms
    by (auto simp: cache_fine_def)
  show ?thesis
  proof (cases "wallet_feed get sha ?cache p")
    case None
    with Some f show ?thesis by (simp add: wallet_tick_def Let_def wallet_inv_offline)
  next
    case (Some r)
    obtain pend blocks where r: "r = (pend, blocks)" by (cases r)
    note feed = Some [unfolded r]
    let ?a = "ws_address st" and ?conf = "confirmed_of blocks"
    let ?st = "wallet_tick get sha part st"
    have st: "ws_txs ?st = view_for ?a (merge_feed pend ?conf)" "ws_address ?st = ?a"
      "ws_windowMin ?st = Some (wp_min p)" "ws_height ?st = Some (wp_height p)" "ws_online ?st"
      "ws_cache ?st = fill (wallet_load get sha) (\<lambda>_. True) ?cache (wp_heights p)"
      using \<open>wallet_plan_of get = Some p\<close> feed
      by (simp_all add: wallet_tick_def Let_def lookupBalance_frame)
    note pend = wallet_feed_parts(2) [OF feed]
    note ok = feed_block_ok [OF wallet_feed_blocks [OF feed c]]
    have conf: "\<not> w_pending tx \<and> wallet_in_window ?st tx" if "tx \<in> set ?conf" for tx
    proof -
      from that obtain b where b: "b \<in> set blocks" "tx \<in> set (wb_txs b)"
        by (auto simp: confirmed_of_set)
      from ok [OF b(1)] b(2) have "w_height tx = Some (wb_height b)" "\<not> w_pending tx"
        "wb_height b \<in> set (wp_heights p)" by (auto simp: wallet_block_ok_def)
      then show ?thesis using heights_from_range by (simp add: wallet_in_window_def st wp_heights_def)
    qed
    have "sorted_wrt newer (merge_feed pend ?conf)"
      using ok pend by (intro merge_feed_sorted confirmed_sorted) auto
    then have "sorted_wrt newer (map snd (ws_txs ?st))" unfolding st by (rule view_for_sorted)
    moreover have split: "w_pending tx \<and> w_hash tx \<notin> w_hash ` set ?conf \<or>
        \<not> w_pending tx \<and> tx \<in> set ?conf" if "(k, tx) \<in> set (ws_txs ?st)" for k tx
      using that pend conf by (auto simp: st view_for_set merge_feed_set)
    moreover have "w_hash tx \<noteq> w_hash ux"
      if "(k, tx) \<in> set (ws_txs ?st)" "(l, ux) \<in> set (ws_txs ?st)" "w_pending tx" "\<not> w_pending ux"
      for k tx l ux
      using split [OF that(1)] split [OF that(2)] that(3,4) by blast
    moreover have "isIreAddr ?a \<and> involves tx ?a \<and> k = kindFor tx ?a \<and>
        (\<not> w_pending tx \<longrightarrow> wallet_in_window ?st tx)" if "(k, tx) \<in> set (ws_txs ?st)" for k tx
      using split [OF that] conf that by (auto simp: st view_for_set)
    ultimately show ?thesis
      unfolding wallet_inv_def case_prod_beta st(2) using f st(5,6) by (metis prod.collapse)
  qed
qed

lemma wallet_inv_cache: "wallet_inv st \<Longrightarrow> cache_fine st"
  by (simp add: wallet_inv_def cache_fine_def)

lemma setAddress_cache: "ws_cache (setAddress store a st) = ws_cache st"
  by (simp add: setAddress_def Let_def)

lemma wallet_inv_submit:
  assumes "wallet_inv st"
  shows "wallet_inv (wallet_submit get sha part store input st)"
proof (cases "trim input \<noteq> [] \<and> \<not> isIreAddr (trim input)")
  case True
  with assms show ?thesis
    by (simp add: wallet_submit_def Let_def wallet_inv_def setAddress_def)
next
  case False
  have "cache_fine (lookupBalance get a ((setAddress store b st)\<lparr>ws_selected := None\<rparr>))" for a b
    using assms by (simp add: cache_fine_def lookupBalance_frame setAddress_cache wallet_inv_def)
  with False show ?thesis by (auto simp: wallet_submit_def Let_def intro: wallet_tick_keeps)
qed

lemma wallet_inv_restore: "wallet_inv (wallet_restore store saved fromQ wallet_start)"
  by (simp add: wallet_restore_def Let_def setAddress_def wallet_start_def wallet_inv_def cache_ok_def)

lemma wallet_inv_reached: "wallet_reach sha st \<Longrightarrow> wallet_inv st"
proof (induction rule: wallet_reach.induct)
  case (polled st get part)
  then show ?case using wallet_inv_cache wallet_tick_keeps by blast
next
  case (submitted st get part store input)
  then show ?case by (simp add: wallet_inv_submit)
next
  case (selected st hash)
  then show ?case by (simp add: wallet_inv_def select_row_def wallet_in_window_def)
qed (rule wallet_inv_restore)

text \<open>
  Property C24: in every state the wallet page can reach by whole polls and submissions,
  whatever the node answers and the user types, each listed transaction involves the valid address shown, carries the kind
  that address sees, and, when confirmed, lies in the announced window; the list is newest
  first with the mempool on top; no transaction is shown both as pending and as confirmed;
  the offline page lists nothing; and the cache holds each block under its own height.
\<close>
theorem wallet_reach_inv: "wallet_reach sha st \<Longrightarrow> wallet_inv st"
  by (rule wallet_inv_reached)

lemma wallet_reach_inv_witness:
  "wallet_inv (wallet_submit (\<lambda>_. None) (\<lambda>_. []) (\<lambda>_. True) True ''ire1'' wallet_start)"
proof (rule wallet_reach_inv)
  have "wallet_restore True [] [] wallet_start = wallet_start" by (simp add: wallet_restore_def trim_def
        trim_left_def trim_right_def)
  then have "wallet_reach (\<lambda>_. []) wallet_start"
    using wallet_reach.opened [of "\<lambda>_. []" True "[]" "[]"] by simp
  then show "wallet_reach (\<lambda>_. [])
      (wallet_submit (\<lambda>_. None) (\<lambda>_. []) (\<lambda>_. True) True ''ire1'' wallet_start)"
    by (rule wallet_reach.submitted)
qed

section \<open>Completeness of the feed\<close>

text \<open>
  Property C31: a poll that succeeds misses nothing.  For every height of the window there is
  a decoded block, every transaction of it that involves the address is listed with its
  kind, and so is every such mempool transaction unless a block of the window already holds
  a transaction with its hash.
\<close>
theorem wallet_tick_complete:
  assumes "wallet_inv st" "isIreAddr (ws_address st)" "wallet_plan_of get = Some p"
    and "wallet_feed get sha (evict (wp_min p) (wp_height p) (ws_cache st)) p = Some (pend, blocks)"
  shows "(\<forall>h \<in> set (wp_heights p). \<exists>b \<in> set blocks. wb_height b = h) \<and>
    (\<forall>b \<in> set blocks. \<forall>tx \<in> set (wb_txs b). involves tx (ws_address st) \<longrightarrow>
       (kindFor tx (ws_address st), tx) \<in> set (ws_txs (wallet_tick get sha part st))) \<and>
    (\<forall>tx \<in> set pend. involves tx (ws_address st) \<longrightarrow>
       (kindFor tx (ws_address st), tx) \<in> set (ws_txs (wallet_tick get sha part st)) \<or>
       (\<exists>b \<in> set blocks. \<exists>ux \<in> set (wb_txs b). w_hash ux = w_hash tx))"
proof -
  have "cache_ok wallet_block_ok (evict (wp_min p) (wp_height p) (ws_cache st))"
    using assms(1) by (simp add: wallet_inv_def wallet_source.evict_ok)
  from wallet_feed_blocks [OF assms(4) this]
  have "\<forall>h \<in> set (wp_heights p). \<exists>b \<in> set blocks. wallet_block_ok h b"
    by (metis in_set_conv_nth list_all2_conv_all_nth)
  then have "\<forall>h \<in> set (wp_heights p). \<exists>b \<in> set blocks. wb_height b = h"
    unfolding wallet_block_ok_def by blast
  moreover have "set (ws_txs (wallet_tick get sha part st)) =
      set (view_for (ws_address st) (merge_feed pend (confirmed_of blocks)))"
    using assms(3,4) by (simp add: wallet_tick_def Let_def)
  ultimately show ?thesis
    using assms(2) by (simp add: view_for_set merge_feed_set confirmed_of_set image_iff) metis
qed

definition demo_status :: json where
  "demo_status = JObj [(''result'', JObj [(''sync_info'', JObj [(''latest_block_height'', JStr ''1'')])])]"

definition demo_block :: json where
  "demo_block = JObj [(''result'', JObj [(''block'',
     JObj [(''header'', JObj [(''time'', JStr ''now'')]), (''data'', JObj [(''txs'', JArr [])])])])]"

definition demo_node :: "string \<Rightarrow> json option" where
  "demo_node path =
     (if path = ''/rpc/status'' then Some demo_status
      else if path = ''/rpc/block?height=1'' then Some demo_block
      else Some (JObj [(''result'', JObj [(''txs'', JArr [JStr ''aXJlLWJldA==''])])]))"

definition demo_address :: string where
  "demo_address = ''ire1'' @ replicate 38 (CHR ''q'')"

lemma wallet_tick_complete_witness:
  "\<exists>p pend b. wallet_plan_of demo_node = Some p \<and>
     wallet_feed demo_node (\<lambda>_. ''ff'') [] p = Some (pend, [b]) \<and> wb_height b = 1"
proof -
  let ?st = "setAddress True demo_address wallet_start"
  define p where "p = \<lparr>wp_height = 1, wp_catchingUp = False,
      wp_mempool = Some (JObj [(''result'', JObj [(''txs'', JArr [JStr ''aXJlLWJldA==''])])])\<rparr>"
  have plan: "wallet_plan_of demo_node = Some p" unfolding p_def by code_simp
  have "map_option (length \<circ> snd) (wallet_feed demo_node (\<lambda>_. ''ff'') [] p) = Some 1"
    unfolding p_def by code_simp
  then obtain pend b where pb: "wallet_feed demo_node (\<lambda>_. ''ff'') [] p = Some (pend, [b])"
    by (auto simp: length_Suc_conv)
  have st: "wallet_inv ?st" "ws_cache ?st = []"
    by (simp_all add: setAddress_def Let_def wallet_start_def wallet_inv_def cache_ok_def)
  have a: "isIreAddr (ws_address ?st)" by code_simp
  have h: "1 \<in> set (wp_heights p)" unfolding p_def by code_simp
  have e: "wallet_feed demo_node (\<lambda>_. ''ff'') (evict (wp_min p) (wp_height p) (ws_cache ?st)) p = Some (pend, [b])"
    using pb by (simp add: st evict_def)
  from wallet_tick_complete [OF st(1) a plan e, of "\<lambda>_. True"] h have "wb_height b = 1" by auto
  with plan pb show ?thesis by blast
qed

section \<open>The send command\<close>

definition send_command :: "string \<Rightarrow> string \<Rightarrow> nat \<Rightarrow> string" where
  "send_command src dest uire = ''ired tx bank send '' @ src @ '' '' @ dest @ '' '' @ dec uire @
     ''uire --chain-id ire-1 --from <key> --gas-prices 0.001uire --home $HOME/.ire --yes''"

lemma js_round_nearest: "\<bar>of_int (js_round r) - r\<bar> \<le> 1 / 2"
  unfolding js_round_def by linarith

lemma js_round_nonneg: "0 < r \<Longrightarrow> 0 \<le> js_round r"
  by (simp add: js_round_def)



text \<open>An amount below half a uire passes the form's checks and sends nothing.\<close>

lemma wallet_send_dust:
  assumes "ireOk (ws_address st)" "ireOk (trim toField)"
    and "str_number (trim amtField) = Fin n" "0 < n" "n < 1 / 2000000"
  shows "wallet_send st toField amtField = Inr (send_command (ws_address st) (trim toField) 0)"
proof -
  have "js_round (n * 1000000) = 0" unfolding js_round_def using assms(4,5) by linarith
  with assms show ?thesis
    by (simp add: wallet_send_def Let_def send_command_def int_str_def)
qed

end
