(* ===== verification/Map_Pool.thy ===== *)
theory Map_Pool
  imports Main
begin

text \<open>
  \<open>mapPool(items, limit, fn)\<close> of wallet.js and markets.js: a fixed number of workers
  share a counter and an output array.  Workers are asynchronous, so a run is any
  interleaving of three kinds of step: a worker takes the next index, a worker's call
  returns (or throws), a worker finds the counter at the end and stops.  The call's value
  for an index is \<open>fn\<close>, \<open>None\<close> when it throws; \<open>Promise.all\<close> resolves once every
  worker has stopped and rejects when one has thrown.
\<close>

datatype worker = Ready | Busy nat | Stopped | Thrown

record 'b pool =
  pool_next :: nat
  pool_out :: "'b option list"
  pool_workers :: "worker list"

definition pool_size :: "nat \<Rightarrow> 'a list \<Rightarrow> nat" where
  "pool_size limit items = (let n = min limit (length items) in if n = 0 then 1 else n)"

definition pool_start :: "nat \<Rightarrow> 'a list \<Rightarrow> 'b pool" where
  "pool_start limit items =
     \<lparr>pool_next = 0, pool_out = replicate (length items) None,
      pool_workers = replicate (pool_size limit items) Ready\<rparr>"

inductive pool_step :: "'a list \<Rightarrow> ('a \<Rightarrow> nat \<Rightarrow> 'b option) \<Rightarrow> 'b pool \<Rightarrow> 'b pool \<Rightarrow> bool"
  for items fn where
  take_item: "w < length (pool_workers s) \<Longrightarrow> pool_workers s ! w = Ready \<Longrightarrow>
     pool_next s < length items \<Longrightarrow>
     pool_step items fn s (s\<lparr>pool_next := Suc (pool_next s),
       pool_workers := (pool_workers s)[w := Busy (pool_next s)]\<rparr>)"
| store_result: "w < length (pool_workers s) \<Longrightarrow> pool_workers s ! w = Busy i \<Longrightarrow>
     fn (items ! i) i = Some v \<Longrightarrow>
     pool_step items fn s (s\<lparr>pool_out := (pool_out s)[i := Some v],
       pool_workers := (pool_workers s)[w := Ready]\<rparr>)"
| call_throws: "w < length (pool_workers s) \<Longrightarrow> pool_workers s ! w = Busy i \<Longrightarrow>
     fn (items ! i) i = None \<Longrightarrow>
     pool_step items fn s (s\<lparr>pool_workers := (pool_workers s)[w := Thrown]\<rparr>)"
| stop: "w < length (pool_workers s) \<Longrightarrow> pool_workers s ! w = Ready \<Longrightarrow>
     \<not> pool_next s < length items \<Longrightarrow>
     pool_step items fn s (s\<lparr>pool_workers := (pool_workers s)[w := Stopped]\<rparr>)"

inductive_cases pool_stepE: "pool_step items fn s t"

definition pool_resolved :: "'b pool \<Rightarrow> bool" where
  "pool_resolved s \<longleftrightarrow> list_all (\<lambda>w. w = Stopped) (pool_workers s)"

definition pool_rejected :: "'b pool \<Rightarrow> bool" where
  "pool_rejected s \<longleftrightarrow> list_ex (\<lambda>w. w = Thrown) (pool_workers s)"

inductive pool_reach :: "nat \<Rightarrow> 'a list \<Rightarrow> ('a \<Rightarrow> nat \<Rightarrow> 'b option) \<Rightarrow> 'b pool \<Rightarrow> bool"
  for limit items fn where
  reach_start: "pool_reach limit items fn (pool_start limit items)"
| reach_step: "pool_reach limit items fn s \<Longrightarrow> pool_step items fn s t \<Longrightarrow> pool_reach limit items fn t"

section \<open>The invariant\<close>

text \<open>
  Every index below the counter is stored, in flight, or was thrown on; what is stored is
  the call's value; indices in flight are below the counter and held by one worker each.
\<close>

definition pool_inv :: "'a list \<Rightarrow> ('a \<Rightarrow> nat \<Rightarrow> 'b option) \<Rightarrow> 'b pool \<Rightarrow> bool" where
  "pool_inv items fn s \<longleftrightarrow>
     length (pool_out s) = length items \<and>
     pool_next s \<le> length items \<and>
     (\<forall>i < length items. pool_out s ! i = None \<or> pool_out s ! i = fn (items ! i) i) \<and>
     (\<forall>i. Busy i \<in> set (pool_workers s) \<longrightarrow> i < pool_next s) \<and>
     (Thrown \<in> set (pool_workers s) \<or>
        (\<forall>i < pool_next s. pool_out s ! i \<noteq> None \<or> Busy i \<in> set (pool_workers s))) \<and>
     (Stopped \<in> set (pool_workers s) \<longrightarrow> pool_next s = length items)"

lemma in_set_update:
  "x \<in> set (xs[w := y]) \<Longrightarrow> x = y \<or> x \<in> set xs"
  using set_update_subset_insert by fastforce

lemma in_set_update_other:
  assumes "x \<in> set xs" and "w < length xs" and "xs ! w \<noteq> x"
  shows "x \<in> set (xs[w := y])"
  using assms by (metis in_set_conv_nth length_list_update nth_list_update_neq)

lemma pool_inv_start: "pool_inv items fn (pool_start limit items)"
  by (auto simp: pool_inv_def pool_start_def)

lemma pool_inv_step:
  assumes "pool_step items fn s t" and inv: "pool_inv items fn s"
  shows "pool_inv items fn t"
  using assms(1)
proof cases
  case (take_item w)
  let ?ws = "pool_workers s"
  have t_ws: "pool_workers t = ?ws[w := Busy (pool_next s)]" using take_item by simp
  have busy: "Busy (pool_next s) \<in> set (pool_workers t)"
    unfolding t_ws using take_item by (simp add: set_update_memI)
  have keep: "x \<in> set (pool_workers t)" if "x \<in> set ?ws" "x \<noteq> Ready" for x
    unfolding t_ws using that take_item by (intro in_set_update_other) auto
  show ?thesis
    using inv take_item busy keep unfolding pool_inv_def
    by (auto simp: less_Suc_eq dest!: in_set_update)
next
  case (store_result w i v)
  let ?ws = "pool_workers s"
  have t_ws: "pool_workers t = ?ws[w := Ready]" using store_result by simp
  have keep: "x \<in> set (pool_workers t)" if "x \<in> set ?ws" "x \<noteq> Busy i" for x
    unfolding t_ws using that store_result by (intro in_set_update_other) auto
  have i: "i < pool_next s"
    using inv store_result nth_mem unfolding pool_inv_def by metis
  show ?thesis
    using inv store_result keep i unfolding pool_inv_def
    by (auto simp: nth_list_update dest!: in_set_update)
next
  case (call_throws w i)
  have "Thrown \<in> set (pool_workers t)"
    using call_throws by (simp add: set_update_memI)
  then show ?thesis
    using inv call_throws unfolding pool_inv_def by (auto dest!: in_set_update)
next
  case (stop w)
  let ?ws = "pool_workers s"
  have t_ws: "pool_workers t = ?ws[w := Stopped]" using stop by simp
  have keep: "x \<in> set (pool_workers t)" if "x \<in> set ?ws" "x \<noteq> Ready" for x
    unfolding t_ws using that stop by (intro in_set_update_other) auto
  show ?thesis
    using inv stop keep unfolding pool_inv_def by (auto dest!: in_set_update)
qed

lemma pool_reach_inv: "pool_reach limit items fn s \<Longrightarrow> pool_inv items fn s"
  by (induction rule: pool_reach.induct) (auto intro: pool_inv_start pool_inv_step)

lemma pool_step_workers: "pool_step items fn s t \<Longrightarrow> length (pool_workers t) = length (pool_workers s)"
  by (induction rule: pool_step.induct) auto

lemma pool_reach_workers:
  "pool_reach limit items fn s \<Longrightarrow> length (pool_workers s) = pool_size limit items"
  by (induction rule: pool_reach.induct) (auto simp: pool_start_def dest: pool_step_workers)

lemma pool_size_pos: "0 < pool_size limit items"
  by (auto simp: pool_size_def Let_def)

section \<open>The result of a resolved pool\<close>

lemma pool_resolved_stored:
  assumes reach: "pool_reach limit items fn s" and resolved: "pool_resolved s" and i: "i < length items"
  shows "pool_out s ! i = fn (items ! i) i \<and> fn (items ! i) i \<noteq> None"
proof -
  have inv: "pool_inv items fn s" using pool_reach_inv [OF reach] .
  have all: "\<And>x. x \<in> set (pool_workers s) \<Longrightarrow> x = Stopped"
    using resolved by (auto simp: pool_resolved_def list_all_iff)
  have "pool_workers s \<noteq> []"
    using pool_reach_workers [OF reach] pool_size_pos [of limit items] by auto
  with all have "Stopped \<in> set (pool_workers s)" by (metis last_in_set)
  with inv i have "i < pool_next s" by (simp add: pool_inv_def)
  moreover have "Thrown \<notin> set (pool_workers s)" "Busy i \<notin> set (pool_workers s)" using all by auto
  ultimately have "pool_out s ! i \<noteq> None" using inv by (auto simp: pool_inv_def)
  with inv i show ?thesis by (auto simp: pool_inv_def)
qed

lemma pool_resolved_result:
  assumes reach: "pool_reach limit items fn s" and resolved: "pool_resolved s"
  shows "pool_out s = map (\<lambda>i. fn (items ! i) i) [0..<length items]"
proof (rule nth_equalityI)
  show "length (pool_out s) = length (map (\<lambda>i. fn (items ! i) i) [0..<length items])"
    using pool_reach_inv [OF reach] by (simp add: pool_inv_def)
  then show "pool_out s ! i = map (\<lambda>i. fn (items ! i) i) [0..<length items] ! i"
    if "i < length (pool_out s)" for i
    using pool_resolved_stored [OF assms] that by simp
qed

section \<open>Runs end\<close>

definition worker_work :: "worker \<Rightarrow> nat" where
  "worker_work w = (case w of Ready \<Rightarrow> 1 | Busy _ \<Rightarrow> 2 | Stopped \<Rightarrow> 0 | Thrown \<Rightarrow> 0)"

definition pool_work :: "'a list \<Rightarrow> 'b pool \<Rightarrow> nat" where
  "pool_work items s = 2 * (length items - pool_next s) + sum_list (map worker_work (pool_workers s))"

lemma sum_list_update_work:
  assumes "w < length ws"
  shows "sum_list (map worker_work (ws[w := x])) + worker_work (ws ! w) =
    sum_list (map worker_work ws) + worker_work x"
  using assms
proof (induction ws arbitrary: w)
  case Nil
  then show ?case by simp
next
  case (Cons v ws)
  then show ?case by (cases w) auto
qed

lemma pool_step_work:
  assumes "pool_step items fn s t"
  shows "pool_work items t < pool_work items s"
  using assms
proof cases
  case (take_item w)
  then show ?thesis
    using sum_list_update_work [of w "pool_workers s" "Busy (pool_next s)"]
    by (simp add: pool_work_def worker_work_def)
next
  case (store_result w i v)
  then show ?thesis
    using sum_list_update_work [of w "pool_workers s" Ready]
    by (simp add: pool_work_def worker_work_def)
next
  case (call_throws w i)
  then show ?thesis
    using sum_list_update_work [of w "pool_workers s" Thrown]
    by (simp add: pool_work_def worker_work_def)
next
  case (stop w)
  then show ?thesis
    using sum_list_update_work [of w "pool_workers s" Stopped]
    by (simp add: pool_work_def worker_work_def)
qed

lemma pool_progress:
  assumes "pool_inv items fn s"
  shows "pool_resolved s \<or> pool_rejected s \<or> (\<exists>t. pool_step items fn s t)"
proof (rule ccontr)
  assume stuck: "\<not> ?thesis"
  then obtain w where w: "w < length (pool_workers s)"
      "pool_workers s ! w \<noteq> Stopped" "pool_workers s ! w \<noteq> Thrown"
    by (auto simp: pool_resolved_def pool_rejected_def list_all_length list_ex_length)
  then consider "pool_workers s ! w = Ready" | i where "pool_workers s ! w = Busy i"
    by (cases "pool_workers s ! w") auto
  then show False
  proof cases
    case 1
    with stuck w show False by (metis pool_step.take_item pool_step.stop)
  next
    case 2
    with stuck w show False
      by (cases "fn (items ! i) i") (metis pool_step.call_throws, metis pool_step.store_result)
  qed
qed

end
