(* ===== verification/Html.thy ===== *)
theory Html
  imports Display
begin

text \<open>
  Pieces of HTML and SVG text shared by the pages that build their markup as strings: an
  attribute, the escaping of the brokers' pages (five characters, in brokers.js as five
  \<open>replace\<close> calls and in render.js as one pass with a table), and a count of the tags in a
  text, with which the pages state that data adds no markup.
\<close>

definition attr :: "string \<Rightarrow> string \<Rightarrow> string" where
  "attr name v = '' '' @ name @ ''='' @ [dq] @ v @ [dq]"

section \<open>Escaping five characters\<close>

definition apos :: char where "apos = CHR 0x27"

definition bk_escapeHtml :: "string \<Rightarrow> string" where
  "bk_escapeHtml s =
     replace_char apos ''&#39;'' (replace_char dq ''&quot;'' (replace_char (CHR ''>'') ''&gt;''
       (replace_char (CHR ''<'') ''&lt;'' (replace_char (CHR ''&'') ''&amp;'' s))))"

definition esc_char :: "char \<Rightarrow> string" where
  "esc_char c =
     (if c = CHR ''&'' then ''&amp;''
      else if c = CHR ''<'' then ''&lt;''
      else if c = CHR ''>'' then ''&gt;''
      else if c = dq then ''&quot;''
      else if c = apos then ''&#39;''
      else [c])"

definition esc :: "string \<Rightarrow> string" where "esc s = concat (map esc_char s)"

lemma replace_char_append: "replace_char c r (s @ t) = replace_char c r s @ replace_char c r t"
  by (simp add: replace_char_def)

lemma bk_escapeHtml_Cons: "bk_escapeHtml (c # s) = bk_escapeHtml [c] @ bk_escapeHtml s"
  using replace_char_append [of "CHR ''&''" "''&amp;''" "[c]" s]
  by (simp add: bk_escapeHtml_def replace_char_append)

lemma bk_escapeHtml_single: "bk_escapeHtml [c] = esc_char c"
  by (auto simp: bk_escapeHtml_def esc_char_def replace_char_def dq_def apos_def)

lemma bk_escapeHtml_esc: "bk_escapeHtml s = esc s"
proof (induction s)
  case Nil
  then show ?case by (simp add: bk_escapeHtml_def esc_def replace_char_def)
next
  case (Cons c s)
  then show ?case by (subst bk_escapeHtml_Cons) (simp add: bk_escapeHtml_single esc_def)
qed

lemma esc_char_safe: "c \<in> set (esc_char d) \<Longrightarrow> c \<noteq> CHR ''<'' \<and> c \<noteq> CHR ''>'' \<and> c \<noteq> dq \<and> c \<noteq> apos"
  by (auto simp: esc_char_def dq_def apos_def split: if_splits)

lemma esc_safe: "c \<in> set (esc s) \<Longrightarrow> c \<noteq> CHR ''<'' \<and> c \<noteq> CHR ''>'' \<and> c \<noteq> dq \<and> c \<noteq> apos"
  unfolding esc_def using esc_char_safe by fastforce

section \<open>Counting tags\<close>

definition tags :: "string \<Rightarrow> nat" where "tags s = length (filter (\<lambda>c. c = CHR ''<'') s)"

named_theorems tag_count \<open>counting the tags of a text\<close>

lemma tags_Nil [tag_count, simp]: "tags [] = 0"
  by (simp add: tags_def)

lemma tags_append [tag_count, simp]: "tags (s @ t) = tags s + tags t"
  by (simp add: tags_def)

lemma tags_Cons [tag_count, simp]: "tags (c # s) = (if c = CHR ''<'' then 1 else 0) + tags s"
  by (simp add: tags_def)

lemma tags_concat [tag_count]: "tags (concat ss) = sum_list (map tags ss)"
  by (induction ss) (simp_all add: tags_def)

lemma tags_0: "CHR ''<'' \<notin> set s \<Longrightarrow> tags s = 0"
  by (auto simp: tags_def filter_empty_conv)

lemma tags_esc [tag_count, simp]: "tags (esc s) = 0"
  by (rule tags_0) (auto dest: esc_safe)

lemma tags_escape [tag_count, simp]: "tags (bk_escapeHtml s) = 0"
  by (simp add: bk_escapeHtml_esc)

lemma tags_escapeHtml [tag_count, simp]: "tags (escapeHtml s) = 0"
  by (rule tags_0) (auto dest: escapeHtml_chars)

lemma tags_dec [tag_count, simp]: "tags (dec n) = 0"
  by (rule tags_0) (auto dest!: dec_digits simp: is_digit_def in_range_def)

lemma tags_attr [tag_count, simp]: "tags (attr n v) = tags n + tags v"
  by (simp add: attr_def dq_def)

lemma tags_marks [tag_count, simp]: "tags mid_dot = 0" "tags en_dash = 0" "tags em_dash = 0" "tags ellipsis = 0"
  by (simp_all add: mid_dot_def en_dash_def em_dash_def ellipsis_def)

end
