(* ===== verification/Mempool.thy ===== *)
theory Mempool
  imports Memo Block_Cache Html "HOL-Library.Monad_Syntax"
begin

text \<open>
  site/assets/mempool.js: the live mempool and the last ten blocks as coloured cubes.  The
  page keeps the blocks it has shown, reuses them by height, and marks those that appeared
  since the last poll.  \<open>clock\<close> is \<open>Date\<close>: the local time and the age in milliseconds of a
  timestamp, \<open>None\<close> when it does not parse.  A block meta whose height is not a finite
  number makes the poll fail here, as the request for such a block does.
\<close>

definition MP_WINDOW :: nat where "MP_WINDOW = 10"
definition MP_LIMIT :: nat where "MP_LIMIT = 30"

section \<open>Transactions\<close>

datatype mp_kind = Inscription_kind | Bank_kind | Other_kind

record mtx =
  m_hash :: string
  m_kind :: mp_kind
  m_urls :: "string list"
  m_inscription :: "inscription option"
  m_ids :: "string list"
  m_size :: nat
  m_rpcHeight :: jval
  m_rpcCode :: jval

definition classify :: "string \<Rightarrow> inscription option \<Rightarrow> mp_kind" where
  "classify ascii ins =
     (if ins \<noteq> None then Inscription_kind
      else if str_includes ascii ''cosmos.bank.v1beta1.MsgSend'' \<or>
        str_includes ascii ''cosmos.bank.v1beta1.MsgMultiSend'' then Bank_kind
      else Other_kind)"

definition inscriptionIds :: "string \<Rightarrow> string list \<Rightarrow> string list" where
  "inscriptionIds hash urls = map (\<lambda>i. hash @ ''i'' @ dec i) [0..<max 1 (length urls)]"

definition mp_decodeTx :: "(byte list \<Rightarrow> string) \<Rightarrow> jval \<Rightarrow> mtx option" where
  "mp_decodeTx sha tx =
     (case bytesFromRpcTx tx of
        None \<Rightarrow> None
      | Some bytes \<Rightarrow>
          (let hash = sha bytes; ascii = asciiFromBytes bytes;
               ins = parseInscription ascii; urls = messageUrls ascii in
           Some \<lparr>m_hash = hash, m_kind = classify ascii ins, m_urls = urls, m_inscription = ins,
                 m_ids = inscriptionIds hash urls, m_size = length bytes,
                 m_rpcHeight = None, m_rpcCode = None\<rparr>))"

section \<open>Blocks and the page\<close>

record mblock =
  mblk_height :: jsnum
  mblk_time :: jval
  mblk_hash :: jval
  mblk_txs :: "mtx list"
  mblk_fresh :: bool

datatype selection = No_selection | Sel_block mblock | Sel_tx mtx "jsnum option"

record mempool_state =
  mp_online :: bool
  mp_height :: "rat option"
  mp_catchingUp :: bool
  mp_unconfirmed :: "mtx list"
  mp_blocks :: "mblock list"
  mp_supply :: jval
  mp_validators :: nat
  mp_pendingTotal :: "jsnum option"
  mp_seen :: "string set"
  mp_selected :: selection
  mp_wellHtml :: string
  mp_blocksHtml :: string

section \<open>Rendering\<close>

definition kind_name :: "mp_kind \<Rightarrow> string" where
  "kind_name k = (case k of Inscription_kind \<Rightarrow> ''inscription'' | Bank_kind \<Rightarrow> ''bank'' | Other_kind \<Rightarrow> ''other'')"

definition mp_kindLabel :: "mp_kind \<Rightarrow> string" where
  "mp_kindLabel k = (case k of Inscription_kind \<Rightarrow> ''Inscription'' | Bank_kind \<Rightarrow> ''Bank / token send''
     | Other_kind \<Rightarrow> ''Staking / other'')"

definition selected_hash :: "selection \<Rightarrow> string option" where
  "selected_hash s =
     (case s of Sel_tx t _ \<Rightarrow> Some (m_hash t) | Sel_block b \<Rightarrow> as_str (mblk_hash b) | _ \<Rightarrow> None)"

definition block_is_on :: "selection \<Rightarrow> mblock \<Rightarrow> bool" where
  "block_is_on s b =
     (case s of Sel_tx t (Some h) \<Rightarrow> h = mblk_height b \<and> h \<noteq> NaN \<and> m_hash t = [] | _ \<Rightarrow> False)"

definition cubeButton :: "selection \<Rightarrow> mtx \<Rightarrow> string \<Rightarrow> string" where
  "cubeButton sel tx extra =
     (let i = (case m_ids tx of [] \<Rightarrow> m_hash tx @ ''i0'' | x # _ \<Rightarrow> or_str x (m_hash tx @ ''i0''));
          title = (if m_kind tx = Inscription_kind then i @ '' '' @ mid_dot @ '' '' else []) @ take 12 (m_hash tx)
      in ''<button'' @ attr ''type'' ''button'' @
         attr ''class'' (''mp-cube mp-cube--'' @ kind_name (m_kind tx) @
           (if extra \<noteq> [] then '' '' @ extra else []) @
           (if selected_hash sel = Some (m_hash tx) then '' is-on'' else [])) @
         attr ''data-hash'' (escapeHtml (m_hash tx)) @ attr ''title'' (escapeHtml title) @ ''></button>'')"

definition mp_fmtTime :: "(json \<Rightarrow> (string \<times> int) option) \<Rightarrow> jval \<Rightarrow> string" where
  "mp_fmtTime clock t =
     (case or_else t None of
        None \<Rightarrow> em_dash
      | Some stamp \<Rightarrow> (case clock stamp of None \<Rightarrow> em_dash | Some (local, _) \<Rightarrow> local))"

definition mp_ago :: "(json \<Rightarrow> (string \<times> int) option) \<Rightarrow> jval \<Rightarrow> string" where
  "mp_ago clock t =
     (case or_else t None of
        None \<Rightarrow> []
      | Some stamp \<Rightarrow> (case clock stamp of None \<Rightarrow> ''NaNh ago'' | Some (_, ms) \<Rightarrow> ago_text ms))"

definition well_html :: "mempool_state \<Rightarrow> string" where
  "well_html st =
     (if mp_unconfirmed st = [] then []
      else concat (map (\<lambda>tx. cubeButton (mp_selected st) tx
        (if m_hash tx \<in> mp_seen st then ''mp-cube--static'' else ''mp-cube--enter'')) (mp_unconfirmed st)))"

definition height_text :: "jsnum \<Rightarrow> string" where
  "height_text n = (case n of Fin r \<Rightarrow> locale_int r | _ \<Rightarrow> num_str n)"

definition block_html :: "(json \<Rightarrow> (string \<times> int) option) \<Rightarrow> selection \<Rightarrow> mblock \<Rightarrow> string" where
  "block_html clock sel b =
     (let empty = (mblk_txs b = []); n = length (mblk_txs b);
          cubes = concat (map (\<lambda>tx. cubeButton sel tx ''mp-cube--static'') (take 16 (mblk_txs b)));
          extra = (if n > 16 then ''<span'' @ attr ''class'' ''mp-block-meta'' @ ''>+'' @ dec (n - 16) @ ''</span>'' else [])
      in ''<article'' @ attr ''class'' (''mp-block'' @ (if empty then '' mp-block--empty'' else []) @
           (if mblk_fresh b then '' mp-block--new'' else []) @
           (if block_is_on sel b then '' is-on'' else [])) @
         attr ''data-height'' (num_str (mblk_height b)) @ ''>'' @
         ''<div'' @ attr ''class'' ''mp-block-h'' @ ''>#'' @ height_text (mblk_height b) @ ''</div>'' @
         ''<div'' @ attr ''class'' ''mp-block-meta'' @ ''>'' @ escapeHtml (mp_fmtTime clock (mblk_time b)) @ ''<br>'' @
         (if empty then ''empty'' else dec n @ '' tx'') @
         (if truthy (mblk_time b) then ''<br>'' @ escapeHtml (mp_ago clock (mblk_time b)) else []) @ ''</div>'' @
         (if empty then ''<div'' @ attr ''class'' ''mp-block-empty-mark'' @ ''>ash</div>''
          else ''<div'' @ attr ''class'' ''mp-block-txs'' @ ''>'' @ cubes @ extra @ ''</div>'') @
         ''</article>'')"

definition blocks_html :: "(json \<Rightarrow> (string \<times> int) option) \<Rightarrow> mempool_state \<Rightarrow> string" where
  "blocks_html clock st =
     (if mp_blocks st = []
      then ''<p'' @ attr ''class'' ''mp-placeholder'' @ ''>'' @
        (if mp_online st then ''No blocks yet.'' else ''OFFLINE'') @ ''</p>''
      else concat (map (block_html clock (mp_selected st)) (mp_blocks st)))"

text \<open>\<open>renderWell\<close> and \<open>renderBlocks\<close>; the latter clears the marks it has shown.\<close>

definition mp_render :: "(json \<Rightarrow> (string \<times> int) option) \<Rightarrow> mempool_state \<Rightarrow> mempool_state" where
  "mp_render clock st =
     st\<lparr>mp_wellHtml := well_html st, mp_blocksHtml := blocks_html clock st,
        mp_blocks := map (\<lambda>b. b\<lparr>mblk_fresh := False\<rparr>) (mp_blocks st)\<rparr>"

section \<open>Looking up a cube\<close>

definition findTx :: "string \<Rightarrow> mempool_state \<Rightarrow> (mtx \<times> jsnum option) option" where
  "findTx hash st =
     (case find (\<lambda>t. m_hash t = hash) (mp_unconfirmed st) of
        Some t \<Rightarrow> Some (t, None)
      | None \<Rightarrow>
          (case concat (map (\<lambda>b. map (\<lambda>t. (t, Some (mblk_height b)))
              (case find (\<lambda>t. m_hash t = hash) (mblk_txs b) of Some t \<Rightarrow> [t] | None \<Rightarrow> [])) (mp_blocks st)) of
             [] \<Rightarrow> None
           | r # _ \<Rightarrow> Some r))"

definition enrichTx :: "(string \<Rightarrow> json option) \<Rightarrow> mtx \<Rightarrow> mtx" where
  "enrichTx get tx =
     (case get (''/rpc/tx?hash=0x'' @ m_hash tx) \<bind> (\<lambda>d. dot (Some d) ''result'') of
        None \<Rightarrow> tx
      | Some r \<Rightarrow>
          (let result = or_else r (Some (JObj [])); res = fld result ''tx_result'' in
           tx\<lparr>m_rpcHeight := fld result ''height'', m_rpcCode := and_then res (fld res ''code'')\<rparr>))"

text \<open>A pending transaction is enriched in place; one of a block is a copy.\<close>

definition click_cube :: "(string \<Rightarrow> json option) \<Rightarrow> string \<Rightarrow> mempool_state \<Rightarrow> mempool_state" where
  "click_cube get hash st =
     (case findTx hash st of
        None \<Rightarrow> st
      | Some (t, h) \<Rightarrow>
          st\<lparr>mp_selected := Sel_tx (enrichTx get t) h,
             mp_unconfirmed :=
               (if h = None
                then (mp_unconfirmed st)
                  [length (takeWhile (\<lambda>u. m_hash u \<noteq> hash) (mp_unconfirmed st)) := enrichTx get t]
                else mp_unconfirmed st)\<rparr>)"

definition click_block :: "jsnum \<Rightarrow> mempool_state \<Rightarrow> mempool_state" where
  "click_block height st =
     (case find (\<lambda>b. mblk_height b = height \<and> height \<noteq> NaN) (mp_blocks st) of
        None \<Rightarrow> st
      | Some b \<Rightarrow> st\<lparr>mp_selected := Sel_block b\<rparr>)"

section \<open>One poll\<close>

definition json_array :: "jval \<Rightarrow> json list option" where
  "json_array v = (case v of Some (JArr js) \<Rightarrow> Some js | _ \<Rightarrow> None)"

definition mp_loadBlock ::
  "(string \<Rightarrow> json option) \<Rightarrow> (byte list \<Rightarrow> string) \<Rightarrow> rat \<Rightarrow> mblock option" where
  "mp_loadBlock get sha h = do {
     data \<leftarrow> get (block_path h);
     result \<leftarrow> dot (Some data) ''result'';
     block \<leftarrow> dot result ''block'';
     header \<leftarrow> dot block ''header'';
     bdata \<leftarrow> dot block ''data'';
     txsv \<leftarrow> dot bdata ''txs'';
     raws \<leftarrow> json_array (or_empty txsv);
     txs \<leftarrow> the_all (map (mp_decodeTx sha \<circ> Some) raws);
     height \<leftarrow> dot header ''height'';
     Some \<lparr>mblk_height = to_number height, mblk_time = fld header ''time'',
           mblk_hash = and_then (fld result ''block_id'') (fld_path result [''block_id'', ''hash'']),
           mblk_txs = txs, mblk_fresh = False\<rparr> }"

definition meta_number :: "json \<Rightarrow> rat option" where
  "meta_number m = do {
     header \<leftarrow> dot (Some m) ''header'';
     height \<leftarrow> dot header ''height'';
     (case to_number height of Fin r \<Rightarrow> Some r | _ \<Rightarrow> None) }"

text \<open>\<open>new Map(blocks.map((b) => [b.height, b]))\<close>: the last block of a height wins.\<close>

definition block_for ::
  "(string \<Rightarrow> json option) \<Rightarrow> (byte list \<Rightarrow> string) \<Rightarrow> mempool_state \<Rightarrow> rat \<Rightarrow> mblock option" where
  "block_for get sha st h =
     (case find (\<lambda>b. mblk_height b = Fin h) (rev (mp_blocks st)) of
        Some b \<Rightarrow> Some (b\<lparr>mblk_fresh := False\<rparr>)
      | None \<Rightarrow>
          map_option (\<lambda>b. b\<lparr>mblk_fresh := (case mp_height st of None \<Rightarrow> False | Some p \<Rightarrow> h > p)\<rparr>)
            (mp_loadBlock get sha h))"

record mp_poll =
  pl_height :: rat
  pl_catchingUp :: bool
  pl_unconfirmed :: "mtx list"
  pl_heights :: "rat list"
  pl_supply :: jval
  pl_validators :: nat
  pl_pendingTotal :: jsnum

definition js_length :: "jval \<Rightarrow> nat" where
  "js_length v = (case v of Some (JArr js) \<Rightarrow> length js | Some (JStr s) \<Rightarrow> length s | _ \<Rightarrow> 0)"

text \<open>The requests, in the order their answers are used; any failure fails the poll.\<close>

definition mp_sync :: "(string \<Rightarrow> json option) \<Rightarrow> (rat \<times> bool) option" where
  "mp_sync get = do {
     status \<leftarrow> get ''/rpc/status'';
     result \<leftarrow> dot (Some status) ''result'';
     sync \<leftarrow> dot result ''sync_info'';
     latest \<leftarrow> dot sync ''latest_block_height'';
     (case to_number latest of
        Fin r \<Rightarrow> if r < 1 then None else Some (r, truthy (fld sync ''catching_up'')) | _ \<Rightarrow> None) }"

definition mp_pending :: "(string \<Rightarrow> json option) \<Rightarrow> (byte list \<Rightarrow> string) \<Rightarrow> mtx list option" where
  "mp_pending get sha = do {
     mempool \<leftarrow> get (''/rpc/unconfirmed_txs?limit='' @ dec MP_LIMIT);
     result \<leftarrow> dot (Some mempool) ''result'';
     txs \<leftarrow> dot result ''txs'';
     raws \<leftarrow> json_array (or_empty txs);
     the_all (map (mp_decodeTx sha \<circ> Some) raws) }"

definition mp_meta_numbers :: "(string \<Rightarrow> json option) \<Rightarrow> rat \<Rightarrow> rat list option" where
  "mp_meta_numbers get height = do {
     let minH = window_min MP_WINDOW height;
     chain \<leftarrow> get (''/rpc/blockchain?minHeight='' @ num_str (Fin minH) @ ''&maxHeight='' @ num_str (Fin height));
     result \<leftarrow> dot (Some chain) ''result'';
     metav \<leftarrow> dot result ''block_metas'';
     metas \<leftarrow> json_array (or_empty metav);
     the_all (map meta_number metas) }"

definition mp_metas :: "(string \<Rightarrow> json option) \<Rightarrow> rat \<Rightarrow> rat list option" where
  "mp_metas get height = map_option (sort_key (\<lambda>h. - h)) (mp_meta_numbers get height)"

definition mp_counts :: "(string \<Rightarrow> json option) \<Rightarrow> nat \<Rightarrow> (jval \<times> nat \<times> jsnum) option" where
  "mp_counts get pending = do {
     num \<leftarrow> get ''/rpc/num_unconfirmed_txs'';
     supply \<leftarrow> get ''/api/cosmos/bank/v1beta1/supply/by_denom?denom=uire'';
     validators \<leftarrow> get ''/api/cosmos/staking/v1beta1/validators?status=BOND_STATUS_BONDED'';
     amount \<leftarrow> dot (Some supply) ''amount'';
     vals \<leftarrow> dot (Some validators) ''validators'';
     result \<leftarrow> dot (Some num) ''result'';
     ntxs \<leftarrow> dot result ''n_txs'';
     Some (and_then amount (fld amount ''amount''), js_length (or_empty vals),
           if nullish ntxs then Fin (of_nat pending) else to_number ntxs) }"

definition mp_request ::
  "(string \<Rightarrow> json option) \<Rightarrow> (byte list \<Rightarrow> string) \<Rightarrow> mp_poll option" where
  "mp_request get sha = do {
     (height, catching) \<leftarrow> mp_sync get;
     unconfirmed \<leftarrow> mp_pending get sha;
     hs \<leftarrow> mp_metas get height;
     (supply, validators, total) \<leftarrow> mp_counts get (length unconfirmed);
     Some \<lparr>pl_height = height, pl_catchingUp = catching, pl_unconfirmed = unconfirmed,
           pl_heights = hs, pl_supply = supply, pl_validators = validators, pl_pendingTotal = total\<rparr> }"

definition mempool_tick ::
  "(string \<Rightarrow> json option) \<Rightarrow> (byte list \<Rightarrow> string) \<Rightarrow> (json \<Rightarrow> (string \<times> int) option) \<Rightarrow>
   mempool_state \<Rightarrow> mempool_state" where
  "mempool_tick get sha clock st =
     (case (do {
        p \<leftarrow> mp_request get sha;
        blocks \<leftarrow> the_all (map (block_for get sha st) (pl_heights p));
        Some (p, blocks) }) of
        None \<Rightarrow> mp_render clock (st\<lparr>mp_online := False\<rparr>)
      | Some (p, blocks) \<Rightarrow>
          (mp_render clock (st\<lparr>mp_online := True, mp_height := Some (pl_height p),
             mp_catchingUp := pl_catchingUp p, mp_unconfirmed := pl_unconfirmed p, mp_blocks := blocks,
             mp_supply := pl_supply p, mp_validators := pl_validators p,
             mp_pendingTotal := Some (pl_pendingTotal p)\<rparr>))
            \<lparr>mp_seen := m_hash ` set (pl_unconfirmed p)\<rparr>)"

section \<open>Inscription identifiers\<close>

text \<open>
  A transaction has one identifier per message and at least one; they are the
  hash, the letter i and the message's index, and no two are the same.
\<close>
theorem inscriptionIds_distinct:
  "length (inscriptionIds hash urls) = max 1 (length urls) \<and> distinct (inscriptionIds hash urls) \<and>
   set (inscriptionIds hash urls) = (\<lambda>i. hash @ ''i'' @ dec i) ` {0..<max 1 (length urls)}"
  by (simp add: inscriptionIds_def distinct_map inj_on_def)

section \<open>Reusing and marking blocks\<close>

lemma find_SomeD: "find P xs = Some x \<Longrightarrow> x \<in> set xs \<and> P x"
  by (induction xs) (auto split: if_splits)

lemma block_for_known:
  assumes "b \<in> set (mp_blocks st)" "mblk_height b = Fin h"
  shows "\<exists>b' \<in> set (mp_blocks st). mblk_height b' = Fin h \<and>
    block_for get sha st h = Some (b'\<lparr>mblk_fresh := False\<rparr>)"
proof -
  have "find (\<lambda>b. mblk_height b = Fin h) (rev (mp_blocks st)) \<noteq> None"
    using assms by (auto simp: find_None_iff)
  then obtain b' where "find (\<lambda>b. mblk_height b = Fin h) (rev (mp_blocks st)) = Some b'" by blast
  moreover from this have "b' \<in> set (mp_blocks st)" "mblk_height b' = Fin h"
    by (auto dest: find_SomeD)
  ultimately show ?thesis by (auto simp: block_for_def)
qed

text \<open>What the page may show for a height of the metas.\<close>

definition block_faithful ::
  "(string \<Rightarrow> json option) \<Rightarrow> (byte list \<Rightarrow> string) \<Rightarrow> mempool_state \<Rightarrow> rat \<Rightarrow> mblock \<Rightarrow> bool" where
  "block_faithful get sha st h b \<longleftrightarrow>
     (if \<exists>c \<in> set (mp_blocks st). mblk_height c = Fin h
      then \<not> mblk_fresh b \<and> b \<in> (\<lambda>d. d\<lparr>mblk_fresh := False\<rparr>) ` set (mp_blocks st)
      else map_option (\<lambda>d. d\<lparr>mblk_fresh := mblk_fresh b\<rparr>) (mp_loadBlock get sha h) = Some b \<and>
        (mblk_fresh b \<longleftrightarrow> (\<exists>prev. mp_height st = Some prev \<and> prev < h)))"

lemma block_for_faithful: "block_for get sha st h = Some b \<Longrightarrow> block_faithful get sha st h b"
proof -
  assume b: "block_for get sha st h = Some b"
  show ?thesis
  proof (cases "\<exists>c \<in> set (mp_blocks st). mblk_height c = Fin h")
    case True
    then obtain c where "c \<in> set (mp_blocks st)" "mblk_height c = Fin h" by blast
    from block_for_known [OF this, of get sha] b True show ?thesis by (auto simp: block_faithful_def)
  next
    case False
    then have none: "find (\<lambda>b. mblk_height b = Fin h) (rev (mp_blocks st)) = None"
      by (simp add: find_None_iff)
    with b obtain d where "mp_loadBlock get sha h = Some d"
      "b = d\<lparr>mblk_fresh := (case mp_height st of None \<Rightarrow> False | Some p \<Rightarrow> h > p)\<rparr>"
      by (auto simp: block_for_def)
    with False show ?thesis by (auto simp: block_faithful_def split: option.splits)
  qed
qed

lemma sorted_down: "sorted (map (\<lambda>h. - h) (hs :: rat list)) \<Longrightarrow> sorted_wrt (\<ge>) hs"
  by (induction hs) auto

lemma sort_key_down: "sorted_wrt (\<ge>) (sort_key (\<lambda>h. - h) (hs :: rat list))"
  by (rule sorted_down) (rule sorted_sort_key)

lemma mempool_tick_online:
  assumes "mp_online (mempool_tick get sha clock st)"
  obtains p blocks where "mp_request get sha = Some p"
    "the_all (map (block_for get sha st) (pl_heights p)) = Some blocks"
    "mp_blocks (mempool_tick get sha clock st) = map (\<lambda>b. b\<lparr>mblk_fresh := False\<rparr>) blocks"
    "mp_blocksHtml (mempool_tick get sha clock st) =
       (if blocks = [] then ''<p'' @ attr ''class'' ''mp-placeholder'' @ ''>No blocks yet.</p>''
        else concat (map (block_html clock (mp_selected st)) blocks))"
  using assms that
  by (auto simp: mempool_tick_def mp_render_def blocks_html_def split: option.splits bind_splits)

text \<open>
  A successful poll shows the blocks of the node's metas, highest first.  A
  block already on the page is taken from the page, not fetched again; another one is the
  block the node has at that height, drawn as new exactly if it is higher than the height of
  the last poll; and after the poll no mark is left, so no block is drawn as new twice.
\<close>
theorem mempool_tick_blocks:
  assumes "mp_online (mempool_tick get sha clock st)"
  shows "\<exists>p blocks. mp_request get sha = Some p \<and> sorted_wrt (\<ge>) (pl_heights p) \<and>
    list_all2 (block_faithful get sha st) (pl_heights p) blocks \<and>
    mp_blocks (mempool_tick get sha clock st) = map (\<lambda>b. b\<lparr>mblk_fresh := False\<rparr>) blocks"
proof -
  obtain p blocks where p: "mp_request get sha = Some p"
    and b: "the_all (map (block_for get sha st) (pl_heights p)) = Some blocks"
    and m: "mp_blocks (mempool_tick get sha clock st) = map (\<lambda>b. b\<lparr>mblk_fresh := False\<rparr>) blocks"
    using assms by (rule mempool_tick_online)
  obtain height where "mp_metas get height = Some (pl_heights p)"
    using p by (auto simp: mp_request_def split: bind_splits prod.splits)
  then obtain hs where "sort_key (\<lambda>h. - h) hs = pl_heights p"
    by (auto simp: mp_metas_def)
  then have s: "sorted_wrt (\<ge>) (pl_heights p)" using sort_key_down by metis
  have "list_all2 (\<lambda>h b. block_for get sha st h = Some b) (pl_heights p) blocks"
    using b by (rule the_all_rel)
  then have "list_all2 (block_faithful get sha st) (pl_heights p) blocks"
    by (rule list_all2_mono) (rule block_for_faithful)
  with p s m show ?thesis by blast
qed

definition mp_start :: mempool_state where
  "mp_start = \<lparr>mp_online = False, mp_height = None, mp_catchingUp = False, mp_unconfirmed = [],
     mp_blocks = [], mp_supply = None, mp_validators = 0, mp_pendingTotal = None, mp_seen = {},
     mp_selected = No_selection, mp_wellHtml = [], mp_blocksHtml = []\<rparr>"

text \<open>A node with one empty block, answering every request at once.\<close>

definition tiny_node :: "string \<Rightarrow> json option" where
  "tiny_node path = Some (JObj
     [(''result'', JObj
        [(''sync_info'', JObj [(''latest_block_height'', JStr ''1'')]),
         (''txs'', JArr []),
         (''block_metas'', JArr [JObj [(''header'', JObj [(''height'', JStr ''1'')])]]),
         (''block'', JObj [(''header'', JObj [(''height'', JStr ''1'')]), (''data'', JObj [(''txs'', JArr [])])]),
         (''n_txs'', JStr ''0'')]),
      (''amount'', JObj [(''amount'', JStr ''7'')]), (''validators'', JArr [])])"

lemma mempool_tick_blocks_witness:
  "\<exists>b. mp_blocks (mempool_tick tiny_node (\<lambda>_. []) (\<lambda>_. None) mp_start) = [b] \<and> \<not> mblk_fresh b"
proof -
  let ?st = "mempool_tick tiny_node (\<lambda>_. []) (\<lambda>_. None) mp_start"
  have on: "mp_online ?st" by code_simp
  have hs: "map_option pl_heights (mp_request tiny_node (\<lambda>_. [])) = Some [1]" by code_simp
  from mempool_tick_blocks [OF on] hs obtain blocks where
    "list_all2 (block_faithful tiny_node (\<lambda>_. []) mp_start) [1] blocks"
    "mp_blocks ?st = map (\<lambda>b. b\<lparr>mblk_fresh := False\<rparr>) blocks" by auto
  then show ?thesis by (auto simp: list_all2_Cons1)
qed

end
