(* ===== verification/Points.thy ===== *)
theory Points
  imports Memo Block_Cache Display "HOL-Library.Monad_Syntax" "HOL-Library.Multiset"
begin

text \<open>
  site/assets/points.js: the leaderboard.  Every transaction of the last 80 blocks earns
  points for every address in its text.  The blocks are fetched by eight concurrent
  workers, each of which scores a block in one go once it has arrived, so the shared table
  \<open>scores\<close> is filled block by block in an order that is not determined: \<open>score_blocks\<close>
  takes the blocks in the order of arrival, and the theorems quantify over it.
\<close>

definition POINTS_WINDOW :: nat where "POINTS_WINDOW = 80"

definition scoreTx :: "string \<Rightarrow> nat" where
  "scoreTx ascii =
     1 + (if index_of ''IREINSCRIBE1'' ascii \<noteq> None then 5 else 0)
       + (if index_of ''ire-bet'' ascii \<noteq> None then 10 else 0)
       + (if index_of ''fund-community-pool'' ascii \<noteq> None \<or> index_of ''CommunityPool'' ascii \<noteq> None
          then 20 else 0)
       + (if index_of ''IREVAL1'' ascii \<noteq> None then 25 else 0)"

text \<open>The table: an object, its keys in order of first assignment.\<close>

type_synonym scores = "(string \<times> nat) list"

definition add_points :: "nat \<Rightarrow> string \<Rightarrow> scores \<Rightarrow> scores" where
  "add_points pts a sc =
     AList.update a ((case map_of sc a of Some n \<Rightarrow> n | None \<Rightarrow> 0) + pts) sc"

definition score_tx :: "string \<Rightarrow> scores \<Rightarrow> scores" where
  "score_tx ascii sc = fold (add_points (scoreTx ascii)) (extractAddrs ascii) sc"

definition score_block :: "string list \<Rightarrow> scores \<Rightarrow> scores" where
  "score_block txs sc = fold score_tx txs sc"

definition score_blocks :: "string list list \<Rightarrow> scores" where
  "score_blocks arrivals = fold score_block arrivals []"

text \<open>The texts of a block's transactions; \<open>None\<close> when the request or a decoding fails.\<close>

definition tx_text :: "jval \<Rightarrow> string option" where
  "tx_text tx = map_option asciiFromBytes (bytesFromRpcTx tx)"

definition chain_txs :: "jval \<Rightarrow> jval" where
  "chain_txs blk = or_empty (fld (or_else (fld (or_else (fld (or_else (fld blk ''result'')
     (Some (JObj []))) ''block'') (Some (JObj []))) ''data'') (Some (JObj []))) ''txs'')"

definition points_block :: "(string \<Rightarrow> json option) \<Rightarrow> rat \<Rightarrow> string list option" where
  "points_block get h = do {
     blk \<leftarrow> get (block_path h);
     _ \<leftarrow> dot (Some blk) ''result'';
     raws \<leftarrow> iterate (chain_txs (Some blk));
     the_all (map tx_text raws) }"

definition rank :: "scores \<Rightarrow> scores" where
  "rank sc = sort_key (\<lambda>r. - int (snd r)) sc"

definition points_row :: "string \<times> nat \<Rightarrow> string" where
  "points_row r =
     (let a = fst r; q = [dq] in
      ''<li style='' @ q @ ''margin:0.35rem 0'' @ q @ ''><a href='' @ q @ ''/id/?a='' @ encodeURIComponent a @ q @
      ''>'' @ take 12 a @ ellipsis @ slice_last 6 a @ ''</a> '' @ mid_dot @ '' '' @ dec (snd r) @ '' pts '' @ mid_dot @
      '' <a href='' @ q @ ''/wallet/?a='' @ encodeURIComponent a @ q @ ''>wallet</a></li>'')"


text \<open>
  One refresh.  \<open>order\<close> is the order in which the blocks arrive.  A height that is not a
  number scans nothing; an infinite one never ends its loop and has no result here.
\<close>

record points_view =
  pv_online :: bool
  pv_heightText :: string
  pv_windowText :: string
  pv_count :: nat
  pv_rows :: scores
  pv_board :: string

definition points_heights :: "jsnum \<Rightarrow> (jsnum \<times> rat list) option" where
  "points_heights height =
     (case height of
        Fin h \<Rightarrow> Some (Fin (window_min POINTS_WINDOW h), heights_from (window_min POINTS_WINDOW h) h)
      | NaN \<Rightarrow> Some (NaN, [])
      | NegInf \<Rightarrow> Some (Fin 1, [])
      | PosInf \<Rightarrow> None)"

definition points_html :: "scores \<Rightarrow> string" where
  "points_html rows =
     (if rows = [] then ''No scored txs in this window.''
      else ''<ol style='' @ [dq] @ ''padding-left:1.2rem'' @ [dq] @ ''>'' @
        concat (map points_row (take 25 rows)) @ ''</ol>'')"

definition points_refresh ::
  "(string \<Rightarrow> json option) \<Rightarrow> (string list list \<Rightarrow> string list list) \<Rightarrow> points_view \<Rightarrow> points_view" where
  "points_refresh get order v =
     (let offline = v\<lparr>pv_online := False, pv_board := ''Offline. Will not invent points.''\<rparr> in
      case (do {
        st \<leftarrow> get ''/rpc/status'';
        result \<leftarrow> dot (Some st) ''result'';
        sync \<leftarrow> dot result ''sync_info'';
        latest \<leftarrow> dot sync ''latest_block_height'';
        points_heights (to_number latest) \<bind> (\<lambda>(lo, hs). Some (to_number latest, lo, hs)) }) of
        None \<Rightarrow> offline
      | Some (height, lo, hs) \<Rightarrow>
          (let texts = (num_str height, num_str lo @ en_dash @ num_str height) in
           case the_all (map (points_block get) hs) of
             None \<Rightarrow> offline\<lparr>pv_heightText := fst texts, pv_windowText := snd texts\<rparr>
           | Some blocks \<Rightarrow>
               (let rows = rank (score_blocks (order blocks)) in
                \<lparr>pv_online = True, pv_heightText = fst texts, pv_windowText = snd texts,
                 pv_count = length rows, pv_rows = rows, pv_board = points_html rows\<rparr>)))"

section \<open>The score of an address\<close>

definition earned :: "string \<Rightarrow> string list \<Rightarrow> nat" where
  "earned a texts = sum_list (map (\<lambda>t. if a \<in> set (addr_matches t) then scoreTx t else 0) texts)"

definition lookup0 :: "scores \<Rightarrow> string \<Rightarrow> nat" where
  "lookup0 sc a = (case map_of sc a of Some n \<Rightarrow> n | None \<Rightarrow> 0)"

lemma add_points_lookup:
  "map_of (add_points p a sc) b = (if b = a then Some (lookup0 sc a + p) else map_of sc b)"
  by (simp add: add_points_def lookup0_def update_conv')

lemma add_points_distinct: "distinct (map fst sc) \<Longrightarrow> distinct (map fst (add_points p a sc))"
  by (simp add: add_points_def distinct_update)

lemma fold_add_points:
  "distinct as \<Longrightarrow> map_of (fold (add_points p) as sc) b =
     (if b \<in> set as then Some (lookup0 sc b + p) else map_of sc b)"
  by (induction as arbitrary: sc) (auto simp: add_points_lookup lookup0_def)

lemma score_tx_lookup:
  "map_of (score_tx t sc) b =
     (if b \<in> set (addr_matches t) then Some (lookup0 sc b + scoreTx t) else map_of sc b)"
  by (simp add: score_tx_def fold_add_points extractAddrs_distinct extractAddrs_set)

lemma score_tx_distinct: "distinct (map fst sc) \<Longrightarrow> distinct (map fst (score_tx t sc))"
proof -
  have "distinct (map fst sc) \<Longrightarrow> distinct (map fst (fold (add_points p) as sc))" for p as
    by (induction as arbitrary: sc) (auto simp: add_points_distinct)
  then show "distinct (map fst sc) \<Longrightarrow> distinct (map fst (score_tx t sc))" by (simp add: score_tx_def)
qed

lemma fold_score_tx_distinct:
  "distinct (map fst sc) \<Longrightarrow> distinct (map fst (fold score_tx ts sc))"
  by (induction ts arbitrary: sc) (auto simp: score_tx_distinct)

lemma fold_score_tx_lookup:
  "map_of (fold score_tx ts sc) b =
     (if \<exists>t \<in> set ts. b \<in> set (addr_matches t) then Some (lookup0 sc b + earned b ts) else map_of sc b)"
proof (induction ts arbitrary: sc)
  case (Cons t ts)
  have "lookup0 (score_tx t sc) b = lookup0 sc b + earned b [t]"
    by (simp add: lookup0_def score_tx_lookup earned_def)
  with Cons [of "score_tx t sc"] show ?case
    by (auto simp: score_tx_lookup earned_def)
qed (simp add: lookup0_def)

lemma score_blocks_concat: "score_blocks bs = fold score_tx (concat bs) []"
proof -
  have "fold score_block bs sc = fold score_tx (concat bs) sc" for sc
    by (induction bs arbitrary: sc) (simp_all add: score_block_def)
  then show ?thesis by (simp add: score_blocks_def)
qed

lemma score_blocks_lookup:
  "map_of (score_blocks bs) b =
     (if \<exists>t \<in> set (concat bs). b \<in> set (addr_matches t) then Some (earned b (concat bs)) else None)"
  unfolding score_blocks_concat fold_score_tx_lookup by (simp add: lookup0_def)

lemma score_blocks_distinct: "distinct (map fst (score_blocks bs))"
  by (simp add: score_blocks_concat fold_score_tx_distinct)

lemma earned_mset: "mset ts = mset us \<Longrightarrow> earned a ts = earned a us"
proof -
  have "earned a ts = sum_mset (image_mset (\<lambda>t. if a \<in> set (addr_matches t) then scoreTx t else 0) (mset ts))"
    for ts by (simp add: earned_def sum_mset_sum_list flip: mset_map)
  then show "mset ts = mset us \<Longrightarrow> earned a ts = earned a us" by simp
qed

lemma mset_concat_perm: "mset xss = mset yss \<Longrightarrow> mset (concat xss) = mset (concat yss)"
proof -
  have "mset (concat zss) = sum_mset (image_mset mset (mset zss))" for zss :: "'a list list"
    by (induction zss) auto
  then show "mset xss = mset yss \<Longrightarrow> mset (concat xss) = mset (concat yss)" by simp
qed

text \<open>
  Property C25: in whatever order the concurrent workers deliver the blocks, every address
  ends with the same points: the sum, over the transactions of the window whose text names
  it, of the transaction's score.  The leaderboard lists exactly those addresses, each
  once, by descending points.
\<close>
theorem points_order_independent:
  assumes "mset arrivals = mset blocks"
  shows "map_of (score_blocks arrivals) = map_of (score_blocks blocks) \<and>
    set (rank (score_blocks arrivals)) =
      {(a, earned a (concat blocks)) | a. \<exists>t \<in> set (concat blocks). a \<in> set (addr_matches t)} \<and>
    distinct (map fst (rank (score_blocks arrivals))) \<and>
    sorted (map (\<lambda>r. - int (snd r)) (rank (score_blocks arrivals)))"
proof (intro conjI)
  have set: "set (concat arrivals) = set (concat blocks)"
    using mset_concat_perm [OF assms] by (metis set_mset_mset)
  have lookup: "map_of (score_blocks arrivals) b =
      (if \<exists>t \<in> set (concat blocks). b \<in> set (addr_matches t) then Some (earned b (concat blocks)) else None)"
    for b
    unfolding score_blocks_lookup set using earned_mset [OF mset_concat_perm [OF assms]] by simp
  then show "map_of (score_blocks arrivals) = map_of (score_blocks blocks)"
    by (intro ext) (simp only: score_blocks_lookup)
  have "(a, n) \<in> set (score_blocks arrivals) \<longleftrightarrow>
      n = earned a (concat blocks) \<and> (\<exists>t \<in> set (concat blocks). a \<in> set (addr_matches t))" for a n
    using map_of_eq_Some_iff [OF score_blocks_distinct, of arrivals a n] lookup [of a]
    by (auto split: if_splits)
  then show "set (rank (score_blocks arrivals)) =
      {(a, earned a (concat blocks)) | a. \<exists>t \<in> set (concat blocks). a \<in> set (addr_matches t)}"
    by (auto simp: rank_def)
  have "mset (map fst (rank (score_blocks arrivals))) = mset (map fst (score_blocks arrivals))"
    by (simp only: rank_def mset_map mset_sort)
  then show "distinct (map fst (rank (score_blocks arrivals)))"
    using score_blocks_distinct mset_eq_imp_distinct_iff by blast
  show "sorted (map (\<lambda>r. - int (snd r)) (rank (score_blocks arrivals)))"
    unfolding rank_def by (simp only: sorted_sort_key)
qed

definition demo_addr :: string where "demo_addr = ''ire1'' @ replicate 38 (CHR ''q'')"

lemma points_order_independent_witness:
  "map_of (score_blocks [[demo_addr @ '' ire-bet''], [demo_addr]]) demo_addr = Some 12"
proof -
  have eq: "map_of (score_blocks [[demo_addr @ '' ire-bet''], [demo_addr]]) =
      map_of (score_blocks [[demo_addr], [demo_addr @ '' ire-bet'']])"
    using points_order_independent [of "[[demo_addr @ '' ire-bet''], [demo_addr]]"
        "[[demo_addr], [demo_addr @ '' ire-bet'']]"] by simp
  have "map_of (score_blocks [[demo_addr], [demo_addr @ '' ire-bet'']]) demo_addr = Some 12"
    by code_simp
  then show ?thesis unfolding eq .
qed

end
