(* ===== verification/Shell_Quote.thy ===== *)
theory Shell_Quote
  imports Memo
begin

text \<open>
  Text between single quotes of a shell command.  The create and identity pages print
  commands whose memo stands between single quotes; such a memo is safe when it holds no
  single quote itself (\<open>sq_free\<close>), because a POSIX shell takes everything else literally.
\<close>

definition squote :: char where "squote = CHR 0x27"

definition sq_free :: "string \<Rightarrow> bool" where "sq_free s \<longleftrightarrow> squote \<notin> set s"

text \<open>\<open>replace(/'/g, '')\<close>.\<close>

definition sanitize :: "string \<Rightarrow> string" where "sanitize s = filter (\<lambda>c. c \<noteq> squote) s"

lemma sq_free_sanitize [simp]: "sq_free (sanitize s)"
  by (simp add: sq_free_def sanitize_def)

lemma sanitize_id: "sq_free s \<Longrightarrow> sanitize s = s"
  by (auto simp: sq_free_def sanitize_def filter_id_conv)

lemma length_sanitize: "length (sanitize s) \<le> length s"
  by (simp add: sanitize_def)

lemma sq_free_append [simp]: "sq_free (s @ t) \<longleftrightarrow> sq_free s \<and> sq_free t"
  by (simp add: sq_free_def)

lemma sq_free_Nil [simp]: "sq_free []"
  by (simp add: sq_free_def)

lemma sq_free_Cons [simp]: "sq_free (c # s) \<longleftrightarrow> c \<noteq> squote \<and> sq_free s"
  by (auto simp: sq_free_def)

lemma sq_free_sub: "set s \<subseteq> set t \<Longrightarrow> sq_free t \<Longrightarrow> sq_free s"
  by (auto simp: sq_free_def)

lemma sq_free_trim: "sq_free s \<Longrightarrow> sq_free (trim s)"
  by (rule sq_free_sub [OF set_trim])

lemma sq_free_take: "sq_free s \<Longrightarrow> sq_free (take n s)"
  by (rule sq_free_sub [OF set_take_subset])

text \<open>Strings without a single quote anywhere in a value.\<close>

fun json_sq :: "json \<Rightarrow> bool" where
  "json_sq (JStr s) = sq_free s"
| "json_sq (JArr js) = list_all json_sq js"
| "json_sq (JObj kvs) = list_all (\<lambda>(k, j). sq_free k \<and> json_sq j) kvs"
| "json_sq _ = True"

lemma hex_not_squote: "c \<in> set (pad_start 4 (CHR ''0'') (hex n)) \<Longrightarrow> c \<noteq> squote"
proof -
  assume "c \<in> set (pad_start 4 (CHR ''0'') (hex n))"
  then have "c = CHR ''0'' \<or> is_digit c \<or> in_range 97 102 c"
    using set_pad_start hex_digits by blast
  then show ?thesis by (auto simp: squote_def is_digit_def in_range_def)
qed

lemma sq_free_esc: "c \<noteq> squote \<Longrightarrow> sq_free (esc_char c)"
  using hex_not_squote by (auto simp: esc_char_def char_names squote_def sq_free_def)

lemma sq_free_quote: "sq_free s \<Longrightarrow> sq_free (quote s)"
proof -
  assume s: "sq_free s"
  have "sq_free (concat (map esc_char s))" using s by (induction s) (auto simp: sq_free_esc)
  then show ?thesis by (simp add: quote_def dq_def squote_def)
qed

lemma digits_not_squote: "c \<in> set (dec n) \<Longrightarrow> c \<noteq> squote"
  by (auto dest!: dec_digits simp: squote_def is_digit_def in_range_def)

lemma sq_free_dec: "sq_free (dec n)"
  using digits_not_squote by (auto simp: sq_free_def)

lemma sq_free_int_str: "sq_free (int_str i)"
  by (simp add: int_str_def sq_free_dec) (simp add: squote_def)

lemma digit_char_not_squote: "digit_char d \<noteq> squote" if "d < 10"
  using digit_char_digit [OF that] by (auto simp: squote_def is_digit_def in_range_def)

lemma sq_free_frac: "0 \<le> r \<Longrightarrow> r < 1 \<Longrightarrow> sq_free (frac_digits k r)"
proof (induction k arbitrary: r)
  case (Suc k)
  have "nat \<lfloor>10 * r\<rfloor> < 10" using Suc.prems by linarith
  moreover have "0 \<le> 10 * r - of_int \<lfloor>10 * r\<rfloor>" "10 * r - of_int \<lfloor>10 * r\<rfloor> < 1" by linarith+
  ultimately show ?case using Suc.IH digit_char_not_squote by simp
qed simp

lemma sq_free_num: "sq_free (json_num n)"
proof (cases n)
  case (Fin r)
  have "0 \<le> \<bar>r\<bar> - of_int \<lfloor>\<bar>r\<bar>\<rfloor>" "\<bar>r\<bar> - of_int \<lfloor>\<bar>r\<bar>\<rfloor> < 1" by linarith+
  then have "sq_free (frac_digits 17 (\<bar>r\<bar> - of_int \<lfloor>\<bar>r\<bar>\<rfloor>))" by (rule sq_free_frac)
  with Fin show ?thesis by (auto simp: sq_free_int_str) (simp_all add: squote_def)
qed (simp_all add: squote_def)

lemma sq_free_print:
  "json_sq j \<Longrightarrow> sq_free (stringify j)"
  "list_all json_sq js \<Longrightarrow> sq_free (print_elems js)"
  "list_all (\<lambda>(k, j). sq_free k \<and> json_sq j) kvs \<Longrightarrow> sq_free (print_members kvs)"
proof (induction j and js and kvs rule: stringify_print_elems_print_members.induct)
qed (auto simp: sq_free_quote sq_free_num squote_def)

end
