(* ===== verification/Create.thy ===== *)
theory Create
  imports Shell_Quote
begin

text \<open>
  site/assets/create.js: the page that prints inscription commands for tokens, art, files
  and games.  A form is a record of its input values; every \<open>refresh\<close> returns the text of
  the code box and whether copying is blocked.
\<close>

definition PREFIX_JSON :: string where "PREFIX_JSON = ''IREINSCRIBE1 application/json ''"
definition PREFIX_SVG :: string where "PREFIX_SVG = ''IREINSCRIBE1 image/svg+xml ''"
definition PREFIX_TEXT :: string where "PREFIX_TEXT = ''IREINSCRIBE1 text/plain ''"
definition PAYLOAD_MAX :: nat where "PAYLOAD_MAX = 180"

record create_form =
  tk_tick :: string
  tk_max :: string
  tk_lim :: string
  art_title :: string
  art_body :: string
  file_name :: string
  file_mime :: string
  file_bytes :: string
  game_name :: string
  game_mime :: string

record snippet =
  sn_text :: string
  sn_blocked :: bool

definition create_cli :: "string \<Rightarrow> string" where
  "create_cli memo = join newline
     [''ired tx bank send <from> <from> 1uire '' @ [bsl],
      ''  --chain-id ire-1 '' @ [bsl],
      ''  --from <key> '' @ [bsl],
      ''  --gas-prices 0.001uire '' @ [bsl],
      ''  --memo '' @ [squote] @ memo @ [squote] @ '' '' @ [bsl],
      ''  --home '' @ [dq] @ ''$HOME/.ire'' @ [dq] @ '' '' @ [bsl],
      ''  --yes'']"

text \<open>\<open>/^\s*<svg[\s>]/i\<close>.\<close>

definition looksSvg :: "string \<Rightarrow> bool" where
  "looksSvg s =
     (let t = dropWhile is_ws s in
      starts_with ''<svg'' (to_lower t) \<and>
      (case drop 4 t of c # _ \<Rightarrow> is_ws c \<or> c = CHR ''>'' | [] \<Rightarrow> False))"

definition tick_of :: "create_form \<Rightarrow> string" where
  "tick_of f = take 4 (filter is_upper (to_upper (tk_tick f)))"

definition token_obj :: "create_form \<Rightarrow> json" where
  "token_obj f = JObj [(''p'', JStr ''ire-insc''), (''op'', JStr ''deploy''),
     (''tick'', JStr (or_str (tick_of f) ''ABCD'')),
     (''max'', JStr (sanitize (or_str (trim (tk_max f)) ''21000000''))),
     (''lim'', JStr (sanitize (or_str (trim (tk_lim f)) ''1000'')))]"

definition tokenMemo :: "create_form \<Rightarrow> string" where
  "tokenMemo f = PREFIX_JSON @ stringify (token_obj f)"

definition artParts :: "create_form \<Rightarrow> string \<times> string" where
  "artParts f =
     (let title = sanitize (art_title f); body = sanitize (art_body f) in
      if looksSvg body then (PREFIX_SVG, trim body)
      else (PREFIX_TEXT, join newline (filter (\<lambda>s. s \<noteq> []) [trim title, body])))"

text \<open>\<open>Number(bytes) || bytes\<close>.\<close>

definition bytes_value :: "string \<Rightarrow> json" where
  "bytes_value s = (if truthy (Some (JNum (str_number s))) then JNum (str_number s) else JStr s)"

definition file_obj :: "create_form \<Rightarrow> json" where
  "file_obj f = JObj [(''p'', JStr ''ire-insc''), (''op'', JStr ''file''),
     (''name'', JStr (sanitize (or_str (trim (file_name f)) ''clip.mp4''))),
     (''mime'', JStr (sanitize (or_str (trim (file_mime f)) ''video/mp4''))),
     (''bytes'', bytes_value (sanitize (or_str (trim (file_bytes f)) ''12345''))),
     (''note'', JStr ''on-chain catalog; payload needs inscription module'')]"

definition fileMemo :: "create_form \<Rightarrow> string" where
  "fileMemo f = PREFIX_JSON @ stringify (file_obj f)"

definition game_obj :: "create_form \<Rightarrow> json" where
  "game_obj f = JObj [(''p'', JStr ''ire-insc''), (''op'', JStr ''game''),
     (''name'', JStr (sanitize (or_str (trim (game_name f)) ''game''))),
     (''mime'', JStr (sanitize (or_str (trim (game_mime f)) ''text/html'')))]"

definition gameMemo :: "create_form \<Rightarrow> string" where
  "gameMemo f = PREFIX_JSON @ stringify (game_obj f)"

definition fitOrBlock :: "string \<Rightarrow> snippet" where
  "fitOrBlock memo =
     (if length memo > 256
      then \<lparr>sn_text = ''Blocked '' @ em_dash @ '' memo is '' @ dec (length memo) @
              '' characters (max 256). Shorten the name.'', sn_blocked = True\<rparr>
      else \<lparr>sn_text = create_cli memo, sn_blocked = False\<rparr>)"

definition refreshToken :: "create_form \<Rightarrow> create_form \<times> snippet" where
  "refreshToken f = (let f' = f\<lparr>tk_tick := tick_of f\<rparr> in (f', fitOrBlock (tokenMemo f')))"

record art_view =
  av_count :: string
  av_over :: bool
  av_warn_hidden :: bool
  av_snippet :: snippet

definition refreshArt :: "create_form \<Rightarrow> art_view" where
  "refreshArt f =
     (let p = artParts f; n = length (snd p); over = n > PAYLOAD_MAX in
      \<lparr>av_count = dec n @ '' / '' @ dec PAYLOAD_MAX @ '' payload chars after prefix'',
       av_over = over, av_warn_hidden = (\<not> over),
       av_snippet =
         (if over
          then \<lparr>sn_text = ''Blocked '' @ em_dash @ '' payload is '' @ dec n @
                  '' characters. The memo will not fit until a chain upgrade.'', sn_blocked = True\<rparr>
          else \<lparr>sn_text = create_cli (fst p @ snd p), sn_blocked = False\<rparr>)\<rparr>)"

definition refreshFile :: "create_form \<Rightarrow> snippet" where "refreshFile f = fitOrBlock (fileMemo f)"
definition refreshGame :: "create_form \<Rightarrow> snippet" where "refreshGame f = fitOrBlock (gameMemo f)"

text \<open>Picking a local file fills in its name, type and size.\<close>

definition pick_file :: "string \<Rightarrow> string \<Rightarrow> nat \<Rightarrow> create_form \<Rightarrow> create_form \<times> snippet" where
  "pick_file name mime bytes f =
     (let f' = f\<lparr>file_name := name, file_mime := or_str mime ''application/octet-stream'',
                 file_bytes := dec bytes\<rparr> in (f', refreshFile f'))"

definition pick_game :: "string \<Rightarrow> string \<Rightarrow> create_form \<Rightarrow> create_form \<times> snippet" where
  "pick_game name mime f =
     (let f' = f\<lparr>game_name := name, game_mime := or_str mime ''application/octet-stream''\<rparr> in
      (f', refreshGame f'))"

section \<open>Every printed command is well quoted and within the memo limit\<close>

lemma sq_free_or_str: "sq_free s \<Longrightarrow> sq_free t \<Longrightarrow> sq_free (or_str s t)"
  by (simp add: or_str_def)

lemma sq_free_tick: "sq_free (tick_of f)"
proof -
  have "c \<noteq> squote" if "is_upper c" for c
    using that by (auto simp: is_upper_def in_range_def squote_def)
  then have "sq_free (filter is_upper (to_upper (tk_tick f)))" by (auto simp: sq_free_def)
  then show ?thesis by (simp add: tick_of_def sq_free_take)
qed

lemma memos_sq_free: "sq_free (tokenMemo f)" "sq_free (fileMemo f)" "sq_free (gameMemo f)"
proof -
  have "json_sq (bytes_value s)" if "sq_free s" for s using that by (simp add: bytes_value_def)
  then have "json_sq (token_obj f)" "json_sq (file_obj f)" "json_sq (game_obj f)"
    by (simp_all add: token_obj_def file_obj_def game_obj_def squote_def
        sq_free_or_str [OF sq_free_tick])
  then show "sq_free (tokenMemo f)" "sq_free (fileMemo f)" "sq_free (gameMemo f)"
    using sq_free_print(1)
    by (simp_all add: tokenMemo_def fileMemo_def gameMemo_def PREFIX_JSON_def squote_def)
qed

lemma sq_free_art: "sq_free (fst (artParts f) @ snd (artParts f))"
proof -
  have "sq_free (join newline ss)" if "\<forall>s \<in> set ss. sq_free s" for ss
    using that by (induction newline ss rule: join.induct) (auto simp: newline_def squote_def)
  then have "sq_free (join newline (filter (\<lambda>s. s \<noteq> []) [trim (sanitize t), sanitize b]))" for t b
    by (auto simp: sq_free_trim)
  then show ?thesis
    by (simp add: artParts_def Let_def sq_free_trim PREFIX_SVG_def PREFIX_TEXT_def)
      (simp add: squote_def)
qed

text \<open>What a code box may hold: a block notice, or the command for a memo that fits.\<close>

definition safe_snippet :: "snippet \<Rightarrow> bool" where
  "safe_snippet s \<longleftrightarrow> sn_blocked s \<or>
     (\<exists>memo. sn_text s = create_cli memo \<and> sq_free memo \<and> length memo \<le> 256 \<and>
        starts_with INSCRIBE memo)"

lemma safe_fitOrBlock: "sq_free memo \<Longrightarrow> starts_with INSCRIBE memo \<Longrightarrow> safe_snippet (fitOrBlock memo)"
  by (auto simp: safe_snippet_def fitOrBlock_def)

lemma starts_memos:
  "starts_with INSCRIBE (tokenMemo f)" "starts_with INSCRIBE (fileMemo f)"
  "starts_with INSCRIBE (gameMemo f)" "starts_with INSCRIBE (fst (artParts f) @ s)"
  by (simp_all add: INSCRIBE_def tokenMemo_def fileMemo_def gameMemo_def artParts_def Let_def
      PREFIX_JSON_def PREFIX_SVG_def PREFIX_TEXT_def)

text \<open>
  Property C33: whatever is typed into the create page or picked from disk, an unblocked code
  box holds a command whose memo is an inscription of at most 256 characters with no single
  quote in it, so the memo cannot leave its shell quotes.
\<close>
theorem create_snippets_safe:
  "safe_snippet (snd (refreshToken f)) \<and> safe_snippet (av_snippet (refreshArt f)) \<and>
   safe_snippet (refreshFile f) \<and> safe_snippet (refreshGame f) \<and>
   safe_snippet (snd (pick_file name mime bytes f)) \<and> safe_snippet (snd (pick_game name mime f))"
proof (intro conjI)
  have "length (fst (artParts f)) \<le> 27"
    by (simp add: artParts_def Let_def PREFIX_SVG_def PREFIX_TEXT_def)
  then show "safe_snippet (av_snippet (refreshArt f))"
    using sq_free_art [of f] starts_memos(4) [of f "snd (artParts f)"]
    by (auto simp: refreshArt_def Let_def safe_snippet_def PAYLOAD_MAX_def simp del: sq_free_append)
qed (simp_all add: refreshToken_def refreshFile_def refreshGame_def pick_file_def pick_game_def
      Let_def safe_fitOrBlock memos_sq_free starts_memos)

section \<open>Reading a deploy memo back\<close>

lemma tick_upper: "list_all is_upper (tick_of f) \<and> length (tick_of f) \<le> 4"
  by (auto simp: tick_of_def list_all_iff dest: in_set_takeD)

text \<open>
  The token form deploys what it shows: the ticker is one to four capital
  letters, and the JSON the pages extract from the printed memo is the deploy object with
  that ticker and the typed limits.
\<close>
theorem token_memo_roundtrip:
  "extractJson (tokenMemo f) = Some (token_obj f) \<and>
   (\<exists>tick. fld (Some (token_obj f)) ''tick'' = Some (JStr tick) \<and> list_all is_upper tick \<and>
      1 \<le> length tick \<and> length tick \<le> 4)"
proof
  obtain kvs where kvs: "token_obj f = JObj kvs" "plain (JObj kvs)"
    by (simp add: token_obj_def)
  have "CHR ''{'' \<notin> set PREFIX_JSON" by (simp add: PREFIX_JSON_def)
  from extractJson_print [OF kvs(2) this, of "[]"]
  show "extractJson (tokenMemo f) = Some (token_obj f)"
    by (simp only: tokenMemo_def kvs(1) append_Nil2)
  have "list_all is_upper (or_str (tick_of f) ''ABCD'') \<and> 1 \<le> length (or_str (tick_of f) ''ABCD'') \<and>
      length (or_str (tick_of f) ''ABCD'') \<le> 4"
    using tick_upper [of f]
    by (cases "tick_of f") (auto simp: or_str_def is_upper_def in_range_def)
  then show "\<exists>tick. fld (Some (token_obj f)) ''tick'' = Some (JStr tick) \<and> list_all is_upper tick \<and>
      1 \<le> length tick \<and> length tick \<le> 4"
    by (simp add: token_obj_def)
qed

end
