(* ===== verification/Identity.thy ===== *)
theory Identity
  imports Shell_Quote Block_Cache Display "HOL-Library.Monad_Syntax"
begin

text \<open>
  site/assets/id.js: the profile page of an address.  The form prints an \<open>ire-id\<close>
  inscription command; \<open>loadOnchain\<close> walks the last 80 blocks from the top and fills the
  form from the first matching inscription.
\<close>

definition ID_MAX :: nat where "ID_MAX = 256"
definition ID_WINDOW :: nat where "ID_WINDOW = 80"

record id_form =
  id_addr :: string
  id_n :: string
  id_x :: string
  id_tg :: string
  id_d :: string
  id_w :: string

definition demo_ire :: string where "demo_ire = ''ire1'' @ replicate 38 (CHR ''q'')"

section \<open>The memo of a form\<close>

text \<open>\<open>replace(/https?:\/\//, '')\<close>: the first occurrence only.\<close>

fun drop_scheme :: "string \<Rightarrow> string" where
  "drop_scheme [] = []"
| "drop_scheme (c # s) =
     (if starts_with ''http://'' (c # s) then drop 6 s
      else if starts_with ''https://'' (c # s) then drop 7 s
      else c # drop_scheme s)"

definition drop_at :: "string \<Rightarrow> string" where
  "drop_at s = (case s of c # t \<Rightarrow> if c = CHR ''@'' then t else s | [] \<Rightarrow> [])"

definition clean :: "string \<Rightarrow> string" where
  "clean s = drop_scheme (drop_at (trim s))"

definition id_member :: "string \<Rightarrow> nat \<Rightarrow> string \<Rightarrow> (string \<times> json) list" where
  "id_member k n v = (if clean v \<noteq> [] then [(k, JStr (take n (clean v)))] else [])"

definition id_payload :: "id_form \<Rightarrow> json" where
  "id_payload f = JObj ([(''p'', JStr ''ire-id''), (''op'', JStr ''set'')] @
     id_member ''n'' 24 (id_n f) @ id_member ''x'' 20 (id_x f) @ id_member ''tg'' 32 (id_tg f) @
     id_member ''d'' 32 (id_d f) @ id_member ''w'' 40 (id_w f))"

definition id_memo :: "id_form \<Rightarrow> string" where
  "id_memo f = MEMO_PREFIX @ stringify (id_payload f)"

definition id_len_text :: "id_form \<Rightarrow> string" where
  "id_len_text f =
     ''memo '' @ dec (length (id_memo f)) @ '' / '' @ dec ID_MAX @
     (if length (id_memo f) > ID_MAX then '' '' @ em_dash @ '' too long, shorten handles'' else [])"

definition id_command :: "string \<Rightarrow> string \<Rightarrow> string" where
  "id_command addr note =
     ''ired tx bank send '' @ addr @ '' '' @ addr @
     '' 1uire --chain-id ire-1 --from <key> --gas-prices 0.001uire --note '' @ [squote] @ note @ [squote] @
     '' --home $HOME/.ire --yes''"

definition id_submit :: "id_form \<Rightarrow> string + string" where
  "id_submit f =
     (let addr = trim (id_addr f); m = id_memo f in
      if \<not> ireOk addr then Inl ''Need ire1''
      else if length m > ID_MAX then Inl ''Memo too long''
      else Inr (id_command addr (sanitize m)))"

definition id_share :: "string \<Rightarrow> id_form \<Rightarrow> string" where
  "id_share origin f =
     (let addr = trim (id_addr f) in
      if \<not> ireOk addr then origin @ ''/id/'' else origin @ ''/id/?a='' @ encodeURIComponent addr)"

definition id_receive :: "string \<Rightarrow> id_form \<Rightarrow> string + string" where
  "id_receive origin f =
     (let addr = trim (id_addr f) in
      if \<not> ireOk addr then Inl ''Need ire1'' else Inr (origin @ ''/wallet/?a='' @ encodeURIComponent addr))"

definition id_copy_addr :: "id_form \<Rightarrow> string + string" where
  "id_copy_addr f =
     (let addr = trim (id_addr f) in if \<not> ireOk addr then Inl ''Need ire1'' else Inr addr)"

section \<open>Loading the profile from the chain\<close>

text \<open>\<open>replace(/^IREINSCRIBE1\s+\S+\s+/, '')\<close>.\<close>

definition strip_header :: "string \<Rightarrow> string" where
  "strip_header s =
     (if starts_with INSCRIBE s then
        (let r0 = drop (length INSCRIBE) s;
             r1 = dropWhile is_ws r0;
             r2 = dropWhile (\<lambda>c. \<not> is_ws c) r1
         in if takeWhile is_ws r0 \<noteq> [] \<and> takeWhile (\<lambda>c. \<not> is_ws c) r1 \<noteq> [] \<and> takeWhile is_ws r2 \<noteq> []
            then dropWhile is_ws r2 else s)
      else s)"

text \<open>This page parses everything from the first brace on, trailing text included.\<close>

definition id_extractJson :: "string \<Rightarrow> json option" where
  "id_extractJson p =
     (case index_of ''{'' p of None \<Rightarrow> None | Some start \<Rightarrow> json_parse (drop start p))"

definition id_profile :: "string \<Rightarrow> string \<Rightarrow> json option" where
  "id_profile addr ascii =
     (if \<not> str_includes ascii addr then None
      else case index_of INSCRIBE ascii of
        None \<Rightarrow> None
      | Some idx \<Rightarrow>
          (case id_extractJson (strip_header (takeWhile (\<lambda>c. c \<noteq> nul) (drop idx ascii))) of
             None \<Rightarrow> None
           | Some j \<Rightarrow>
               if fld (Some j) ''p'' = Some (JStr ''ire-id'') \<and> fld (Some j) ''op'' = Some (JStr ''set'')
               then Some j else None))"

text \<open>
  A search that may fail on the way: \<open>None\<close> for an exception, \<open>Some None\<close> for nothing found.
  It stops at the first hit, so what comes later is not even looked at.
\<close>

fun first_found :: "('a \<Rightarrow> 'b option option) \<Rightarrow> 'a list \<Rightarrow> 'b option option" where
  "first_found f [] = Some None"
| "first_found f (x # xs) =
     (case f x of None \<Rightarrow> None | Some (Some j) \<Rightarrow> Some (Some j) | Some None \<Rightarrow> first_found f xs)"

definition id_scan_tx :: "string \<Rightarrow> jval \<Rightarrow> json option option" where
  "id_scan_tx addr tx =
     map_option (\<lambda>bytes. id_profile addr (asciiFromBytes bytes)) (bytesFromRpcTx tx)"

definition block_raws :: "(string \<Rightarrow> json option) \<Rightarrow> rat \<Rightarrow> jval list option" where
  "block_raws get h = do {
     blk \<leftarrow> get (block_path h);
     result \<leftarrow> dot (Some blk) ''result'';
     let obj = Some (JObj []);
     let block = or_else (fld (or_else result obj) ''block'') obj;
     let data = or_else (fld block ''data'') obj;
     iterate (or_empty (fld data ''txs'')) }"

definition id_scan_block ::
  "(string \<Rightarrow> json option) \<Rightarrow> string \<Rightarrow> rat \<Rightarrow> json option option" where
  "id_scan_block get addr h = block_raws get h \<bind> first_found (id_scan_tx addr)"

definition heights_down :: "rat \<Rightarrow> rat \<Rightarrow> rat list" where
  "heights_down hi lo = map (\<lambda>i. hi - of_nat i) [0..<nat (\<lfloor>hi - lo\<rfloor> + 1)]"

text \<open>
  An infinite height would keep the loop at one height for ever; no node reports one, and
  the scan counts as failed here.
\<close>

definition id_heights :: "jsnum \<Rightarrow> rat list option" where
  "id_heights height =
     (case height of
        Fin h \<Rightarrow> Some (heights_down h (window_min ID_WINDOW h))
      | PosInf \<Rightarrow> None
      | _ \<Rightarrow> Some [])"

definition id_search :: "(string \<Rightarrow> json option) \<Rightarrow> string \<Rightarrow> json option option" where
  "id_search get addr = do {
     st \<leftarrow> get ''/rpc/status'';
     result \<leftarrow> dot (Some st) ''result'';
     sync \<leftarrow> dot result ''sync_info'';
     latest \<leftarrow> dot sync ''latest_block_height'';
     hs \<leftarrow> id_heights (to_number latest);
     first_found (id_scan_block get addr) hs }"

definition fill_field :: "jval \<Rightarrow> string \<Rightarrow> string" where
  "fill_field v old = (if truthy v then to_string v else old)"

definition id_fill :: "json \<Rightarrow> id_form \<Rightarrow> id_form" where
  "id_fill j f =
     f\<lparr>id_n := fill_field (fld (Some j) ''n'') (id_n f), id_x := fill_field (fld (Some j) ''x'') (id_x f),
       id_tg := fill_field (fld (Some j) ''tg'') (id_tg f), id_d := fill_field (fld (Some j) ''d'') (id_d f),
       id_w := fill_field (fld (Some j) ''w'') (id_w f)\<rparr>"

definition loadOnchain ::
  "(string \<Rightarrow> json option) \<Rightarrow> string \<Rightarrow> id_form \<Rightarrow> id_form \<times> string" where
  "loadOnchain get addr f =
     (if \<not> ireOk addr then (f, ''Enter an ire1 to load the latest inscribed profile.'')
      else case id_search get addr of
        None \<Rightarrow> (f, ''Could not scan /rpc/block. Will not invent a profile.'')
      | Some None \<Rightarrow> (f, ''No on-chain profile in the last ~80 blocks.'')
      | Some (Some j) \<Rightarrow> (id_fill j f, ''Loaded latest ire-id memo in this window.''))"

section \<open>Submitting\<close>

text \<open>
  The page copies a command only for a well-formed address and a memo of at
  most 256 characters; the note stands between the command's only two single quotes, and
  nothing outside it comes from the form but the address, letters and digits only.
\<close>
theorem id_submit_safe:
  assumes "id_submit f = Inr cmd"
  shows "\<exists>addr note. cmd = id_command addr note \<and> addr = trim (id_addr f) \<and>
    list_all is_alnum_lower addr \<and> sq_free note \<and> length note \<le> 256"
proof -
  from assms have "ireOk (trim (id_addr f))" "length (id_memo f) \<le> 256"
    "cmd = id_command (trim (id_addr f)) (sanitize (id_memo f))"
    by (auto simp: id_submit_def Let_def ID_MAX_def split: if_splits)
  then show ?thesis
    using ireOk_chars length_sanitize [of "id_memo f"] by (metis le_trans sq_free_sanitize)
qed

section \<open>The profile on the chain\<close>

lemma first_found_hit:
  "first_found f xs = Some (Some j) \<Longrightarrow>
     \<exists>us x vs. xs = us @ x # vs \<and> f x = Some (Some j) \<and> (\<forall>u \<in> set us. f u = Some None)"
proof (induction xs)
  case (Cons x xs)
  show ?case
  proof (cases "f x = Some None")
    case True
    with Cons obtain us y vs where "xs = us @ y # vs" "f y = Some (Some j)"
      "\<forall>u \<in> set us. f u = Some None" by auto
    with True show ?thesis by (intro exI [of _ "x # us"]) auto
  next
    case False
    with Cons.prems have "f x = Some (Some j)" by (auto split: option.splits)
    then show ?thesis by (intro exI [of _ "[]"]) auto
  qed
qed simp

lemma first_found_run:
  "\<forall>u \<in> set us. f u = Some None \<Longrightarrow> first_found f (us @ vs) = first_found f vs"
  by (induction us) auto

lemma heights_down_range: "h \<in> set (heights_down hi lo) \<Longrightarrow> lo \<le> h \<and> h \<le> hi"
proof -
  assume "h \<in> set (heights_down hi lo)"
  then obtain i where h: "h = hi - of_nat i" and i: "i < nat (\<lfloor>hi - lo\<rfloor> + 1)"
    by (auto simp: heights_down_def)
  from i have "int i \<le> \<lfloor>hi - lo\<rfloor>" by linarith
  then have "of_int (int i) \<le> hi - lo" by (simp add: le_floor_iff)
  then show ?thesis using h by simp
qed

lemma heights_down_sorted: "sorted_wrt (>) (heights_down hi lo)"
  by (simp add: heights_down_def sorted_wrt_map sorted_wrt_iff_nth_less)


lemma set_drop_scheme: "set (drop_scheme s) \<subseteq> set s"
proof (induction s)
  case (Cons c s)
  then show ?case by (auto dest: in_set_dropD)
qed simp

lemma set_clean: "set (clean s) \<subseteq> set s"
proof -
  have "set (drop_at s) \<subseteq> set s" for s by (auto simp: drop_at_def split: list.splits if_splits)
  then show ?thesis unfolding clean_def using set_drop_scheme set_trim by blast
qed

definition id_fields :: "id_form \<Rightarrow> string list" where
  "id_fields f = [id_n f, id_x f, id_tg f, id_d f, id_w f]"

lemma list_all_field: "list_all P v \<Longrightarrow> list_all P (take n (clean v))"
  unfolding list_all_iff using set_clean by (meson in_set_takeD subsetD)

lemma id_payload_ok:
  assumes "\<forall>v \<in> set (id_fields f). list_all printable v"
  shows "plain (id_payload f)" "json_ascii (id_payload f)"
  using assms list_all_field [of printable]
  by (simp_all add: id_payload_def id_member_def id_fields_def printable_def in_range_def)

lemma strip_header_memo:
  assumes "body \<noteq> []" "\<not> is_ws (hd body)"
  shows "strip_header (MEMO_PREFIX @ body) = body"
proof -
  obtain c t where body: "body = c # t" and c: "\<not> is_ws c" using assms by (cases body) auto
  show ?thesis
    by (simp add: strip_header_def MEMO_PREFIX_def INSCRIBE_def body c is_ws_def Let_def
        del: insert_iff) (use c in \<open>simp add: is_ws_def\<close>)
qed

lemma id_payload_JObj: "\<exists>kvs. id_payload f = JObj kvs"
  by (simp add: id_payload_def)

lemma id_payload_fields:
  "fld (Some (id_payload f)) ''p'' = Some (JStr ''ire-id'')"
  "fld (Some (id_payload f)) ''op'' = Some (JStr ''set'')"
  by (simp_all add: id_payload_def id_member_def)

lemma id_profile_memo:
  assumes ok: "\<forall>v \<in> set (id_fields f). list_all printable v"
    and c: "carries bytes (id_memo f)" and a: "str_includes (asciiFromBytes bytes) addr"
  shows "id_profile addr (asciiFromBytes bytes) = Some (id_payload f)"
proof -
  obtain kvs where kvs: "id_payload f = JObj kvs" using id_payload_JObj by blast
  note pl = id_payload_ok [OF ok, unfolded kvs]
  have m: "id_memo f = memo_text (JObj kvs)" by (simp only: id_memo_def memo_text_def kvs)
  obtain t where t: "memo_text (JObj kvs) = INSCRIBE @ t"
    by (simp add: memo_text_def MEMO_PREFIX_def INSCRIBE_def)
  obtain i r where i: "index_of INSCRIBE (asciiFromBytes bytes) = Some i"
    "drop i (asciiFromBytes bytes) = memo_text (JObj kvs) @ r" "r = [] \<or> hd r = nul"
    using c [unfolded m] memo_printable [OF pl] t by (rule carries_at)
  have nonul: "ch \<noteq> nul" if "ch \<in> set (memo_text (JObj kvs))" for ch
    using that memo_printable [OF pl] nul_not_printable by (auto simp: list_all_iff)
  have tw: "takeWhile (\<lambda>c. c \<noteq> nul) (drop i (asciiFromBytes bytes)) = memo_text (JObj kvs)"
    unfolding i(2) using nonul i(3) by (intro takeWhile_run) auto
  have sh: "strip_header (memo_text (JObj kvs)) = stringify (JObj kvs)"
    unfolding memo_text_def by (rule strip_header_memo) (simp_all add: is_ws_def)
  have ix: "index_of ''{'' (stringify (JObj kvs)) = Some 0" by simp
  have "id_extractJson (stringify (JObj kvs)) = Some (JObj kvs)"
    unfolding id_extractJson_def ix using js_json.parse_print [OF pl(1)] by simp
  then show ?thesis
    using a i(1) id_payload_fields [of f, unfolded kvs]
    by (simp add: id_profile_def tw sh kvs del: stringify.simps fld.simps)
qed

definition shown :: "nat \<Rightarrow> string \<Rightarrow> string \<Rightarrow> string" where
  "shown n v old = (if clean v \<noteq> [] then take n (clean v) else old)"

lemma fill_member:
  assumes "0 < n"
  shows "fill_field (map_of (rev (id_member k n v)) k) old = shown n v old"
  using assms by (simp add: fill_field_def id_member_def shown_def to_string_def)

lemma id_fill_payload:
  "id_fill (id_payload f) g =
     g\<lparr>id_n := shown 24 (id_n f) (id_n g), id_x := shown 20 (id_x f) (id_x g),
       id_tg := shown 32 (id_tg f) (id_tg g), id_d := shown 32 (id_d f) (id_d g),
       id_w := shown 40 (id_w f) (id_w g)\<rparr>"
  by (simp add: id_fill_def id_payload_def id_member_def fill_field_def shown_def to_string_def
      map_add_def)

text \<open>
  Property C29: round trip of a profile.  When a transaction that names the address carries
  the memo of a form with printable fields, the scan finds exactly that profile in it, and
  loading it shows each field as the form had it, cleaned and cut to its limit, leaving a
  blank one alone.
\<close>
theorem id_profile_roundtrip:
  assumes "\<forall>v \<in> set (id_fields f). list_all printable v"
    and "bytesFromRpcTx tx = Some bytes" "carries bytes (id_memo f)"
    and "str_includes (asciiFromBytes bytes) addr"
  shows "id_scan_tx addr tx = Some (Some (id_payload f)) \<and>
    id_fill (id_payload f) g =
      g\<lparr>id_n := shown 24 (id_n f) (id_n g), id_x := shown 20 (id_x f) (id_x g),
        id_tg := shown 32 (id_tg f) (id_tg g), id_d := shown 32 (id_d f) (id_d g),
        id_w := shown 40 (id_w f) (id_w g)\<rparr>"
  using assms(2) id_profile_memo [OF assms(1,3,4)] id_fill_payload by (simp add: id_scan_tx_def)

definition bob :: id_form where
  "bob = \<lparr>id_addr = demo_ire, id_n = '' @bob'', id_x = [], id_tg = [], id_d = ''https://b.io'', id_w = []\<rparr>"

definition bob_bytes :: "byte list" where
  "bob_bytes = (0x0A # map char_byte demo_ire @ [0]) @ map char_byte (id_memo bob)"

definition bob_tx :: string where "bob_tx = btoa bob_bytes"

lemma bob_tx_bytes: "bytesFromRpcTx (Some (JStr bob_tx)) = Some bob_bytes"
proof -
  have "take 2 bob_tx = ''Cm''" by code_simp
  then have "bob_tx = ''Cm'' @ drop 2 bob_tx" by (metis append_take_drop_id)
  then obtain t where "bob_tx = CHR ''C'' # CHR ''m'' # t" by auto
  then show ?thesis
    using atob_btoa [of bob_bytes]
    by (simp add: bytesFromRpcTx_def Let_def is_hex_def is_digit_def in_range_def bob_tx_def)
qed

lemma bob_carries: "carries bob_bytes (id_memo bob)"
proof -
  have "CHR ''I'' \<notin> set (asciiFromBytes (0x0A # map char_byte demo_ire @ [0]))" by code_simp
  then show ?thesis unfolding carries_def bob_bytes_def by (intro exI [of _ "[]"] exI) simp
qed

lemma bob_fields: "\<forall>v \<in> set (id_fields bob). list_all printable v"
  by code_simp

lemma bob_named: "str_includes (asciiFromBytes bob_bytes) demo_ire"
  by code_simp

lemma id_profile_roundtrip_witness:
  "id_scan_tx demo_ire (Some (JStr bob_tx)) = Some (Some (id_payload bob)) \<and>
   id_n (id_fill (id_payload bob) (bob\<lparr>id_n := []\<rparr>)) = ''bob''"
proof -
  have "id_scan_tx demo_ire (Some (JStr bob_tx)) = Some (Some (id_payload bob))"
    "id_n (id_fill (id_payload bob) (bob\<lparr>id_n := []\<rparr>)) = shown 24 (id_n bob) []"
    using id_profile_roundtrip [OF bob_fields bob_tx_bytes bob_carries bob_named, of "bob\<lparr>id_n := []\<rparr>"]
    by simp_all
  moreover have "shown 24 (id_n bob) [] = ''bob''" by code_simp
  ultimately show ?thesis by simp
qed

lemma id_submit_safe_witness:
  "\<exists>cmd. id_submit bob = Inr cmd \<and> (\<exists>addr note. cmd = id_command addr note \<and> sq_free note)"
proof -
  have "ireOk (trim (id_addr bob))" "length (id_memo bob) \<le> ID_MAX" by code_simp+
  then obtain cmd where cmd: "id_submit bob = Inr cmd" by (auto simp: id_submit_def Let_def)
  from id_submit_safe [OF cmd] cmd show ?thesis by blast
qed

definition bob_node :: "string \<Rightarrow> json option" where
  "bob_node path =
     (if path = ''/rpc/status''
      then Some (JObj [(''result'', JObj [(''sync_info'', JObj [(''latest_block_height'', JStr ''1'')])])])
      else Some (JObj [(''result'', JObj [(''block'', JObj [(''data'', JObj [(''txs'', JArr [JStr bob_tx])])])])]))"


end
