(* ===== verification/Vault.thy ===== *)
theory Vault
  imports Block_Cache Display "HOL-Library.Monad_Syntax"
begin

text \<open>
  site/assets/vault.js: the community vault page.  Amounts are \<open>BigInt\<close>, so integers here;
  the page shows the vault's balance exactly and the share of gas that goes to it.
\<close>

definition VAULT :: string where "VAULT = ''ire1jv65s3grqf6v6jl3dp4t6c9t9rk99cd8nanfuy''"
definition GENESIS_TAX :: string where "GENESIS_TAX = ''0.020000000000000000''"

section \<open>Amounts\<close>

text \<open>\<open>BigInt(v)\<close>; \<open>None\<close> when it throws.\<close>

definition based :: "(char \<Rightarrow> bool) \<Rightarrow> string \<Rightarrow> string \<Rightarrow> bool" where
  "based ok marks t \<longleftrightarrow>
     (case t of m # ds \<Rightarrow> m \<in> set marks \<and> ds \<noteq> [] \<and> list_all ok ds | [] \<Rightarrow> False)"

definition str_bigint :: "string \<Rightarrow> int option" where
  "str_bigint s =
     (case trim s of
        [] \<Rightarrow> Some 0
      | c # t \<Rightarrow>
          if list_all is_digit (c # t) then Some (int (unradix 10 (c # t)))
          else if c = CHR ''-'' \<and> t \<noteq> [] \<and> list_all is_digit t then Some (- int (unradix 10 t))
          else if c = CHR ''+'' \<and> t \<noteq> [] \<and> list_all is_digit t then Some (int (unradix 10 t))
          else if c = CHR ''0'' \<and> based is_hex ''xX'' t then Some (int (unradix 16 (tl t)))
          else if c = CHR ''0'' \<and> based (in_range 48 55) ''oO'' t then Some (int (unradix 8 (tl t)))
          else if c = CHR ''0'' \<and> based (in_range 48 49) ''bB'' t then Some (int (unradix 2 (tl t)))
          else None)"

fun bigint :: "jval \<Rightarrow> int option" where
  "bigint (Some (JStr s)) = str_bigint s"
| "bigint (Some (JBool b)) = Some (if b then 1 else 0)"
| "bigint (Some (JNum n)) =
     (case n of Fin r \<Rightarrow> if of_int \<lfloor>r\<rfloor> = r then Some \<lfloor>r\<rfloor> else None | _ \<Rightarrow> None)"
| "bigint (Some (JArr js)) = str_bigint (json_str (JArr js))"
| "bigint _ = None"

text \<open>\<open>BigInt\<close> division and remainder truncate towards zero.\<close>

definition big_div :: "int \<Rightarrow> int \<Rightarrow> int" where "big_div n m = sgn n * (\<bar>n\<bar> div m)"
definition big_mod :: "int \<Rightarrow> int \<Rightarrow> int" where "big_mod n m = n - big_div n m * m"

definition format_big :: "int \<Rightarrow> string" where
  "format_big n =
     (let whole = big_div n 1000000; frac = big_mod n 1000000;
          fracS = strip_zeros (pad_start 6 (CHR ''0'') (int_str frac)) in
      if fracS \<noteq> [] then int_str whole @ ''.'' @ fracS else int_str whole)"

definition formatIre :: "jval \<Rightarrow> string option" where
  "formatIre v = map_option format_big (bigint (or_else v (Some (JStr ''0''))))"

definition taxPct :: "jval \<Rightarrow> string option" where
  "taxPct v =
     (case to_number v of
        Fin n \<Rightarrow> Some (to_fixed (if n \<ge> 1 \<or> n = 0 then 0 else 1) (n * 100))
      | _ \<Rightarrow> None)"

section \<open>One refresh\<close>

record vault_view =
  vv_online :: bool
  vv_height :: string
  vv_updated :: string
  vv_offline_shown :: bool
  vv_balance :: string
  vv_note :: string
  vv_tax :: string
  vv_split :: string

text \<open>
  \<open>coins.find\<close>: the first coin whose denomination is uire.  It throws on a coin that has no
  properties, and on a list that is not an array.
\<close>

fun find_uire :: "json list \<Rightarrow> jval option" where
  "find_uire [] = Some None"
| "find_uire (c # cs) =
     (case dot (Some c) ''denom'' of
        None \<Rightarrow> None
      | Some d \<Rightarrow> if d = Some (JStr ''uire'') then Some (Some c) else find_uire cs)"

definition vault_uire :: "jval \<Rightarrow> jval option" where
  "vault_uire bank = do {
     coins \<leftarrow> dot bank ''balances'';
     (case or_empty coins of
        Some (JArr cs) \<Rightarrow>
          map_option (\<lambda>c. or_else (fld (or_else c (Some (JObj []))) ''amount'') (Some (JStr ''0'')))
            (find_uire cs)
      | _ \<Rightarrow> None) }"

text \<open>The tax in force and its source: the chain's if it can be read, the genesis value if not.\<close>

definition vault_tax :: "(string \<Rightarrow> json option) \<Rightarrow> jval \<times> string" where
  "vault_tax get =
     (case (do {
        dist \<leftarrow> get ''/api/cosmos/distribution/v1beta1/params'';
        params \<leftarrow> dot (Some dist) ''params'';
        let p = or_else params (Some dist);
        let tax = fld p ''community_tax'';
        if truthy tax then Some tax else None }) of
        Some tax \<Rightarrow> (tax, ''on-chain'')
      | None \<Rightarrow> (Some (JStr GENESIS_TAX), ''genesis''))"

definition split_text :: "string option \<Rightarrow> string \<Rightarrow> string" where
  "split_text pct source =
     (if pct = Some ''100'' then ''100% of gas to the vault''
      else (case pct of
          None \<Rightarrow> ''null''
        | Some p \<Rightarrow> p) @ ''% vault / '' @
        (case pct of
          None \<Rightarrow> em_dash
        | Some p \<Rightarrow>
            (case str_number p of
               Fin n \<Rightarrow> num_str (Fin (of_int \<lfloor>(100 - n) * 10 + 1 / 2\<rfloor> / 10))
             | n \<Rightarrow> num_str n)) @
        ''% validators ('' @ source @ '')'')"

definition vault_offline :: "vault_view \<Rightarrow> vault_view" where
  "vault_offline v = v\<lparr>vv_online := False, vv_updated := ''could not reach /rpc/status'',
     vv_offline_shown := True\<rparr>"

definition vault_refresh :: "(string \<Rightarrow> json option) \<Rightarrow> vault_view \<Rightarrow> vault_view" where
  "vault_refresh get v =
     (case get ''/rpc/status'' \<bind> (\<lambda>st. dot (Some st) ''result'') of
        None \<Rightarrow> vault_offline v
      | Some result \<Rightarrow>
          (let sync = or_else (and_then result (fld result ''sync_info'')) (Some (JObj []));
               h = fld sync ''latest_block_height'';
               height = (if truthy h then to_string h else em_dash);
               v1 = v\<lparr>vv_online := True, vv_height := height, vv_updated := ''height '' @ height,
                      vv_offline_shown := False\<rparr> in
           case get (''/api/cosmos/bank/v1beta1/balances/'' @ VAULT) \<bind> (\<lambda>b. vault_uire (Some b)) of
             None \<Rightarrow> vault_offline v1
           | Some uire \<Rightarrow>
               (case formatIre uire of
                  None \<Rightarrow> vault_offline v1
                | Some bal \<Rightarrow>
                    (let (tax, source) = vault_tax get; pct = taxPct tax in
                     v1\<lparr>vv_balance := bal @ '' <em>IRE</em>'', vv_note := to_string uire @ '' uire at '' @ VAULT,
                        vv_tax := (case pct of None \<Rightarrow> to_string tax | Some p \<Rightarrow> p @ ''%''),
                        vv_split := split_text pct source\<rparr>))))"

section \<open>The balance is exact\<close>

text \<open>Reading a decimal amount of IRE back as uire.\<close>

definition read_ire :: "string \<Rightarrow> nat" where
  "read_ire s =
     (let ip = takeWhile is_digit s; fp = drop 1 (dropWhile is_digit s) in
      unradix 10 ip * 1000000 + unradix 10 (fp @ replicate (6 - length fp) (CHR ''0'')))"

lemma strip_zeros_split: "\<exists>k. s = strip_zeros s @ replicate k (CHR ''0'')"
proof -
  let ?z = "takeWhile (\<lambda>c. c = CHR ''0'') (rev s)"
  have "rev s = ?z @ rev (strip_zeros s)" by (simp add: strip_zeros_def)
  then have "s = strip_zeros s @ rev ?z" by (metis rev_append rev_rev_ident)
  moreover have "?z = replicate (length ?z) (CHR ''0'')"
    by (rule replicate_eqI) (auto dest: set_takeWhileD)
  then have "rev ?z = replicate (length ?z) (CHR ''0'')" by (metis rev_replicate)
  ultimately show ?thesis by metis
qed

lemma strip_zeros_pad:
  assumes "length s = n"
  shows "strip_zeros s @ replicate (n - length (strip_zeros s)) (CHR ''0'') = s"
proof -
  obtain k where k: "s = strip_zeros s @ replicate k (CHR ''0'')" using strip_zeros_split by blast
  then have "n = length (strip_zeros s) + k" using assms by (metis length_append length_replicate)
  with k show ?thesis by simp
qed

lemma length_dec_6: "n < 1000000 \<Longrightarrow> length (dec n) \<le> 6"
proof -
  assume "n < 1000000"
  moreover have "length (digs 10 m) \<le> Suc k" if "m < 10 ^ Suc k" for m k
    using that
  proof (induction k arbitrary: m)
    case 0
    then show ?case by (simp add: digs.simps [of 10 m])
  next
    case (Suc k)
    then have "m div 10 < 10 ^ Suc k" by auto
    with Suc.IH show ?case by (simp add: digs.simps [of 10 m])
  qed
  from this [of n 5] have "n < 1000000 \<Longrightarrow> length (digs 10 n) \<le> 6" by simp
  ultimately show ?thesis by (simp add: radix_def)
qed

lemma format_big_nat:
  "format_big (int n) =
     (let fp = strip_zeros (pad_start 6 (CHR ''0'') (dec (n mod 1000000))) in
      dec (n div 1000000) @ point_digits fp)"
proof -
  have d: "big_div (int n) 1000000 = int (n div 1000000)"
    by (simp add: big_div_def zdiv_int sgn_if)
  then have m: "big_mod (int n) 1000000 = int (n mod 1000000)"
    by (simp add: big_mod_def minus_div_mult_eq_mod [symmetric] zmod_int zdiv_int)
  show ?thesis unfolding format_big_def d m by (simp add: int_str_def point_digits_def Let_def)
qed

text \<open>
  The balance the vault page shows is exact for any number of uire: reading
  the decimal text back as IRE gives the amount again, whatever its size.
\<close>
theorem formatIre_exact: "read_ire (format_big (int n)) = n"
proof -
  let ?f = "pad_start 6 (CHR ''0'') (dec (n mod 1000000))"
  let ?s = "strip_zeros ?f"
  have len: "length ?f = 6" using length_dec_6 [of "n mod 1000000"] by simp
  have dg: "\<And>c. c \<in> set (dec (n div 1000000)) \<Longrightarrow> is_digit c" by (rule dec_digits)
  have nd: "point_digits ?s = [] \<or> \<not> is_digit (hd (point_digits ?s))"
    by (simp add: point_digits_def is_digit_def in_range_def)
  have tw: "takeWhile is_digit (dec (n div 1000000) @ point_digits ?s) = dec (n div 1000000)"
    "dropWhile is_digit (dec (n div 1000000) @ point_digits ?s) = point_digits ?s"
    using takeWhile_run [of "dec (n div 1000000)" is_digit "point_digits ?s", OF dg nd]
      dropWhile_run [of "dec (n div 1000000)" is_digit "point_digits ?s", OF dg nd] by simp_all
  have fp: "drop 1 (point_digits ?s) = ?s" by (simp add: point_digits_def)
  have "unradix 10 (?s @ replicate (6 - length ?s) (CHR ''0'')) = n mod 1000000"
    unfolding strip_zeros_pad [OF len] by (simp add: unradix_pad_start)
  then show ?thesis
    by (simp only: read_ire_def format_big_nat Let_def tw fp undec_dec) simp
qed

text \<open>
  The vault page never invents a balance: when the node, the bank module or
  the amount cannot be read, the page goes offline and the balance on show stays what it
  was; when all can be read the page is online and shows the formatted amount of the
  vault's first uire coin, whether or not the distribution parameters are readable.
\<close>
theorem vault_refresh_honest:
  "(case (get ''/rpc/status'' \<bind> (\<lambda>st. dot (Some st) ''result''),
          get (''/api/cosmos/bank/v1beta1/balances/'' @ VAULT) \<bind> (\<lambda>b. vault_uire (Some b)) \<bind> formatIre) of
      (Some _, Some bal) \<Rightarrow> vv_online (vault_refresh get v) \<and>
         vv_balance (vault_refresh get v) = bal @ '' <em>IRE</em>''
    | _ \<Rightarrow> \<not> vv_online (vault_refresh get v) \<and> vv_balance (vault_refresh get v) = vv_balance v \<and>
         vv_offline_shown (vault_refresh get v))"
  by (simp add: vault_refresh_def vault_offline_def Let_def case_prod_beta
      split: option.splits bind_splits)

end
