(* ===== verification/Explorer.thy ===== *)
theory Explorer
  imports Block_Cache Display "HOL-Library.Monad_Syntax"
begin

text \<open>
  explorer/server.mjs and explorer/app.js: a local server that serves the explorer's own
  directory and forwards \<open>/rpc/\<close> and \<open>/api/\<close> to the node, and the table of validators
  the page draws.  \<open>path.resolve\<close>, \<open>path.extname\<close> and the part of \<open>new URL(path, base)\<close>
  that decides which host is asked are written out; what is on the disk is the parameter
  \<open>is_file\<close>, \<open>None\<close> when \<open>stat\<close> fails.
\<close>

section \<open>Paths\<close>

fun split_slash :: "string \<Rightarrow> string list" where
  "split_slash [] = [[]]"
| "split_slash (c # s) =
     (if c = CHR ''/'' then [] # split_slash s
      else (case split_slash s of w # ws \<Rightarrow> (c # w) # ws | [] \<Rightarrow> [[c]]))"

fun normalize :: "string list \<Rightarrow> string list \<Rightarrow> string list" where
  "normalize base [] = base"
| "normalize base (w # ws) =
     (if w = [] \<or> w = ''.'' then normalize base ws
      else if w = ''..'' then normalize (butlast base) ws
      else normalize (base @ [w]) ws)"

definition path_string :: "string list \<Rightarrow> string" where
  "path_string ws = ''/'' @ join ''/'' ws"

text \<open>\<open>path.resolve(directory, relative)\<close> for an absolute, normalised directory.\<close>

definition path_resolve :: "string list \<Rightarrow> string \<Rightarrow> string list" where
  "path_resolve dir rel =
     (if starts_with ''/'' rel then normalize [] (split_slash rel) else normalize dir (split_slash rel))"

definition extname :: "string \<Rightarrow> string" where
  "extname file =
     (let name = last (split_slash file);
          ext = rev (takeWhile (\<lambda>c. c \<noteq> CHR ''.'') (rev name)) in
      if CHR ''.'' \<in> set (tl name) then ''.'' @ ext else [])"

definition content_type :: "string \<Rightarrow> string" where
  "content_type file =
     (let e = extname file in
      if e = ''.css'' then ''text/css'' else if e = ''.js'' then ''text/javascript''
      else if e = ''.html'' then ''text/html'' else ''application/octet-stream'')"

section \<open>Targets of the proxy\<close>

definition url_slash :: "char \<Rightarrow> bool" where "url_slash c \<longleftrightarrow> c = CHR ''/'' \<or> c = bsl"

text \<open>
  \<open>new URL(input, upstream)\<close> for an input that starts with a slash: two slashes introduce an
  authority of their own (any further ones are skipped), one keeps the upstream's.  The
  result is the authority asked, \<open>None\<close> for the upstream's, and the rest.
\<close>

definition url_resolve :: "string \<Rightarrow> (string option \<times> string) option" where
  "url_resolve input =
     (case input of
        c # d # t \<Rightarrow>
          if url_slash c \<and> url_slash d then
            (let r = dropWhile url_slash t;
                 host = takeWhile (\<lambda>x. \<not> url_slash x \<and> x \<noteq> CHR ''?'' \<and> x \<noteq> CHR ''#'') r
             in if host = [] then None else Some (Some host, drop (length host) r))
          else Some (None, input)
      | _ \<Rightarrow> Some (None, input))"

section \<open>The request handler\<close>

datatype service = Rpc | Api

datatype reply =
    Status nat
  | File string string
  | Forward service "string option" string
  | Bad_gateway

definition proxy_reply :: "service \<Rightarrow> string \<Rightarrow> reply" where
  "proxy_reply s url =
     (case url_resolve (drop 4 url) of
        None \<Rightarrow> Bad_gateway
      | Some (host, rest) \<Rightarrow> Forward s host rest)"

definition handle ::
  "string list \<Rightarrow> (string \<Rightarrow> bool option) \<Rightarrow> string \<Rightarrow> string \<Rightarrow> reply" where
  "handle dir is_file meth url =
     (if meth \<noteq> ''GET'' then Status 405
      else if starts_with ''/rpc/'' url then proxy_reply Rpc url
      else if starts_with ''/api/'' url then proxy_reply Api url
      else
        (let relative = (if url = ''/'' then ''index.html'' else drop 1 url);
             file = path_string (path_resolve dir relative) in
         if \<not> starts_with (path_string dir) file then Status 403
         else case is_file file of
             Some True \<Rightarrow> File file (content_type file)
           | _ \<Rightarrow> Status 404))"

section \<open>Confinement\<close>

lemma prefix_before: "c \<notin> set w \<Longrightarrow> v @ c # r = w @ t \<Longrightarrow> \<exists>s. v = w @ s"
  by (induction w arbitrary: v) (auto simp: append_eq_Cons_conv)

lemma split_unique:
  "c \<notin> set v \<Longrightarrow> c \<notin> set w \<Longrightarrow> v @ c # r = w @ c # t \<Longrightarrow> v = w \<and> r = t"
proof (induction v arbitrary: w)
  case Nil
  then show ?case by (cases w) auto
next
  case (Cons x v)
  then show ?case by (cases w) auto
qed

lemma join_inject_prefix:
  assumes "starts_with (join ''/'' ws) (join ''/'' vs)"
    and "\<forall>w \<in> set ws. CHR ''/'' \<notin> set w" "\<forall>v \<in> set vs. CHR ''/'' \<notin> set v" "ws \<noteq> []" "vs \<noteq> []"
  shows "length ws \<le> length vs \<and> take (length ws - 1) vs = butlast ws \<and>
    starts_with (last ws) (vs ! (length ws - 1))"
  using assms
proof (induction ws arbitrary: vs)
  case (Cons w ws)
  obtain v vs' where vs: "vs = v # vs'" using Cons.prems(5) by (cases vs) auto
  have slash: "CHR ''/'' \<notin> set w" "CHR ''/'' \<notin> set v" using Cons.prems vs by auto
  show ?case
  proof (cases ws)
    case Nil
    show ?thesis
    proof (cases vs')
      case Nil
      with \<open>ws = []\<close> Cons.prems(1) vs show ?thesis by simp
    next
      case (Cons x xs)
      with \<open>ws = []\<close> Cons.prems(1) vs obtain t where t: "v @ CHR ''/'' # join ''/'' (x # xs) = w @ t"
        by (auto simp: starts_with_iff)
      from prefix_before [OF slash(1) t] have "starts_with w v" by (auto simp: starts_with_iff)
      with \<open>ws = []\<close> vs show ?thesis by simp
    qed
  next
    case (Cons u us)
    then have pre: "starts_with (w @ ''/'' @ join ''/'' ws) (join ''/'' vs)" using Cons.prems(1) by simp
    then have ne: "vs' \<noteq> []" using slash(2) vs by (auto simp: starts_with_iff)
    then have "join ''/'' vs = v @ ''/'' @ join ''/'' vs'" using vs by (cases vs') auto
    with pre obtain t where t: "v @ CHR ''/'' # join ''/'' vs' = w @ CHR ''/'' # join ''/'' ws @ t"
      by (auto simp: starts_with_iff)
    have "v = w \<and> join ''/'' vs' = join ''/'' ws @ t"
      using split_unique [OF slash(2,1) t] .
    then have "starts_with (join ''/'' ws) (join ''/'' vs')" "v = w" by auto
    with Cons.IH [of vs'] Cons.prems ne vs \<open>ws = u # us\<close> show ?thesis by auto
  qed
qed simp

lemma split_slash_free: "w \<in> set (split_slash s) \<Longrightarrow> CHR ''/'' \<notin> set w"
  by (induction s arbitrary: w) (auto split: list.splits if_splits)

definition clean_name :: "string \<Rightarrow> bool" where
  "clean_name w \<longleftrightarrow> w \<noteq> [] \<and> w \<noteq> ''.'' \<and> w \<noteq> ''..'' \<and> CHR ''/'' \<notin> set w"

definition clean_path :: "string list \<Rightarrow> bool" where "clean_path ws = list_all clean_name ws"

lemma clean_path_butlast: "clean_path ws \<Longrightarrow> clean_path (butlast ws)"
  by (auto simp: clean_path_def list_all_iff dest: in_set_butlastD)

lemma clean_path_snoc [simp]: "clean_path (ws @ [w]) \<longleftrightarrow> clean_path ws \<and> clean_name w"
  by (simp add: clean_path_def)

lemma clean_path_slash: "clean_path ws \<Longrightarrow> \<forall>w \<in> set ws. CHR ''/'' \<notin> set w"
  unfolding clean_path_def list_all_iff clean_name_def by blast

lemma normalize_clean:
  "clean_path base \<Longrightarrow> \<forall>w \<in> set ws. CHR ''/'' \<notin> set w \<Longrightarrow> clean_path (normalize base ws)"
proof (induction base ws rule: normalize.induct)
  case (2 base w ws)
  have slash: "CHR ''/'' \<notin> set w" and rest: "\<forall>w \<in> set ws. CHR ''/'' \<notin> set w"
    using "2.prems"(2) by simp_all
  consider "w = [] \<or> w = ''.''" | "\<not> (w = [] \<or> w = ''.'')" "w = ''..''"
    | "\<not> (w = [] \<or> w = ''.'')" "w \<noteq> ''..''" by blast
  then show ?case
  proof cases
    case 1
    with "2.IH"(1) [OF 1 "2.prems"(1) rest] show ?thesis by (simp only: normalize.simps if_True)
  next
    case 2
    with "2.IH"(2) [OF 2 clean_path_butlast [OF "2.prems"(1)] rest] show ?thesis
      by (simp only: normalize.simps if_True if_False refl)
  next
    case 3
    then have "clean_path (base @ [w])" using "2.prems"(1) slash by (simp add: clean_name_def)
    with "2.IH"(3) [OF 3 this rest] 3 show ?thesis by (simp only: normalize.simps if_False)
  qed
qed (simp only: normalize.simps)

lemma path_resolve_clean: "clean_path dir \<Longrightarrow> clean_path (path_resolve dir rel)"
  by (simp add: path_resolve_def normalize_clean split_slash_free clean_path_def [of "[]"])

lemma handle_file:
  assumes "handle dir is_file meth url = File file ct"
  obtains "meth = ''GET''" "file = path_string (path_resolve dir (if url = ''/'' then ''index.html'' else drop 1 url))"
    "starts_with (path_string dir) file" "is_file file = Some True"
  using assms by (auto simp: handle_def proxy_reply_def Let_def split: if_splits option.splits bool.splits prod.splits)

text \<open>
  Property C34: what the explorer server can serve.  A file is served only for a GET request
  and only if it exists, and its normalised path runs through the server's directory, up to
  the directory's own last name, which it starts with.  So the path never leaves the
  directory's parent; the check lets it reach exactly the siblings whose names extend the
  directory's.
\<close>
theorem explorer_confined:
  assumes "handle dir is_file meth url = File file ct" "clean_path dir" "dir \<noteq> []"
  shows "\<exists>ws. file = path_string ws \<and> clean_path ws \<and> meth = ''GET'' \<and> is_file file = Some True \<and>
    length dir \<le> length ws \<and> take (length dir - 1) ws = butlast dir \<and>
    starts_with (last dir) (ws ! (length dir - 1))"
proof -
  let ?ws = "path_resolve dir (if url = ''/'' then ''index.html'' else drop 1 url)"
  have ws: "clean_path ?ws" using assms(2) by (rule path_resolve_clean)
  have m: "meth = ''GET''" and f: "file = path_string ?ws" and i: "is_file file = Some True"
    and p: "starts_with (path_string dir) file"
    using assms(1) by (auto elim: handle_file)
  from p f have pre: "starts_with (join ''/'' dir) (join ''/'' ?ws)" by (simp add: path_string_def)
  have "join ''/'' dir \<noteq> []"
  proof (cases dir)
    case (Cons d ds)
    with assms(2) show ?thesis by (cases ds) (simp_all add: clean_path_def clean_name_def)
  qed (use assms(3) in simp)
  with pre have "?ws \<noteq> []" by (auto simp: starts_with_iff)
  with join_inject_prefix [OF pre clean_path_slash [OF assms(2)] clean_path_slash [OF ws] assms(3)]
  have "length dir \<le> length ?ws \<and> take (length dir - 1) ?ws = butlast dir \<and>
      starts_with (last dir) (?ws ! (length dir - 1))" by blast
  with m f i ws show ?thesis by blast
qed

lemma explorer_confined_witness:
  "\<exists>ws. path_string [''srv'', ''app'', ''app.js''] = path_string ws \<and> take 1 ws = [''srv'']"
proof -
  have "handle [''srv'', ''app''] (\<lambda>_. Some True) ''GET'' ''/app.js'' =
      File (path_string [''srv'', ''app'', ''app.js'']) ''text/javascript''" by code_simp
  from explorer_confined [OF this] show ?thesis by (auto simp: clean_path_def clean_name_def)
qed

text \<open>A sibling directory whose name starts with the server's directory name is served.\<close>

lemma explorer_sibling_served:
  "handle [''srv'', ''explorer''] (\<lambda>_. Some True) ''GET'' ''/../explorer-old/key'' =
     File ''/srv/explorer-old/key'' ''application/octet-stream''"
  by code_simp

section \<open>The proxy\<close>



text \<open>The request that turns the local server into a proxy to a host of the caller's choice.\<close>

lemma explorer_open_proxy:
  "handle dir is_file ''GET'' ''/rpc//evil.example/x'' = Forward Rpc (Some ''evil.example'') ''/x''"
  by (simp add: handle_def proxy_reply_def url_resolve_def url_slash_def Let_def bsl_def)

section \<open>The validator table\<close>

text \<open>app.js: \<open>number\<close> and \<open>row\<close>, and the rows the refresh builds from the node's validators.\<close>

definition number_text :: "jsnum \<Rightarrow> string" where
  "number_text n = (case n of Fin r \<Rightarrow> intl_format 6 (r / 1000000) | _ \<Rightarrow> num_str n)"

definition row :: "string list \<Rightarrow> string" where
  "row columns = ''<div class='' @ [dq] @ ''row'' @ [dq] @ ''>'' @
     concat (map (\<lambda>c. ''<span>'' @ c @ ''</span>'') columns) @ ''</div>''"

record validator =
  va_moniker :: string
  va_operator :: string
  va_tokens :: rat

definition total_stake :: "validator list \<Rightarrow> rat" where
  "total_stake vs = (let t = sum_list (map va_tokens vs) in if t = 0 then 1 else t)"

definition validator_row :: "rat \<Rightarrow> validator \<Rightarrow> string" where
  "validator_row stake v = row
     [or_str (va_moniker v) (take 14 (va_operator v)),
      number_text (Fin (va_tokens v)) @ '' IRE'',
      to_fixed 2 (va_tokens v / stake * 100) @ ''%'']"

definition validators_html :: "validator list \<Rightarrow> string" where
  "validators_html vs = row [''VALIDATOR'', ''STAKE'', ''SHARE''] @
     concat (map (validator_row (total_stake vs)) (take 8 vs))"

text \<open>
  The shares the explorer shows are taken from all validators, not only the
  eight it lists: with non-negative stakes, each share lies between 0 and 1 and all
  shares add up to 1, unless nothing is staked at all, when every share is 0.
\<close>
theorem validator_shares:
  assumes "\<forall>v \<in> set vs. 0 \<le> va_tokens v"
  shows "(\<forall>v \<in> set vs. 0 \<le> va_tokens v / total_stake vs \<and> va_tokens v / total_stake vs \<le> 1) \<and>
    sum_list (map (\<lambda>v. va_tokens v / total_stake vs) vs) =
      (if sum_list (map va_tokens vs) = 0 then 0 else 1)"
proof -
  let ?t = "sum_list (map va_tokens vs)"
  have nn: "0 \<le> ?t" using assms by (intro sum_list_nonneg) auto
  have le: "va_tokens v \<le> ?t" if "v \<in> set vs" for v
    using that assms by (intro member_le_sum_list) auto
  have sum: "sum_list (map (\<lambda>v. va_tokens v / d) vs) = ?t / d" for d
    by (induction vs) (simp_all add: add_divide_distrib)
  show ?thesis
  proof (cases "?t = 0")
    case True
    with le assms have "\<forall>v \<in> set vs. va_tokens v = 0" by (metis order.antisym)
    with True sum show ?thesis by (simp add: total_stake_def)
  next
    case False
    with nn have "0 < ?t" by simp
    with le assms sum False show ?thesis by (simp add: total_stake_def divide_le_eq)
  qed
qed

lemma validator_shares_witness:
  "\<exists>vs. sum_list (map (\<lambda>v. va_tokens v / total_stake vs) vs) = 1 \<and> length vs = 2"
  using validator_shares [of "[\<lparr>va_moniker = [], va_operator = [], va_tokens = 3\<rparr>,
    \<lparr>va_moniker = [], va_operator = [], va_tokens = 1\<rparr>]"]
  by (intro exI [of _ "[\<lparr>va_moniker = [], va_operator = [], va_tokens = 3\<rparr>,
    \<lparr>va_moniker = [], va_operator = [], va_tokens = 1\<rparr>]"]) simp

text \<open>A validator's moniker is spliced into the page's HTML as it is.\<close>

lemma moniker_unescaped:
  "va_moniker v \<noteq> [] \<Longrightarrow> \<exists>pre post. validator_row stake v = pre @ va_moniker v @ post \<and>
     pre = ''<div class='' @ [dq] @ ''row'' @ [dq] @ ''><span>''"
  by (simp add: validator_row_def row_def or_str_def)

end
