(* ===== verification/Sha256.thy ===== *)
theory Sha256
  imports Prelude
begin

unbundle bit_operations_syntax

text \<open>
  \<open>sha256pure\<close> of site/brokers/assets/mandates.js, the hash behind every trait, symbol and
  skill, and the algorithm of FIPS 180-4 it is meant to compute.  The JavaScript keeps its
  numbers as doubles and cuts them to 32 bits with \<open>| 0\<close>; sums of a few 32-bit integers
  are exact in a double, so all of it is arithmetic on \<open>32 word\<close>.  The square and cube roots
  that give the constants are taken exactly.
\<close>

type_synonym w32 = "32 word"

section \<open>The code\<close>

definition rr :: "w32 \<Rightarrow> nat \<Rightarrow> w32" where
  "rr value amount = drop_bit amount value OR push_bit (32 - amount) value"

text \<open>The sieve: multiples below 313 of every prime found are marked, until 64 are found.\<close>

fun sieve :: "nat \<Rightarrow> nat \<Rightarrow> nat list \<Rightarrow> nat list \<Rightarrow> nat list" where
  "sieve 0 candidate composite primes = primes"
| "sieve (Suc fuel) candidate composite primes =
     (if length primes < 64 then
        (if candidate \<in> set composite then sieve fuel (candidate + 1) composite primes
         else sieve fuel (candidate + 1)
           (composite @ filter (\<lambda>i. i mod candidate = 0) [0..<313]) (primes @ [candidate]))
      else primes)"

definition primes64 :: "nat list" where "primes64 = sieve 311 2 [] []"

text \<open>The largest \<open>r\<close> with \<open>r ^ k \<le> n\<close>, bit by bit from \<open>2 ^ b\<close> down.\<close>

fun iroot :: "nat \<Rightarrow> nat \<Rightarrow> nat \<Rightarrow> nat \<Rightarrow> nat" where
  "iroot k n 0 r = r"
| "iroot k n (Suc b) r = (if (r + 2 ^ b) ^ k \<le> n then iroot k n b (r + 2 ^ b) else iroot k n b r)"

text \<open>\<open>(Math.pow(p, 1 / k) * 2 ** 32) | 0\<close>.\<close>

definition root_word :: "nat \<Rightarrow> nat \<Rightarrow> w32" where
  "root_word k p = of_nat (iroot k (p * 2 ^ (32 * k)) 38 0)"

definition init_hash :: "w32 list" where "init_hash = map (root_word 2) primes64"
definition k_words :: "w32 list" where "k_words = map (root_word 3) primes64"

function pad56 :: "nat list \<Rightarrow> nat list" where
  "pad56 s = (if length s mod 64 = 56 then s else pad56 (s @ [0]))"
  by pat_completeness auto
termination
proof (relation "measure (\<lambda>s. if length s mod 64 \<le> 56 then 56 - length s mod 64 else 120 - length s mod 64)")
  fix s :: "nat list"
  assume *: "length s mod 64 \<noteq> 56"
  have "length s mod 64 < 64" by simp
  with * show "(s @ [0], s) \<in> measure
      (\<lambda>s. if length s mod 64 \<le> 56 then 56 - length s mod 64 else 120 - length s mod 64)"
    by (auto simp: mod_Suc)
qed simp

declare pad56.simps [simp del]

text \<open>\<open>words[i >> 2] |= c << ((3 - i) % 4) * 8\<close>; a shift count is taken modulo 32.\<close>

definition or_byte :: "w32 list \<Rightarrow> nat \<times> nat \<Rightarrow> w32 list" where
  "or_byte words ic =
     (case ic of (i, c) \<Rightarrow>
        let slot = i div 4; w = push_bit (8 * (3 - i mod 4)) (of_nat c :: w32) in
        if slot < length words then words[slot := words ! slot OR w]
        else words @ replicate (slot - length words) 0 @ [w])"

definition message_words :: "nat list \<Rightarrow> w32 list" where
  "message_words codes =
     (let bits = length codes * 8; s = pad56 (codes @ [128]) in
      foldl or_byte [] (zip [0..<length s] s) @ [of_nat (bits div 2 ^ 32), of_nat bits])"

text \<open>One round: \<open>w\<close> grows by the word the round needs, \<open>hash\<close> shifts by one.\<close>

definition w_at :: "w32 list \<Rightarrow> nat \<Rightarrow> w32" where
  "w_at w i =
     (if i < 16 then w ! i
      else w ! (i - 16) + (rr (w ! (i - 15)) 7 XOR rr (w ! (i - 15)) 18 XOR drop_bit 3 (w ! (i - 15))) +
           w ! (i - 7) + (rr (w ! (i - 2)) 17 XOR rr (w ! (i - 2)) 19 XOR drop_bit 10 (w ! (i - 2))))"

definition js_round_step :: "w32 list \<times> w32 list \<Rightarrow> nat \<Rightarrow> w32 list \<times> w32 list" where
  "js_round_step st i =
     (case st of (w, hash) \<Rightarrow>
        let wi = w_at w i;
            w' = (if i < 16 then w else w @ [wi]);
            a = hash ! 0; e = hash ! 4;
            temp1 = hash ! 7 + (rr e 6 XOR rr e 11 XOR rr e 25)
              + ((e AND hash ! 5) XOR (NOT e AND hash ! 6)) + k_words ! i + wi;
            temp2 = (rr a 2 XOR rr a 13 XOR rr a 22)
              + ((a AND hash ! 1) XOR (a AND hash ! 2) XOR (hash ! 1 AND hash ! 2));
            shifted = (temp1 + temp2) # hash
        in (w', butlast (shifted[4 := shifted ! 4 + temp1])))"

definition js_block :: "w32 list \<Rightarrow> w32 list \<Rightarrow> w32 list" where
  "js_block oldHash w =
     map2 (+) (snd (foldl js_round_step (w, take 8 oldHash) [0..<64])) (take 8 oldHash)"

fun js_blocks :: "nat \<Rightarrow> w32 list \<Rightarrow> w32 list \<Rightarrow> w32 list" where
  "js_blocks 0 hash words = hash"
| "js_blocks (Suc n) hash words = js_blocks n (js_block hash (take 16 words)) (drop 16 words)"

definition byte_hex :: "nat \<Rightarrow> string" where
  "byte_hex b = (if b < 16 then ''0'' else []) @ hex b"

definition word_hex :: "w32 \<Rightarrow> string" where
  "word_hex w = concat (map (\<lambda>j. byte_hex (unat (drop_bit (j * 8) w AND 255))) [3, 2, 1, 0])"

definition sha256_codes :: "nat list \<Rightarrow> string" where
  "sha256_codes codes =
     (let words = message_words codes in
      concat (map word_hex (take 8 (js_blocks (length words div 16) init_hash words))))"

definition sha256pure :: "string \<Rightarrow> string" where
  "sha256pure s = sha256_codes (map of_char s)"

section \<open>FIPS 180-4\<close>

definition Ch :: "w32 \<Rightarrow> w32 \<Rightarrow> w32 \<Rightarrow> w32" where "Ch x y z = (x AND y) XOR (NOT x AND z)"
definition Maj :: "w32 \<Rightarrow> w32 \<Rightarrow> w32 \<Rightarrow> w32" where
  "Maj x y z = (x AND y) XOR (x AND z) XOR (y AND z)"
definition Sigma0 :: "w32 \<Rightarrow> w32" where
  "Sigma0 x = word_rotr 2 x XOR word_rotr 13 x XOR word_rotr 22 x"
definition Sigma1 :: "w32 \<Rightarrow> w32" where
  "Sigma1 x = word_rotr 6 x XOR word_rotr 11 x XOR word_rotr 25 x"
definition sigma0 :: "w32 \<Rightarrow> w32" where
  "sigma0 x = word_rotr 7 x XOR word_rotr 18 x XOR drop_bit 3 x"
definition sigma1 :: "w32 \<Rightarrow> w32" where
  "sigma1 x = word_rotr 17 x XOR word_rotr 19 x XOR drop_bit 10 x"

text \<open>The constants of the standard, each beside the prime it comes from.\<close>

definition K_table :: "(nat \<times> w32) list" where
  "K_table =
    [(2, 0x428a2f98), (3, 0x71374491), (5, 0xb5c0fbcf), (7, 0xe9b5dba5), (11, 0x3956c25b),
     (13, 0x59f111f1), (17, 0x923f82a4), (19, 0xab1c5ed5), (23, 0xd807aa98), (29, 0x12835b01),
     (31, 0x243185be), (37, 0x550c7dc3), (41, 0x72be5d74), (43, 0x80deb1fe), (47, 0x9bdc06a7),
     (53, 0xc19bf174), (59, 0xe49b69c1), (61, 0xefbe4786), (67, 0x0fc19dc6), (71, 0x240ca1cc),
     (73, 0x2de92c6f), (79, 0x4a7484aa), (83, 0x5cb0a9dc), (89, 0x76f988da), (97, 0x983e5152),
     (101, 0xa831c66d), (103, 0xb00327c8), (107, 0xbf597fc7), (109, 0xc6e00bf3), (113, 0xd5a79147),
     (127, 0x06ca6351), (131, 0x14292967), (137, 0x27b70a85), (139, 0x2e1b2138), (149, 0x4d2c6dfc),
     (151, 0x53380d13), (157, 0x650a7354), (163, 0x766a0abb), (167, 0x81c2c92e), (173, 0x92722c85),
     (179, 0xa2bfe8a1), (181, 0xa81a664b), (191, 0xc24b8b70), (193, 0xc76c51a3), (197, 0xd192e819),
     (199, 0xd6990624), (211, 0xf40e3585), (223, 0x106aa070), (227, 0x19a4c116), (229, 0x1e376c08),
     (233, 0x2748774c), (239, 0x34b0bcb5), (241, 0x391c0cb3), (251, 0x4ed8aa4a), (257, 0x5b9cca4f),
     (263, 0x682e6ff3), (269, 0x748f82ee), (271, 0x78a5636f), (277, 0x84c87814), (281, 0x8cc70208),
     (283, 0x90befffa), (293, 0xa4506ceb), (307, 0xbef9a3f7), (311, 0xc67178f2)]"

definition K256 :: "w32 list" where "K256 = map snd K_table"

definition H256 :: "w32 list" where
  "H256 = map snd
    [(2, 0x6a09e667), (3, 0xbb67ae85), (5, 0x3c6ef372), (7, 0xa54ff53a),
     (11, 0x510e527f), (13, 0x9b05688c), (17, 0x1f83d9ab), (19, 0x5be0cd19) :: nat \<times> w32]"

text \<open>The standard's padding: a one bit, the fewest zeros, the length in 64 bits.\<close>

definition be_bytes :: "nat \<Rightarrow> nat \<Rightarrow> nat list" where
  "be_bytes n v = map (\<lambda>i. v div 256 ^ (n - 1 - i) mod 256) [0..<n]"

definition sha_pad :: "nat list \<Rightarrow> nat list" where
  "sha_pad m = m @ [128] @ replicate ((119 - length m mod 64) mod 64) 0 @ be_bytes 8 (8 * length m)"

fun be_words :: "nat list \<Rightarrow> w32 list" where
  "be_words (a # b # c # d # bs) = of_nat (((a * 256 + b) * 256 + c) * 256 + d) # be_words bs"
| "be_words _ = []"

fun chunks :: "nat \<Rightarrow> 'a list \<Rightarrow> 'a list list" where
  "chunks 0 xs = []"
| "chunks (Suc n) xs = take 16 xs # chunks n (drop 16 xs)"

text \<open>The message schedule of a block and one round on the working variables.\<close>

fun schedule :: "nat \<Rightarrow> w32 list \<Rightarrow> w32 list" where
  "schedule 0 w = w"
| "schedule (Suc n) w = schedule n
     (w @ [sigma1 (w ! (length w - 2)) + w ! (length w - 7) + sigma0 (w ! (length w - 15)) + w ! (length w - 16)])"

fun sha_round :: "w32 list \<Rightarrow> w32 \<times> w32 \<Rightarrow> w32 list" where
  "sha_round [a, b, c, d, e, f, g, h] (k, w) =
     (let t1 = h + Sigma1 e + Ch e f g + k + w; t2 = Sigma0 a + Maj a b c
      in [t1 + t2, a, b, c, d + t1, e, f, g])"
| "sha_round st kw = st"

definition sha_compress :: "w32 list \<Rightarrow> w32 list \<Rightarrow> w32 list" where
  "sha_compress H block = map2 (+) (foldl sha_round H (zip K256 (schedule 48 block))) H"

definition sha256_fips :: "nat list \<Rightarrow> string" where
  "sha256_fips m =
     (let bytes = sha_pad m; blocks = chunks (length bytes div 64) (be_words bytes) in
      concat (map (\<lambda>w. pad_start 8 (CHR ''0'') (hex (unat w))) (foldl sha_compress H256 blocks)))"

section \<open>The constants\<close>

text \<open>
  The sieve is trial division by the primes found; below 324 the primes up to 17 decide.
\<close>

fun trial_all :: "nat \<Rightarrow> nat \<Rightarrow> nat list \<Rightarrow> nat list" where
  "trial_all 0 c ps = ps"
| "trial_all (Suc fuel) c ps =
     (if length ps < 64 then
        (if list_ex (\<lambda>p. c mod p = 0) ps then trial_all fuel (c + 1) ps
         else trial_all fuel (c + 1) (ps @ [c]))
      else ps)"

definition small_primes :: "nat list" where "small_primes = [2, 3, 5, 7, 11, 13, 17]"

fun trial :: "nat \<Rightarrow> nat \<Rightarrow> nat \<Rightarrow> nat list \<Rightarrow> nat list" where
  "trial 0 c n ps = ps"
| "trial (Suc fuel) c n ps =
     (if n < 64 then
        (if list_ex (\<lambda>p. c mod p = 0) small_primes then trial fuel (c + 1) n ps
         else trial fuel (c + 1) (n + 1) (ps @ [c]))
      else ps)"

lemma sieve_trial_all:
  "c + fuel \<le> 313 \<Longrightarrow> \<forall>i < 313. i \<in> set cs \<longleftrightarrow> (\<exists>p \<in> set ps. i mod p = 0) \<Longrightarrow>
   sieve fuel c cs ps = trial_all fuel c ps"
proof (induction fuel arbitrary: c cs ps)
  case (Suc fuel)
  have c: "c \<in> set cs \<longleftrightarrow> list_ex (\<lambda>p. c mod p = 0) ps"
    using Suc.prems by (auto simp: list_ex_iff)
  have "\<forall>i < 313. i \<in> set (cs @ filter (\<lambda>i. i mod c = 0) [0..<313]) \<longleftrightarrow>
      (\<exists>p \<in> set (ps @ [c]). i mod p = 0)"
    using Suc.prems(2) by auto
  with Suc c show ?case by simp
qed simp

lemma small_divisor:
  assumes "c < 324" "1 < d" "d < c" "c mod d = 0"
  shows "list_ex (\<lambda>p. c mod p = 0) small_primes"
proof -
  have dc: "d * (c div d) = c" using assms(4) by auto
  obtain e where e: "e dvd c" "1 < e" "e < 18"
  proof (cases "d < 18")
    case True
    with assms that show thesis by (metis mod_0_imp_dvd)
  next
    case False
    have "c div d < 18"
    proof (rule ccontr)
      assume "\<not> c div d < 18"
      then have "18 * 18 \<le> d * (c div d)" using False by (intro mult_le_mono) simp_all
      with dc assms(1) show False by simp
    qed
    moreover have "c div d \<noteq> 0" using dc assms(3) by (metis mult_0_right not_less0)
    moreover have "c div d \<noteq> 1" using dc assms(3) by (metis mult.right_neutral less_irrefl)
    moreover have "c div d dvd c" using dc by (metis dvd_triv_right)
    ultimately show thesis using that [of "c div d"] by linarith
  qed
  have "e \<in> set [2..<18]" unfolding set_upt using e by simp
  also have "[2..<18] = [2, 3, 4, 5, 6, 7, 8, 9, 10, 11, 12, 13, 14, 15, 16, 17 :: nat]"
    by (simp add: upt_rec)
  finally have "e \<in> set [2, 3, 4, 5, 6, 7, 8, 9, 10, 11, 12, 13, 14, 15, 16, 17]" .
  then have "\<exists>p \<in> set small_primes. p dvd e" by (auto simp: small_primes_def)
  then obtain p where p: "p \<in> set small_primes" "p dvd e" ..
  have "p dvd c" using p(2) e(1) by (rule dvd_trans)
  then have "c mod p = 0" by (rule dvd_imp_mod_0)
  with p(1) show ?thesis unfolding list_ex_iff by (rule bexI [rotated])
qed

lemma trial_all_trial:
  "c + fuel \<le> 313 \<Longrightarrow> 17 < c \<Longrightarrow> set small_primes \<subseteq> set ps \<Longrightarrow> \<forall>p \<in> set ps. 1 < p \<and> p < c \<Longrightarrow>
   trial_all fuel c ps = trial fuel c (length ps) ps"
proof (induction fuel arbitrary: c ps)
  case (Suc fuel)
  have c: "list_ex (\<lambda>p. c mod p = 0) ps \<longleftrightarrow> list_ex (\<lambda>p. c mod p = 0) small_primes"
  proof
    assume "list_ex (\<lambda>p. c mod p = 0) ps"
    then obtain p where "p \<in> set ps" "c mod p = 0" by (auto simp: list_ex_iff)
    with Suc.prems show "list_ex (\<lambda>p. c mod p = 0) small_primes"
      by (intro small_divisor [of c p]) auto
  next
    assume "list_ex (\<lambda>p. c mod p = 0) small_primes"
    with Suc.prems(3) show "list_ex (\<lambda>p. c mod p = 0) ps" unfolding list_ex_iff by (meson subsetD)
  qed
  have "trial_all fuel (c + 1) ps = trial fuel (c + 1) (length ps) ps"
    using Suc.prems by (intro Suc.IH) auto
  moreover have "trial_all fuel (c + 1) (ps @ [c]) = trial fuel (c + 1) (length (ps @ [c])) (ps @ [c])"
    using Suc.prems by (intro Suc.IH) auto
  ultimately show ?case using c by simp
qed simp

lemma trial_numeral:
  "trial (numeral v) c n ps =
     (if n < 64 then
        (if list_ex (\<lambda>p. c mod p = 0) small_primes then trial (pred_numeral v) (c + 1) n ps
         else trial (pred_numeral v) (c + 1) (n + 1) (ps @ [c]))
      else ps)"
  by (simp add: numeral_eq_Suc)

lemma trial_all_numeral:
  "trial_all (numeral v) c ps =
     (if length ps < 64 then
        (if list_ex (\<lambda>p. c mod p = 0) ps then trial_all (pred_numeral v) (c + 1) ps
         else trial_all (pred_numeral v) (c + 1) (ps @ [c]))
      else ps)"
  by (simp add: numeral_eq_Suc)

lemma trial_all_start: "trial_all 311 2 [] = trial_all 295 18 small_primes"
proof -
  have "trial_all 311 2 [] = trial_all 303 10 [2, 3, 5, 7]"
    by (subst trial_all_numeral, simp)+
  also have "\<dots> = trial_all 295 18 [2, 3, 5, 7, 11, 13, 17]"
    by (subst trial_all_numeral, simp)+
  finally show ?thesis by (simp add: small_primes_def)
qed

lemma primes64_eq:
  "primes64 =
    [2, 3, 5, 7, 11, 13, 17, 19, 23, 29, 31, 37, 41, 43, 47, 53, 59, 61, 67, 71, 73, 79, 83, 89, 97,
     101, 103, 107, 109, 113, 127, 131, 137, 139, 149, 151, 157, 163, 167, 173, 179, 181, 191, 193,
     197, 199, 211, 223, 227, 229, 233, 239, 241, 251, 257, 263, 269, 271, 277, 281, 283, 293, 307, 311]"
proof -
  have "primes64 = trial_all 311 2 []" unfolding primes64_def by (rule sieve_trial_all) simp_all
  also have "\<dots> = trial_all 295 18 small_primes" by (rule trial_all_start)
  also have "\<dots> = trial 295 18 (length small_primes) small_primes"
    by (rule trial_all_trial) (auto simp: small_primes_def)
  also have "length small_primes = 7" by (simp add: small_primes_def)
  finally show ?thesis by (simp add: trial_numeral small_primes_def)
qed

lemma iroot_spec:
  "r ^ k \<le> n \<Longrightarrow> n < (r + 2 ^ b) ^ k \<Longrightarrow> iroot k n b r ^ k \<le> n \<and> n < (iroot k n b r + 1) ^ k"
proof (induction b arbitrary: r)
  case (Suc b)
  show ?case
  proof (cases "(r + 2 ^ b) ^ k \<le> n")
    case True
    with Suc.IH [of "r + 2 ^ b"] Suc.prems(2) show ?thesis by (simp add: mult_2 add.assoc)
  next
    case False
    then show ?thesis using Suc.IH [of r] Suc.prems(1) by simp
  qed
qed simp

lemma iroot_unique:
  assumes "r ^ k \<le> n" "n < (r + 1) ^ k" "0 < k" "n < (2 ^ b) ^ k"
  shows "iroot k n b 0 = r"
proof -
  have "iroot k n b 0 ^ k \<le> n \<and> n < (iroot k n b 0 + 1) ^ k"
    using assms(3,4) by (intro iroot_spec) (simp_all add: zero_power)
  then have "iroot k n b 0 < r + 1" "r < iroot k n b 0 + 1"
    using assms(1,2) by (meson le_less_trans power_less_imp_less_base zero_le)+
  then show ?thesis by simp
qed

lemma root_word_eq:
  assumes "r ^ k \<le> p * 2 ^ (32 * k)" "p * 2 ^ (32 * k) < (r + 1) ^ k" "0 < k" "r < 2 ^ 38"
  shows "root_word k p = of_nat r"
proof -
  have "(r + 1) ^ k \<le> (2 ^ 38) ^ k" using assms(4) by (intro power_mono) simp_all
  then have "p * 2 ^ (32 * k) < (2 ^ 38) ^ k" using assms(2) by linarith
  then show ?thesis unfolding root_word_def using iroot_unique [OF assms(1-3)] by simp
qed

text \<open>The cube roots of the primes times \<open>2 ^ 32\<close>, rounded down.\<close>

definition R3 :: "nat list" where
  "R3 =
    [5411319704, 6194414737, 7344290767, 8215976869, 9551921755, 10098905585, 11043570340, 11460697813,
     12214315672, 13195500289, 13492127166, 14311783875, 14809980276, 15046980094, 15499789991, 16133124468,
     16720292289, 16907126662, 17444216262, 17784676812, 17950125167, 18429019306, 18734950876, 19175934170,
     19734090066, 20001703533, 20132865992, 20390182855, 20516441075, 20764397895, 21588763473, 21813078375,
     22141143685, 22248366392, 22769593852, 22871018771, 23170020180, 23461497531, 23651862830, 23931792517,
     24205322401, 24295138891, 24734567280, 24820601251, 24990902297, 25075189284, 25569408389, 26045227120,
     26200031510, 26276752392, 26428864332, 26653801653, 26727943347, 27092625994, 27306805839, 27517677555,
     27725365998, 27793908591, 27997534228, 28131656200, 28198240250, 28526537963, 28973835255, 29099129074]"

lemma roots3: "list_all2 (\<lambda>p r. r ^ 3 \<le> p * 2 ^ (32 * 3) \<and> p * 2 ^ (32 * 3) < (r + 1) ^ 3 \<and> r < 2 ^ 38) primes64 R3"
  unfolding primes64_eq R3_def by simp

lemma R3_K: "map of_nat R3 = K256" unfolding R3_def K256_def K_table_def by simp

lemma k_words_eq: "k_words = K256"
proof -
  have "map (root_word 3) ps = map of_nat rs" if "list_all2 (\<lambda>p r. r ^ 3 \<le> p * 2 ^ (32 * 3) \<and> p * 2 ^ (32 * 3) < (r + 1) ^ 3 \<and> r < 2 ^ 38) ps rs" for ps rs
    using that
  proof (induction rule: list_all2_induct)
    case (Cons x xs y ys)
    then have "root_word 3 x = of_nat y" by (intro root_word_eq) (simp_all only: zero_less_numeral)
    with Cons show ?case by simp
  qed simp
  from this [OF roots3] show ?thesis unfolding k_words_def R3_K by simp
qed

lemma H_eq: "take 8 init_hash = H256"
proof -
  have "take 8 primes64 = [2, 3, 5, 7, 11, 13, 17, 19]" by (simp add: primes64_eq)
  then have "take 8 init_hash = map (root_word 2) [2, 3, 5, 7, 11, 13, 17, 19]"
    by (simp only: init_hash_def take_map)
  also have "\<dots> = map of_nat [6074000999, 7439101573, 9603838834, 11363415354, 14244795007, 15485724812, 17708603819, 18721328409]"
   by (simp add: root_word_eq [of 6074000999] root_word_eq [of 7439101573] root_word_eq [of 9603838834]
    root_word_eq [of 11363415354] root_word_eq [of 14244795007] root_word_eq [of 15485724812] root_word_eq [of 17708603819]
    root_word_eq [of 18721328409])
  also have "\<dots> = H256" unfolding H256_def by simp
  finally show ?thesis .
qed

lemma rr_rotr: "0 < n \<Longrightarrow> n < 32 \<Longrightarrow> rr x n = word_rotr n x"
proof (rule bit_word_eqI)
  fix i assume n: "0 < n" "n < 32" and "i < LENGTH(32)"
  then have i: "i < 32" by simp
  show "bit (rr x n) i \<longleftrightarrow> bit (word_rotr n x) i"
  proof (cases "i + n < 32")
    case True
    then have "\<not> 32 - n \<le> i" by simp
    with True n i show ?thesis by (simp add: rr_def bit_simps add.commute)
  next
    case False
    then have "(i + n) mod 32 = i - (32 - n)" using n i by (simp add: mod_if)
    moreover have "\<not> bit x (n + i)" using False bit_imp_le_length [of x "n + i"] by auto
    moreover have "32 - n \<le> i" using False by simp
    ultimately show ?thesis using n i False by (simp add: rr_def bit_simps)
  qed
qed

end
