(* ===== verification/Sha256_Fips.thy ===== *)
theory Sha256_Fips
  imports Sha256
begin

unbundle bit_operations_syntax

text \<open>
  \<open>sha256pure\<close> computes SHA-256: the code's padding, its lazily grown schedule, its shifting
  array of working variables and its byte-wise output are the standard's.
\<close>

section \<open>Words from bytes\<close>

lemma or_low:
  assumes "y < 256"
  shows "push_bit 8 x OR of_nat y = x * 256 + (of_nat y :: w32)"
proof -
  have "take_bit 8 y = y" using assms by (simp add: take_bit_nat_eq_self)
  then have "of_nat y = take_bit 8 (of_nat y :: w32)" by (simp only: take_bit_of_nat)
  then have low: "\<not> bit (of_nat y :: w32) n" if "8 \<le> n" for n
    using that by (metis bit_take_bit_iff not_less)
  have "push_bit 8 x + (of_nat y :: w32) = push_bit 8 x OR of_nat y"
  proof (rule disjunctive_add_eq_or, rule bit_word_eqI)
    fix n
    show "bit (push_bit 8 x AND (of_nat y :: w32)) n \<longleftrightarrow> bit (0 :: w32) n"
      using low [of n] by (auto simp: bit_simps)
  qed
  then show ?thesis by (simp add: push_bit_eq_mult mult.commute)
qed

lemma word_of_bytes:
  assumes "b < 256" "c < 256" "d < 256"
  shows "((push_bit 24 (of_nat a) OR push_bit 16 (of_nat b)) OR push_bit 8 (of_nat c)) OR of_nat d =
    (of_nat (((a * 256 + b) * 256 + c) * 256 + d) :: w32)"
proof -
  let ?ab = "push_bit 8 (of_nat a) OR of_nat b :: w32"
  let ?abc = "push_bit 8 ?ab OR of_nat c :: w32"
  have "push_bit 24 (of_nat a) OR push_bit 16 (of_nat b) = push_bit 16 ?ab" by (simp add: push_bit_or)
  then have "(push_bit 24 (of_nat a) OR push_bit 16 (of_nat b)) OR push_bit 8 (of_nat c) = push_bit 8 ?abc"
    by (simp add: push_bit_or)
  moreover have "push_bit 8 ?abc OR of_nat d = ?abc * 256 + of_nat d" using assms(3) by (rule or_low)
  moreover have "?abc = ?ab * 256 + of_nat c" using assms(2) by (rule or_low)
  moreover have "?ab = of_nat a * 256 + of_nat b" using assms(1) by (rule or_low)
  ultimately show ?thesis by simp
qed

lemma be_words_append:
  "length xs mod 4 = 0 \<Longrightarrow> be_words (xs @ ys) = be_words xs @ be_words ys"
  by (induction xs rule: be_words.induct) auto

lemma upt_four: "[n..<n + 4 + m] = [n, n + 1, n + 2, n + 3] @ [n + 4..<n + 4 + m]"
proof -
  have "[n..<n + 4] = [n, n + 1, n + 2, n + 3]" by (simp add: eval_nat_numeral)
  then show ?thesis by (simp only: upt_add_eq_append [of n "n + 4" m, simplified])
qed

lemma or_byte_new: "or_byte ws (4 * length ws, a) = ws @ [push_bit 24 (of_nat a)]"
  by (simp add: or_byte_def Let_def)

lemma or_byte_old:
  assumes "j < 4"
  shows "or_byte (ws @ [w]) (4 * length ws + j, c) = ws @ [w OR push_bit (8 * (3 - j)) (of_nat c)]"
proof -
  have "(4 * length ws + j) div 4 = length ws" "(4 * length ws + j) mod 4 = j" using assms by simp_all
  then show ?thesis by (simp add: or_byte_def Let_def nth_append list_update_append)
qed

lemma or_byte_fold:
  "length s mod 4 = 0 \<Longrightarrow> \<forall>c \<in> set s. c < 256 \<Longrightarrow> length ws = k \<Longrightarrow>
   foldl or_byte ws (zip [4 * k..<4 * k + length s] s) = ws @ be_words s"
proof (induction s arbitrary: ws k rule: be_words.induct)
  case (1 a b c d s)
  let ?w = "of_nat (((a * 256 + b) * 256 + c) * 256 + d) :: w32"
  have idx: "[4 * k..<4 * k + length (a # b # c # d # s)] =
      [4 * k, 4 * k + 1, 4 * k + 2, 4 * k + 3] @ [4 * Suc k..<4 * Suc k + length s]"
  proof -
    have "4 * k + length (a # b # c # d # s) = 4 * k + 4 + length s" "4 * Suc k = 4 * k + 4" by simp_all
    then show ?thesis using upt_four [of "4 * k" "length s"] by (simp only:)
  qed
  have "foldl or_byte ws (zip [4 * k, 4 * k + 1, 4 * k + 2, 4 * k + 3] [a, b, c, d]) =
      ws @ [((push_bit 24 (of_nat a) OR push_bit 16 (of_nat b)) OR push_bit 8 (of_nat c)) OR of_nat d]"
    using "1.prems"(3) or_byte_new [of ws a] or_byte_old [of 1 ws _ b] or_byte_old [of 2 ws _ c]
      or_byte_old [of 3 ws _ d]
    by (simp only: zip_Cons_Cons foldl_Cons zip_Nil foldl_Nil) simp
  also have "\<dots> = ws @ [?w]" using word_of_bytes [of b c d a] "1.prems"(2) by simp
  finally have four: "foldl or_byte ws (zip [4 * k, 4 * k + 1, 4 * k + 2, 4 * k + 3] [a, b, c, d]) = ws @ [?w]" .
  have "foldl or_byte (ws @ [?w]) (zip [4 * Suc k..<4 * Suc k + length s] s) = (ws @ [?w]) @ be_words s"
    using "1.prems" by (intro "1.IH") (simp_all add: mod_Suc split: if_splits)
  then show ?case
    using four unfolding idx by (simp add: zip_append1 foldl_append)
qed auto

section \<open>Padding\<close>

lemma pad_count: "x < 64 \<Longrightarrow> (120 - x) mod 64 = (if x \<le> 56 then 56 - x else 120 - x :: nat)"
proof (cases "x \<le> 56")
  case True
  then have "120 - x = (56 - x) + 64" by simp
  then have "(120 - x) mod 64 = (56 - x) mod 64" by (simp only: mod_add_self2)
  with True show ?thesis by simp
next
  case False
  moreover assume "x < 64"
  ultimately show ?thesis by simp
qed

lemma pad56_eq: "pad56 s = s @ replicate ((120 - length s mod 64) mod 64) 0"
proof (induction s rule: pad56.induct)
  case (1 s)
  show ?case
  proof (cases "length s mod 64 = 56")
    case True
    then show ?thesis by (simp add: pad56.simps [of s])
  next
    case False
    let ?x = "length s mod 64"
    have x: "?x < 64" by simp
    have y: "Suc (length s) mod 64 = (if ?x = 63 then 0 else Suc ?x)" by (simp add: mod_Suc)
    then have "Suc (length s) mod 64 < 64" by simp
    with x y False have "(120 - ?x) mod 64 = Suc ((120 - Suc (length s) mod 64) mod 64)"
      by (simp only: pad_count) (auto split: if_splits)
    with 1 False show ?thesis by (simp add: pad56.simps [of s])
  qed
qed

lemma mod_split: "(u :: nat) mod (256 * m) = (u div m mod 256) * m + u mod m"
  by (metis mod_mult2_eq mult.commute add.commute)

lemma horner_256:
  "m = a * 16777216 + r \<Longrightarrow> r = b * 65536 + s \<Longrightarrow> s = c * 256 + d \<Longrightarrow>
   ((a * 256 + b) * 256 + c) * 256 + d = (m :: nat)"
  by simp

lemma nat_bytes:
  "(((u div 16777216 mod 256) * 256 + u div 65536 mod 256) * 256 + u div 256 mod 256) * 256 + u mod 256 =
   (u :: nat) mod 4294967296"
proof -
  have "u mod 4294967296 = (u div 16777216 mod 256) * 16777216 + u mod 16777216"
    using mod_split [of u 16777216] by simp
  moreover have "u mod 16777216 = (u div 65536 mod 256) * 65536 + u mod 65536"
    using mod_split [of u 65536] by simp
  moreover have "u mod 65536 = (u div 256 mod 256) * 256 + u mod 256"
    using mod_split [of u 256] by simp
  ultimately show ?thesis by (rule horner_256)
qed

lemma of_nat_mod_32: "(of_nat (u mod 4294967296) :: w32) = of_nat u"
  by (simp add: word_of_nat_eq_iff take_bit_eq_mod)

lemma be_words_length: "be_words (be_bytes 8 v) = [of_nat (v div 2 ^ 32), of_nat v]"
proof -
  let ?u = "v div 4294967296"
  have up: "[0..<8] = [0, 1, 2, 3, 4, 5, 6, 7 :: nat]" by (simp add: upt_rec)
  have hi: "v div 72057594037927936 = ?u div 16777216" "v div 281474976710656 = ?u div 65536"
    "v div 1099511627776 = ?u div 256"
    by (simp_all add: div_mult2_eq [symmetric])
  have "be_words (be_bytes 8 v) =
      [of_nat ((((?u div 16777216 mod 256) * 256 + ?u div 65536 mod 256) * 256 + ?u div 256 mod 256) * 256 + ?u mod 256),
       of_nat ((((v div 16777216 mod 256) * 256 + v div 65536 mod 256) * 256 + v div 256 mod 256) * 256 + v mod 256)]"
    by (simp only: be_bytes_def up list.map be_words.simps) (simp add: hi)
  then show ?thesis by (simp only: nat_bytes of_nat_mod_32) simp
qed

lemma pad_total: "(n + 1 + (119 - n mod 64) mod 64) mod 64 = (56 :: nat)"
proof -
  obtain q x where n: "n = 64 * q + x" and x: "x < 64"
    by (metis mod_less_divisor mult_div_mod_eq zero_less_numeral)
  then have m: "n mod 64 = x" by simp
  show ?thesis
  proof (cases "x \<le> 55")
    case True
    then have "119 - x = (55 - x) + 64" by simp
    then have "(119 - x) mod 64 = (55 - x) mod 64" by (simp only: mod_add_self2)
    with True have "n + 1 + (119 - n mod 64) mod 64 = 56 + 64 * q" by (simp add: m n)
    then show ?thesis by (simp only: mod_mult_self2) simp
  next
    case False
    with x have "n + 1 + (119 - n mod 64) mod 64 = 56 + 64 * (q + 1)" by (simp add: m n)
    then show ?thesis by (simp only: mod_mult_self2) simp
  qed
qed

lemma message_words_eq:
  assumes "\<forall>c \<in> set m. c < 256"
  shows "message_words m = be_words (sha_pad m)"
proof -
  let ?s = "m @ [128] @ replicate ((119 - length m mod 64) mod 64) 0"
  have s: "pad56 (m @ [128]) = ?s"
  proof -
    have "(120 - Suc (length m) mod 64) mod 64 = (119 - length m mod 64) mod 64"
    proof (cases "length m mod 64 = 63")
      case False
      then have "Suc (length m) mod 64 = Suc (length m mod 64)" by (simp add: mod_Suc)
      then show ?thesis by simp
    qed (simp add: mod_Suc)
    then show ?thesis by (simp add: pad56_eq)
  qed
  have "length ?s = length m + 1 + (119 - length m mod 64) mod 64" by simp
  then have "length ?s mod 64 = 56" by (simp only: pad_total)
  then have len: "length ?s mod 4 = 0" by presburger
  have "\<forall>c \<in> set ?s. c < 256" using assms by auto
  with or_byte_fold [of ?s "[]" 0] len
  have "foldl or_byte [] (zip [0..<length ?s] ?s) = be_words ?s" by simp
  moreover have "be_words (sha_pad m) = be_words ?s @ be_words (be_bytes 8 (8 * length m))"
    using be_words_append [OF len] by (simp add: sha_pad_def)
  ultimately show ?thesis
    by (simp add: message_words_def Let_def s be_words_length mult.commute)
qed

section \<open>Schedule and rounds\<close>

lemma schedule_length [simp]: "length (schedule n w) = length w + n"
  by (induction n arbitrary: w) auto

lemma schedule_prefix: "i < length w \<Longrightarrow> schedule n w ! i = w ! i"
  by (induction n arbitrary: w) (auto simp: nth_append)

lemma schedule_rec:
  "16 \<le> length w \<Longrightarrow> length w \<le> i \<Longrightarrow> i < length w + n \<Longrightarrow>
   schedule n w ! i = sigma1 (schedule n w ! (i - 2)) + schedule n w ! (i - 7) +
     sigma0 (schedule n w ! (i - 15)) + schedule n w ! (i - 16)"
proof (induction n arbitrary: w)
  case (Suc n)
  let ?x = "sigma1 (w ! (length w - 2)) + w ! (length w - 7) + sigma0 (w ! (length w - 15)) + w ! (length w - 16)"
  show ?case
  proof (cases "i = length w")
    case True
    have "schedule n (w @ [?x]) ! j = w ! j" if "j < length w" for j
      using that by (simp add: schedule_prefix nth_append)
    moreover have "schedule n (w @ [?x]) ! i = ?x" using True by (simp add: schedule_prefix)
    ultimately show ?thesis using True Suc.prems(1) by simp
  next
    case False
    with Suc.prems show ?thesis using Suc.IH [of "w @ [?x]"] by simp
  qed
qed simp

lemma w_at_schedule:
  assumes "length w = 16" "i < 64"
  shows "w_at (take (max 16 i) (schedule 48 w)) i = schedule 48 w ! i"
proof (cases "i < 16")
  case True
  then show ?thesis by (simp add: w_at_def)
next
  case False
  then show ?thesis using assms schedule_rec [of w i 48]
    by (simp add: w_at_def rr_rotr sigma0_def sigma1_def ac_simps)
qed

lemma length_8E:
  assumes "length xs = 8"
  obtains a b c d e f g h where "xs = [a, b, c, d, e, f, g, h]"
proof -
  have "length xs = Suc (Suc (Suc (Suc (Suc (Suc (Suc (Suc 0)))))))" using assms by simp
  then show thesis using that by (auto simp: length_Suc_conv)
qed

lemma js_round_step_round:
  assumes "length st = 8"
  shows "snd (js_round_step (w, st) i) = sha_round st (K256 ! i, w_at w i)"
  using assms by (rule length_8E)
    (simp add: js_round_step_def Let_def k_words_eq rr_rotr Sigma0_def Sigma1_def Ch_def Maj_def ac_simps)

lemma js_round_step_words:
  "fst (js_round_step (w, st) i) = (if i < 16 then w else w @ [w_at w i])"
  by (simp add: js_round_step_def Let_def)

lemma sha_round_length: "length st = 8 \<Longrightarrow> length (sha_round st kw) = 8"
  by (cases kw) (auto elim!: length_8E simp: Let_def)

lemma sha_rounds_length: "length st = 8 \<Longrightarrow> length (foldl sha_round st kws) = 8"
  by (induction kws arbitrary: st) (auto simp: sha_round_length)

lemma K256_length: "length K256 = 64" by (simp add: K256_def K_table_def)

lemma js_rounds:
  assumes "length w = 16" "length st = 8" "i \<le> 64"
  shows "foldl js_round_step (w, st) [0..<i] =
    (take (max 16 i) (schedule 48 w), foldl sha_round st (take i (zip K256 (schedule 48 w))))"
  using assms(3)
proof (induction i)
  case 0
  have "take 16 (schedule 48 w) = w"
    by (rule nth_equalityI) (simp_all add: assms(1) schedule_prefix)
  then show ?case by simp
next
  case (Suc i)
  let ?S = "schedule 48 w" and ?st = "foldl sha_round st (take i (zip K256 (schedule 48 w)))"
  have i: "i < 64" using Suc.prems by simp
  have kw: "take (Suc i) (zip K256 ?S) = take i (zip K256 ?S) @ [(K256 ! i, ?S ! i)]"
    using i assms(1) by (simp add: take_Suc_conv_app_nth K256_length)
  have wi: "w_at (take (max 16 i) ?S) i = ?S ! i" using assms(1) i by (rule w_at_schedule)
  have "snd (js_round_step (take (max 16 i) ?S, ?st) i) = sha_round ?st (K256 ! i, ?S ! i)"
    using js_round_step_round [OF sha_rounds_length [OF assms(2)]] wi by simp
  moreover have "fst (js_round_step (take (max 16 i) ?S, ?st) i) = take (max 16 (Suc i)) ?S"
  proof (cases "i < 16")
    case True
    then have "max 16 i = 16" "max 16 (Suc i) = 16" by simp_all
    with True show ?thesis by (simp add: js_round_step_words)
  next
    case False
    then have "max 16 i = i" "max 16 (Suc i) = Suc i" by simp_all
    with False wi i assms(1) show ?thesis by (simp add: js_round_step_words take_Suc_conv_app_nth)
  qed
  ultimately have "js_round_step (take (max 16 i) ?S, ?st) i =
      (take (max 16 (Suc i)) ?S, sha_round ?st (K256 ! i, ?S ! i))"
    by (metis prod.collapse)
  with Suc.IH i kw show ?case by simp
qed

lemma js_block_compress:
  assumes "length w = 16" "8 \<le> length H"
  shows "js_block H w = sha_compress (take 8 H) w"
proof -
  have "take 64 (zip K256 (schedule 48 w)) = zip K256 (schedule 48 w)"
    by (simp add: K256_length)
  moreover have "length (take 8 H) = 8" using assms(2) by simp
  ultimately show ?thesis
    using js_rounds [OF assms(1), of "take 8 H" 64] by (simp add: js_block_def sha_compress_def)
qed

lemma sha_compress_length: "length H = 8 \<Longrightarrow> length (sha_compress H w) = 8"
  by (simp add: sha_compress_def sha_rounds_length)

lemma js_blocks_compress:
  "length words = 16 * n \<Longrightarrow> 8 \<le> length H \<Longrightarrow>
   take 8 (js_blocks n H words) = foldl sha_compress (take 8 H) (chunks n words)"
proof (induction n arbitrary: H words)
  case (Suc n)
  have "length (take 16 words) = 16" using Suc.prems(1) by simp
  then have b: "js_block H (take 16 words) = sha_compress (take 8 H) (take 16 words)"
    using Suc.prems(2) by (rule js_block_compress)
  have l: "length (sha_compress (take 8 H) (take 16 words)) = 8"
    using Suc.prems(2) by (intro sha_compress_length) simp
  then have "take 8 (js_block H (take 16 words)) = sha_compress (take 8 H) (take 16 words)"
    by (simp add: b)
  with Suc l show ?case by (simp add: b)
qed simp

section \<open>Output\<close>

lemma pad_hex_Suc:
  "0 < k \<Longrightarrow> pad_start (Suc k) (CHR ''0'') (hex n) = pad_start k (CHR ''0'') (hex (n div 16)) @ [digit_char (n mod 16)]"
proof (cases "n < 16")
  case True
  assume "0 < k"
  then obtain k' where "k = Suc k'" by (cases k) auto
  with True show ?thesis
    by (simp add: pad_start_def radix_def digs.simps [of 16 n] digs.simps [of 16 0] replicate_append_same)
next
  case False
  then show ?thesis by (simp add: pad_start_def radix_def digs.simps [of 16 n])
qed

lemma byte_hex_digits: "b < 256 \<Longrightarrow> byte_hex b = [digit_char (b div 16), digit_char (b mod 16)]"
proof -
  assume "b < 256"
  then have "b div 16 < 16" by (simp add: less_mult_imp_div_less)
  then show ?thesis
    by (simp add: byte_hex_def radix_def digs.simps [of 16 b] digs.simps [of 16 "b div 16"])
qed

lemma pad_hex_byte:
  assumes "0 < k"
  shows "pad_start (Suc (Suc k)) (CHR ''0'') (hex n) = pad_start k (CHR ''0'') (hex (n div 256)) @ byte_hex (n mod 256)"
proof -
  have "n mod 256 = 16 * (n div 16 mod 16) + n mod 16" using mod_mult2_eq [of n 16 16] by simp
  then have "n mod 256 div 16 = n div 16 mod 16" "n mod 256 mod 16 = n mod 16" by simp_all
  moreover have "n div 16 div 16 = n div 256" by (simp add: div_mult2_eq [symmetric])
  ultimately show ?thesis using assms by (simp add: pad_hex_Suc byte_hex_digits)
qed

lemma pad_hex_2: "b < 256 \<Longrightarrow> pad_start 2 (CHR ''0'') (hex b) = byte_hex b"
proof -
  assume "b < 256"
  then have "b div 16 < 16" by (simp add: less_mult_imp_div_less)
  then show ?thesis
    by (simp add: byte_hex_def pad_start_def radix_def digs.simps [of 16 b] digs.simps [of 16 "b div 16"])
qed

lemma word_byte: "unat (drop_bit n w AND 255 :: w32) = unat w div 2 ^ n mod 256"
proof -
  have "(255 :: w32) = mask 8" by (simp add: mask_eq_exp_minus_1)
  then have "unat (drop_bit n w AND 255) = unat (take_bit 8 (drop_bit n w))"
    by (simp only: take_bit_eq_mask)
  also have "\<dots> = take_bit 8 (unat (drop_bit n w))" by (rule unsigned_take_bit_eq)
  also have "\<dots> = unat w div 2 ^ n mod 256" 
    unfolding unat_drop_bit_eq by (simp add: take_bit_eq_mod drop_bit_eq_div)
  finally show ?thesis .
qed

lemma word_hex_pad: "word_hex w = pad_start 8 (CHR ''0'') (hex (unat w))"
proof -
  let ?n = "unat w"
  have "?n < 2 ^ 32" using unsigned_less [of w] by simp
  then have top: "?n div 16777216 < 256" by (simp add: less_mult_imp_div_less)
  have eight: "(8::nat) = Suc (Suc 6)" "(6::nat) = Suc (Suc 4)" "(4::nat) = Suc (Suc 2)" by simp_all
  have "pad_start 8 (CHR ''0'') (hex ?n) = pad_start 6 (CHR ''0'') (hex (?n div 256)) @ byte_hex (?n mod 256)"
    unfolding eight(1) by (rule pad_hex_byte) simp
  moreover have "pad_start 6 (CHR ''0'') (hex (?n div 256)) =
      pad_start 4 (CHR ''0'') (hex (?n div 65536)) @ byte_hex (?n div 256 mod 256)"
    unfolding eight(2) by (subst pad_hex_byte) (simp_all add: div_mult2_eq [symmetric])
  moreover have "pad_start 4 (CHR ''0'') (hex (?n div 65536)) =
      pad_start 2 (CHR ''0'') (hex (?n div 16777216)) @ byte_hex (?n div 65536 mod 256)"
    unfolding eight(3) by (subst pad_hex_byte) (simp_all add: div_mult2_eq [symmetric])
  ultimately show ?thesis
    using top by (simp add: word_hex_def word_byte pad_hex_2)
qed

section \<open>The equivalence\<close>

lemma be_words_count: "length bs = 4 * n \<Longrightarrow> length (be_words bs) = n"
proof (induction bs arbitrary: n rule: be_words.induct)
  case (1 a b c d bs)
  then obtain k where "n = Suc k" by (cases n) auto
  with 1 show ?case by simp
qed auto

lemma sha_pad_length: "\<exists>n. length (sha_pad m) = 64 * n"
proof -
  have "length (sha_pad m) = (length m + 1 + (119 - length m mod 64) mod 64) + 8"
    by (simp add: sha_pad_def be_bytes_def)
  moreover obtain q where "length m + 1 + (119 - length m mod 64) mod 64 = 64 * q + 56"
    using pad_total [of "length m"] by (metis mult_div_mod_eq)
  ultimately have "length (sha_pad m) = 64 * (q + 1)" by simp
  then show ?thesis ..
qed

lemma sha256_codes_fips:
  assumes "\<forall>c \<in> set m. c < 256"
  shows "sha256_codes m = sha256_fips m"
proof -
  obtain n where n: "length (sha_pad m) = 64 * n" using sha_pad_length ..
  then have w: "length (be_words (sha_pad m)) = 16 * n" by (intro be_words_count) simp
  have "8 \<le> length init_hash" by (simp add: init_hash_def primes64_eq)
  from js_blocks_compress [OF w this] show ?thesis
    using n w message_words_eq [OF assms]
    by (simp add: sha256_codes_def sha256_fips_def Let_def H_eq word_hex_pad [abs_def])
qed

text \<open>
  Property C37:  \<open>sha256pure\<close> is SHA-256: on every string of byte-valued code units it returns the
  hexadecimal digest of FIPS 180-4 - the sieved primes and their roots are the standard's
  constants, the padding, schedule, rounds and output are the standard's.
\<close>

theorem sha256pure_is_sha256: "sha256pure s = sha256_fips (map of_char s)"
  unfolding sha256pure_def by (rule sha256_codes_fips) auto

section \<open>The digest as a number\<close>

lemma word_hex_length: "length (word_hex w) = 8"
proof -
  have byte: "length (byte_hex (unat (drop_bit n w AND 255))) = 2" for n
    using byte_hex_digits [of "unat (drop_bit n w AND 255)"] by (simp add: word_byte)
  from byte [of 0] byte show ?thesis by (simp add: word_hex_def)
qed

lemma word_hex_hex: "c \<in> set (word_hex w) \<Longrightarrow> is_hex c"
  using set_pad_start [of 8 "CHR ''0''" "hex (unat w)"] hex_digits [of c "unat w"]
  by (auto simp: word_hex_pad is_hex_def char_class_defs)

lemma concat_word_hex:
  "length (concat (map word_hex ws)) = 8 * length ws"
  by (induction ws) (simp_all add: word_hex_length)

lemma sha256_codes_hex: "c \<in> set (sha256_codes m) \<Longrightarrow> is_hex c"
  by (auto simp: sha256_codes_def Let_def dest: word_hex_hex)

lemma foldl_compress_length: "length H = 8 \<Longrightarrow> length (foldl sha_compress H bs) = 8"
  by (induction bs arbitrary: H) (auto simp: sha_compress_length)

lemma sha256_fips_length: "length (sha256_fips m) = 64"
  by (simp add: sha256_fips_def Let_def word_hex_pad [abs_def, symmetric] concat_word_hex
      foldl_compress_length H256_def)

lemma sha256pure_length: "length (sha256pure s) = 64"
  unfolding sha256pure_def by (subst sha256_codes_fips) (auto simp: sha256_fips_length)

lemma sha256pure_hex: "list_all is_hex (sha256pure s)"
  by (auto simp: sha256pure_def list_all_iff dest: sha256_codes_hex)

end
