(* ===== verification/Mandates.thy ===== *)
theory Mandates
  imports Sha256_Fips "HOL-Library.Multiset"
begin

text \<open>
  site/brokers/assets/mandates.js: the traits, rarity and primary asset of every token id are
  drawn from a hash of the id.  The definitions take the hash as an argument \<open>sha\<close>;
  \<open>sha256hex\<close> is the one the page uses: the host's crypto module when there is one,
  \<open>sha256pure\<close> otherwise.  What is shown of the tables holds for every hash.
  Ids are natural numbers.  The live agents (agents-data.js) and the revealed names
  (reveal-meta.js) are generated data the page may or may not have loaded: parameters.
\<close>

section \<open>Option lists\<close>

definition COLLECTION_SIZE :: nat where "COLLECTION_SIZE = 5000"
definition OWNER :: string where "OWNER = ''0xdfF1a5dc565a2D8d0C2818f8B190ca8399B869b3''"
definition MIN_MCAP_USD :: nat where "MIN_MCAP_USD = 1000000"
definition IRE_VAULT :: string where "IRE_VAULT = ''ire1jv65s3grqf6v6jl3dp4t6c9t9rk99cd8nanfuy''"
definition NINJAAGENT :: string where "NINJAAGENT = ''0x5Ce837Cf242e763F9b0E9A87AA7907C3F5DD083C''"

definition HEADS :: "string list" where
  "HEADS = [
     ''Gold Skull'', ''Chrome Skull'', ''Matte Helm'', ''Violet Slit'', ''Ember Mask'',
     ''Paper Visor'']"

definition COATS :: "string list" where
  "COATS = [
     ''Ash Duster'', ''Ember Trench'', ''Teal Lined'', ''Pinstripe'', ''No Coat'',
     ''Charcoal Cape'']"

definition SUITS :: "string list" where
  "SUITS = [
     ''Charcoal'', ''Navy'', ''Ember'', ''Paper White'', ''Ink Black'']"

definition ACCENTS :: "string list" where
  "ACCENTS = [
     ''Ember'', ''Teal'', ''Magenta'', ''Gold'', ''Violet'']"

definition HUDS :: "string list" where
  "HUDS = [
     ''Charts Halo'', ''Ticker Cubes'', ''Orderbook Ring'', ''None'']"

definition HANDS :: "string list" where
  "HANDS = [
     ''Tablet'', ''Ledger'', ''Hologram'', ''Empty'']"

definition BASES :: "string list" where
  "BASES = [
     ''Industrial'', ''Stone'', ''Grid'']"

definition STRATS :: "string list" where
  "STRATS = [
     ''Momentum'', ''Mean Revert'', ''Top Cap Follow'']"

definition UNIVERSE :: "string list" where
  "UNIVERSE = [
     ''Stocks'', ''Tokens'', ''Both'']"

definition VENUES :: "string list" where
  "VENUES = [
     ''Paper blotter'', ''Owner-signed DEX intent'', ''Owner-signed CEX'',
     ''Robinhood Chain quote'']"

definition TIMEFRAMES :: "string list" where
  "TIMEFRAMES = [
     ''5m'', ''15m'', ''1h'', ''4h'', ''1d'']"

definition QUOTES :: "string list" where
  "QUOTES = [
     ''In the ashes of uncertainty, opportunity burns brightest.'',
     ''I don't follow markets. I navigate chaos.'',
     ''Paper first. Live only when the owner signs.'',
     ''One primary. No shared book. No custody.'',
     ''The mandate is public. The key stays with you.'',
     ''Size under the cap. Never invent a mark.'', ''Not a license. Not a desk. An agent config.'',
     ''Different id, different item. That is the collection.'']"

definition STOCK_SEEDS :: "string list" where
  "STOCK_SEEDS = [
     ''AAPL'', ''MSFT'', ''NVDA'', ''AMZN'', ''GOOGL'', ''META'', ''TSLA'', ''BRKB'', ''JPM'',
     ''V'', ''MA'', ''UNH'', ''XOM'', ''JNJ'', ''PG'', ''HD'', ''COST'', ''AVGO'', ''ABBV'',
     ''WMT'', ''MRK'', ''KO'', ''PEP'', ''CVX'', ''BAC'', ''CRM'', ''AMD'', ''ADBE'', ''NFLX'',
     ''DIS'', ''INTC'', ''ORCL'', ''CSCO'', ''TMO'', ''ABT'', ''MCD'', ''ACN'', ''DHR'', ''WFC'',
     ''LIN'', ''TXN'', ''NEE'', ''PM'', ''BMY'', ''UPS'', ''RTX'', ''HON'', ''QCOM'', ''AMGN'',
     ''LOW'', ''UNP'', ''IBM'', ''GE'', ''CAT'', ''SBUX'', ''BA'', ''GS'', ''BLK'', ''AXP'',
     ''SPGI'', ''PLD'', ''MDT'', ''DE'', ''LMT'', ''SYK'', ''ELV'', ''TJX'', ''BKNG'', ''GILD'',
     ''ADP'', ''MMC'', ''C'', ''MO'', ''CB'', ''SO'', ''DUK'', ''ZTS'', ''CI'', ''EQIX'', ''PGR'',
     ''BDX'', ''SLB'', ''USB'', ''TGT'', ''CL'', ''CME'', ''PNC'', ''SCHW'', ''MMM'', ''ITW'',
     ''WM'', ''SHW'', ''NOC'', ''FDX'', ''APD'', ''EOG'', ''NSC'', ''AON'', ''ICE'', ''HUM'',
     ''CSX'', ''GM'', ''F'', ''NKE'', ''T'', ''VZ'', ''CMCSA'', ''PYPL'', ''SQ'', ''SHOP'',
     ''UBER'', ''ABNB'', ''COIN'', ''HOOD'', ''RIVN'', ''LCID'', ''PLTR'', ''SNOW'', ''CRWD'',
     ''PANW'', ''DDOG'', ''NET'', ''ZS'', ''OKTA'', ''MDB'', ''TEAM'', ''WDAY'', ''NOW'', ''S'',
     ''U'', ''RBLX'', ''SOFI'', ''AFRM'', ''NU'', ''MELI'', ''SE'', ''BABA'', ''JD'', ''PDD'',
     ''NIO'', ''XPEV'', ''LI'', ''BIDU'', ''TSM'', ''ASML'', ''SAP'', ''SONY'', ''TM'', ''NVO'',
     ''AZN'', ''UL'', ''BP'', ''SHEL'', ''TTE'', ''BHP'', ''RIO'', ''VALE'', ''PBR'', ''ITUB'',
     ''BBD'', ''SAN'', ''HSBC'', ''DB'', ''UBS'']"

definition TOKEN_SEEDS :: "string list" where
  "TOKEN_SEEDS = [
     ''BTC'', ''ETH'', ''SOL'', ''BNB'', ''XRP'', ''ADA'', ''DOGE'', ''AVAX'', ''DOT'', ''LINK'',
     ''UNI'', ''ATOM'', ''NEAR'', ''APT'', ''SUI'', ''SEI'', ''PEPE'', ''WIF'', ''BONK'', ''ORDI'',
     ''STX'', ''TIA'', ''INJ'', ''FET'', ''RNDR'', ''ARB'', ''OP'', ''MATIC'', ''POL'', ''LTC'',
     ''BCH'', ''TRX'', ''TON'', ''HBAR'', ''XLM'', ''ALGO'', ''VET'', ''FIL'', ''ICP'', ''EGLD'',
     ''AAVE'', ''MKR'', ''SNX'', ''CRV'', ''LDO'', ''RPL'', ''ENS'', ''GRT'', ''SAND'', ''MANA'',
     ''AXS'', ''IMX'', ''GALA'', ''APE'', ''BLUR'', ''DYDX'', ''GMX'', ''PENDLE'', ''JUP'',
     ''JTO'', ''PYTH'', ''W'', ''TNSR'', ''ENA'', ''ONDO'', ''ETHFI'', ''EIGEN'', ''ZK'', ''STRK'',
     ''MANTA'', ''ALT'', ''PIXEL'', ''PORTAL'', ''XAI'', ''REZ'', ''LISTA'', ''IO'', ''ZRO'',
     ''G'', ''OMNI'', ''USDC'', ''USDT'', ''DAI'', ''USDE'', ''FRAX'', ''WETH'', ''WBTC'',
     ''STETH'', ''WSTETH'', ''RETH'', ''CBETH'', ''WEETH'', ''RSETH'', ''EZETH'', ''USD1'',
     ''PYUSD'', ''NINJA'', ''AERO'', ''MOG'', ''POPCAT'', ''MEW'', ''BOME'', ''NEIRO'', ''TURBO'',
     ''FLOKI'', ''SHIB'', ''BRETT'', ''DEGEN'', ''HYPE'', ''TAO'', ''KAS'', ''RUNE'']"

definition SECONDARY_POOL :: "string list" where
  "SECONDARY_POOL = [
     ''USDC'', ''USDT'', ''ETH'', ''BTC'', ''SOL'', ''HOOD'', ''WETH'', ''DAI'']"

definition NOTIONALS :: "nat list" where "NOTIONALS = [1000, 2500, 5000, 10000, 25000]"

datatype rarity = Common | Uncommon | Rare | Elite | Apex

definition RARITY_BANDS :: "(nat \<times> rarity) list" where
  "RARITY_BANDS = [(4500, Common), (4900, Uncommon), (4980, Rare), (4995, Elite), (5000, Apex)]"

section \<open>Draws\<close>

definition sha256hex :: "(string \<Rightarrow> string option) \<Rightarrow> string \<Rightarrow> string" where
  "sha256hex host s = (case host s of Some h \<Rightarrow> h | None \<Rightarrow> sha256pure s)"

definition rngMod :: "(string \<Rightarrow> string) \<Rightarrow> nat \<Rightarrow> string \<Rightarrow> nat \<Rightarrow> nat" where
  "rngMod sha tokenId salt n =
     (let h = sha (''crypto-brokers-'' @ dec tokenId @ ''-'' @ salt) in unradix 16 (take 16 h) mod n)"

definition rng :: "(string \<Rightarrow> string) \<Rightarrow> nat \<Rightarrow> string \<Rightarrow> nat" where
  "rng sha tokenId salt = rngMod sha tokenId salt 0x100000000"

definition pick :: "(string \<Rightarrow> string) \<Rightarrow> nat \<Rightarrow> string \<Rightarrow> 'a list \<Rightarrow> 'a" where
  "pick sha tokenId salt options = options ! rngMod sha tokenId salt (length options)"

fun band_of :: "(nat \<times> rarity) list \<Rightarrow> nat \<Rightarrow> rarity" where
  "band_of [] rank = Apex"
| "band_of ((limit, name) # bands) rank = (if rank \<le> limit then name else band_of bands rank)"

definition rarity_of :: "(string \<Rightarrow> string) \<Rightarrow> nat \<Rightarrow> rarity" where
  "rarity_of sha tokenId = band_of RARITY_BANDS (rngMod sha tokenId ''rarity'' COLLECTION_SIZE + 1)"

section \<open>Symbols\<close>

definition ALPHA :: string where "ALPHA = ''ABCDEFGHIJKLMNOPQRSTUVWXYZ''"

text \<open>\<open>width\<close> turns of the loop, each putting a letter in front.\<close>

fun encodeBase26 :: "nat \<Rightarrow> nat \<Rightarrow> string" where
  "encodeBase26 n 0 = []"
| "encodeBase26 n (Suc width) = encodeBase26 (n div 26) width @ [ALPHA ! (n mod 26)]"

definition seed_step :: "string list \<times> string list \<Rightarrow> string \<Rightarrow> string list \<times> string list" where
  "seed_step st seed =
     (case st of (out, seen) \<Rightarrow>
        let s = to_upper seed in if s \<in> set seen then (out, seen) else (out @ [s], s # seen))"

text \<open>The filler loop; it may not end, since the codes of a width run out and start over.\<close>

partial_function (option) fill_pool :: "nat \<Rightarrow> nat \<Rightarrow> nat \<Rightarrow> string list \<Rightarrow> string list \<Rightarrow> string list option" where
  "fill_pool width wanted n out seen =
     (if length out < wanted then
        (let s = encodeBase26 n width in
         if s \<in> set seen then fill_pool width wanted (n + 1) out seen
         else fill_pool width wanted (n + 1) (out @ [s]) (s # seen))
      else Some (take wanted out))"

declare fill_pool.simps [code]

definition uniquePool :: "string list \<Rightarrow> nat \<Rightarrow> nat \<Rightarrow> string list \<Rightarrow> string list option" where
  "uniquePool seeds width wanted seen =
     (case foldl seed_step ([], seen) seeds of (out, seen') \<Rightarrow> fill_pool width wanted 0 out seen')"

definition swap :: "'a list \<Rightarrow> nat \<Rightarrow> nat \<Rightarrow> 'a list" where
  "swap xs i j = xs[i := xs ! j, j := xs ! i]"

fun shuffle_down :: "(string \<Rightarrow> string) \<Rightarrow> string \<Rightarrow> nat \<Rightarrow> 'a list \<Rightarrow> 'a list" where
  "shuffle_down sha salt 0 arr = arr"
| "shuffle_down sha salt (Suc i) arr =
     shuffle_down sha salt i (swap arr (Suc i) (rngMod sha (Suc i + 1) salt (Suc i + 1)))"

definition shuffle_arr :: "(string \<Rightarrow> string) \<Rightarrow> string \<Rightarrow> 'a list \<Rightarrow> 'a list" where
  "shuffle_arr sha salt arr = shuffle_down sha salt (length arr - 1) arr"

section \<open>The table\<close>

datatype akind = Stock | Token

record asset =
  symbol :: string
  akind :: akind
  venueClass :: string

definition stock_asset :: "string \<Rightarrow> asset" where
  "stock_asset s = \<lparr> symbol = s, akind = Stock, venueClass = ''Stocks'' \<rparr>"
definition token_asset :: "string \<Rightarrow> asset" where
  "token_asset s = \<lparr> symbol = s, akind = Token, venueClass = ''Tokens'' \<rparr>"

definition stock_side :: "(string \<Rightarrow> string) \<Rightarrow> nat \<Rightarrow> bool" where
  "stock_side sha i =
     (let uni = pick sha i ''uni'' UNIVERSE in
      if uni = ''Stocks'' then True
      else if uni = ''Tokens'' then False
      else rngMod sha i ''asset'' 2 = 0)"

definition stock_ids :: "(string \<Rightarrow> string) \<Rightarrow> nat list" where
  "stock_ids sha = filter (stock_side sha) [1..<COLLECTION_SIZE + 1]"
definition token_ids :: "(string \<Rightarrow> string) \<Rightarrow> nat list" where
  "token_ids sha = filter (\<lambda>i. \<not> stock_side sha i) [1..<COLLECTION_SIZE + 1]"

definition buildTable :: "(string \<Rightarrow> string) \<Rightarrow> (nat \<rightharpoonup> asset) option" where
  "buildTable sha =
     (let stockIds = stock_ids sha; tokenIds = token_ids sha;
          reserved = map to_upper TOKEN_SEEDS
      in case uniquePool STOCK_SEEDS 4 (length stockIds) reserved of
           None \<Rightarrow> None
         | Some stocks \<Rightarrow>
             (case uniquePool TOKEN_SEEDS 3 (length tokenIds) stocks of
                None \<Rightarrow> None
              | Some tokens \<Rightarrow>
                  let stocks' = shuffle_arr sha ''asset'' stocks;
                      tokens' = shuffle_arr sha ''asset'' tokens
                  in Some (Map.empty(stockIds [\<mapsto>] map stock_asset stocks',
                                     tokenIds [\<mapsto>] map token_asset tokens'))))"

text \<open>Outer \<open>None\<close>: the table is never finished.  \<open>Inl\<close>: the thrown error.\<close>

definition primaryAssetFor :: "(string \<Rightarrow> string) \<Rightarrow> nat \<Rightarrow> (string + asset) option" where
  "primaryAssetFor sha tokenId =
     map_option (\<lambda>t. case t tokenId of None \<Rightarrow> Inl ''token id out of range'' | Some r \<Rightarrow> Inr r) (buildTable sha)"

datatype unique_report = Collision string nat nat | AllUnique nat

text \<open>
  The scan of \<open>assertUnique\<close>: \<open>seen\<close> maps a symbol to the id it was first met at.  A missing
  row would throw; \<open>None\<close> stands for that.
\<close>

fun scan_unique :: "(nat \<rightharpoonup> asset) \<Rightarrow> (string \<times> nat) list \<Rightarrow> nat list \<Rightarrow> unique_report option" where
  "scan_unique t seen [] = Some (AllUnique COLLECTION_SIZE)"
| "scan_unique t seen (i # ids) =
     (case t i of
        None \<Rightarrow> None
      | Some r \<Rightarrow> (case map_of seen (symbol r) of
          Some a \<Rightarrow> Some (Collision (symbol r) a i)
        | None \<Rightarrow> scan_unique t ((symbol r, i) # seen) ids))"

definition assertUnique :: "(string \<Rightarrow> string) \<Rightarrow> unique_report option" where
  "assertUnique sha = Option.bind (buildTable sha) (\<lambda>t. scan_unique t [] [1..<COLLECTION_SIZE + 1])"

section \<open>Traits and mandates\<close>

record traits =
  head :: string
  coat :: string
  suit :: string
  accent :: string
  hud :: string
  hand :: string
  base :: string
  rarity :: rarity
  strategy :: string
  universe :: string

definition traitsFor :: "(string \<Rightarrow> string) \<Rightarrow> nat \<Rightarrow> string + traits" where
  "traitsFor sha tokenId =
     (if tokenId < 1 \<or> tokenId > COLLECTION_SIZE then Inl ''token id out of range''
      else Inr \<lparr>
        head = pick sha tokenId ''head'' HEADS,
        coat = pick sha tokenId ''coat'' COATS,
        suit = pick sha tokenId ''suit'' SUITS,
        accent = pick sha tokenId ''accent'' ACCENTS,
        hud = pick sha tokenId ''hud'' HUDS,
        hand = pick sha tokenId ''hand'' HANDS,
        base = pick sha tokenId ''base'' BASES,
        rarity = rarity_of sha tokenId,
        strategy = pick sha tokenId ''strat'' STRATS,
        universe = pick sha tokenId ''uni'' UNIVERSE \<rparr>)"

text \<open>A row of agents-data.js, as far as \<open>mandateFor\<close> reads it.\<close>

record live_agent =
  la_strategy :: string
  la_venue :: string
  la_primaryAsset :: string
  la_secondaryAsset :: string
  la_universe :: string
  la_timeframe :: string
  la_maxNotionalUsd :: nat

record mandate =
  m_id :: nat
  m_name :: string
  inscription_name :: string
  m_owner :: string
  ireVault :: string
  ninjaagent :: string
  minMcapUsd :: nat
  m_traits :: traits
  m_venue :: string
  primaryAsset :: string
  primaryKind :: akind
  secondary :: string
  timeframe :: string
  maxNotionalUsd :: nat
  quote_line :: string
  m_mode :: string

definition secondary_for :: "(string \<Rightarrow> string) \<Rightarrow> nat \<Rightarrow> string \<Rightarrow> string" where
  "secondary_for sha tokenId primary =
     (let s = pick sha tokenId ''sec'' SECONDARY_POOL in
      if s = primary
      then SECONDARY_POOL ! ((rngMod sha tokenId ''sec'' (length SECONDARY_POOL) + 1) mod length SECONDARY_POOL)
      else s)"

definition apply_live :: "live_agent \<Rightarrow> mandate \<Rightarrow> mandate" where
  "apply_live live m = m\<lparr>
     m_traits := (m_traits m)\<lparr> strategy := la_strategy live, universe := la_universe live \<rparr>,
     m_venue := la_venue live,
     primaryAsset := la_primaryAsset live,
     primaryKind := (if la_universe live = ''Stocks'' then Stock else Token),
     secondary := la_secondaryAsset live,
     timeframe := la_timeframe live,
     maxNotionalUsd := la_maxNotionalUsd live,
     m_mode := ''Paper until owner activates'' \<rparr>"

definition mandate_of ::
  "(string \<Rightarrow> string) \<Rightarrow> (nat \<Rightarrow> string option) \<Rightarrow> (string \<rightharpoonup> live_agent) \<Rightarrow> nat \<Rightarrow> traits \<Rightarrow> asset \<Rightarrow> mandate"
where
  "mandate_of sha nameFor live tokenId tr a =
     (let reveal = (case nameFor tokenId of Some n \<Rightarrow> n | None \<Rightarrow> []);
          m = \<lparr> m_id = tokenId,
                m_name = or_str reveal (''Crypto Broker #'' @ dec tokenId),
                inscription_name = ''broker-'' @ pad_start 4 (CHR ''0'') (dec tokenId),
                m_owner = OWNER, ireVault = IRE_VAULT, ninjaagent = NINJAAGENT,
                minMcapUsd = MIN_MCAP_USD, m_traits = tr,
                m_venue = pick sha tokenId ''venue'' VENUES,
                primaryAsset = symbol a, primaryKind = akind a,
                secondary = secondary_for sha tokenId (symbol a),
                timeframe = pick sha tokenId ''tf'' TIMEFRAMES,
                maxNotionalUsd = pick sha tokenId ''notional'' NOTIONALS,
                quote_line = pick sha tokenId ''quote'' QUOTES,
                m_mode = ''Paper'' \<rparr>
      in case live (dec tokenId) of None \<Rightarrow> m | Some l \<Rightarrow> apply_live l m)"

definition mandateFor ::
  "(string \<Rightarrow> string) \<Rightarrow> (nat \<Rightarrow> string option) \<Rightarrow> (string \<rightharpoonup> live_agent) \<Rightarrow> nat \<Rightarrow> (string + mandate) option"
where
  "mandateFor sha nameFor live tokenId =
     (case traitsFor sha tokenId of
        Inl e \<Rightarrow> Some (Inl e)
      | Inr tr \<Rightarrow>
          map_option (\<lambda>r. case r of Inl e \<Rightarrow> Inl e | Inr a \<Rightarrow> Inr (mandate_of sha nameFor live tokenId tr a))
            (primaryAssetFor sha tokenId))"

section \<open>Draws stay in range\<close>

lemma rngMod_less [simp]: "0 < n \<Longrightarrow> rngMod sha i salt n < n"
  by (simp add: rngMod_def Let_def)

lemma pick_in [simp]: "options \<noteq> [] \<Longrightarrow> pick sha i salt options \<in> set options"
  by (simp add: pick_def)

section \<open>Codes\<close>

lemma ALPHA_inj: "i < 26 \<Longrightarrow> j < 26 \<Longrightarrow> ALPHA ! i = ALPHA ! j \<longleftrightarrow> i = j"
proof -
  assume "i < 26" "j < 26"
  moreover have "distinct ALPHA" unfolding ALPHA_def by code_simp
  moreover have "length ALPHA = 26" unfolding ALPHA_def by simp
  ultimately show ?thesis by (metis nth_eq_iff_index_eq)
qed

lemma encodeBase26_length [simp]: "length (encodeBase26 n w) = w"
  by (induction w arbitrary: n) auto

lemma encodeBase26_inj:
  "m < 26 ^ w \<Longrightarrow> n < 26 ^ w \<Longrightarrow> encodeBase26 m w = encodeBase26 n w \<longleftrightarrow> m = n"
proof (induction w arbitrary: m n)
  case (Suc w)
  then have "m div 26 < 26 ^ w" "n div 26 < 26 ^ w" by (simp_all add: less_mult_imp_div_less)
  with Suc.IH have "encodeBase26 m (Suc w) = encodeBase26 n (Suc w) \<longleftrightarrow>
      m div 26 = n div 26 \<and> m mod 26 = n mod 26"
    by (simp add: ALPHA_inj)
  then show ?case by (metis div_mult_mod_eq)
qed simp

section \<open>The pool\<close>

text \<open>The codes from \<open>n\<close> on that are still free.\<close>

definition free_codes :: "nat \<Rightarrow> nat \<Rightarrow> string list \<Rightarrow> nat set" where
  "free_codes w n seen = {m. n \<le> m \<and> m < 26 ^ w \<and> encodeBase26 m w \<notin> set seen}"

lemma free_codes_finite [simp]: "finite (free_codes w n seen)"
  by (rule finite_subset [of _ "{..<26 ^ w}"]) (auto simp: free_codes_def)

lemma free_codes_skip:
  "encodeBase26 n w \<in> set seen \<Longrightarrow> free_codes w (Suc n) seen = free_codes w n seen"
  by (auto simp: free_codes_def Suc_le_eq le_less)

lemma free_codes_take:
  assumes "n < 26 ^ w" "encodeBase26 n w \<notin> set seen"
  shows "free_codes w n seen = insert n (free_codes w (Suc n) (encodeBase26 n w # seen))"
  using assms by (auto simp: free_codes_def encodeBase26_inj Suc_le_eq le_less)

lemma free_codes_start: "26 ^ w \<le> card (free_codes w 0 seen) + length seen"
proof -
  let ?used = "{m. m < 26 ^ w \<and> encodeBase26 m w \<in> set seen}"
  have "card ?used \<le> card (set seen)"
  proof (rule card_inj_on_le)
    show "inj_on (\<lambda>m. encodeBase26 m w) ?used" by (auto simp: inj_on_def encodeBase26_inj)
  qed auto
  moreover have "{..<26 ^ w} = free_codes w 0 seen \<union> ?used" by (auto simp: free_codes_def)
  then have "card {..<26 ^ w :: nat} \<le> card (free_codes w 0 seen) + card ?used"
    by (metis card_Un_le)
  ultimately show ?thesis using card_length [of seen] by simp
qed

text \<open>What holds of every list the loop returns, and that it returns while codes last.\<close>

definition pool_inv :: "string list \<Rightarrow> string list \<Rightarrow> string list \<Rightarrow> bool" where
  "pool_inv seen0 out seen \<longleftrightarrow>
     distinct out \<and> set seen = set seen0 \<union> set out \<and> set out \<inter> set seen0 = {} \<and>
     length seen \<le> length seen0 + length out"

lemma pool_inv_add:
  "pool_inv seen0 out seen \<Longrightarrow> s \<notin> set seen \<Longrightarrow> pool_inv seen0 (out @ [s]) (s # seen)"
  by (auto simp: pool_inv_def)

lemma seed_steps_inv:
  "pool_inv seen0 out seen \<Longrightarrow>
   pool_inv seen0 (fst (foldl seed_step (out, seen) seeds)) (snd (foldl seed_step (out, seen) seeds))"
proof (induction seeds arbitrary: out seen)
  case (Cons s seeds)
  then show ?case by (simp add: seed_step_def Let_def pool_inv_add)
qed simp

lemma fill_pool_total:
  "pool_inv seen0 out seen \<Longrightarrow> wanted \<le> length out + card (free_codes w n seen) \<Longrightarrow>
   \<exists>p. fill_pool w wanted n out seen = Some p \<and> length p = wanted \<and> distinct p \<and> set p \<inter> set seen0 = {}"
proof (induction "26 ^ w - n" arbitrary: n out seen)
  case 0
  then have "free_codes w n seen = {}" by (auto simp: free_codes_def)
  with "0.prems" have "wanted \<le> length out" by simp
  with "0.prems"(1) show ?case
    by (subst fill_pool.simps) (auto simp: pool_inv_def dest: in_set_takeD)
next
  case (Suc d)
  let ?s = "encodeBase26 n w"
  from Suc.hyps(2) have n: "n < 26 ^ w" and d: "d = 26 ^ w - Suc n" by simp_all
  show ?case
  proof (cases "length out < wanted")
    case False
    with Suc.prems(1) show ?thesis
      by (subst fill_pool.simps) (auto simp: pool_inv_def dest: in_set_takeD)
  next
    case True
    show ?thesis
    proof (cases "?s \<in> set seen")
      case True
      with Suc.hyps(1) [OF d Suc.prems(1)] Suc.prems(2) \<open>length out < wanted\<close> show ?thesis
        by (subst fill_pool.simps) (simp add: Let_def free_codes_skip)
    next
      case False
      have "card (free_codes w n seen) = Suc (card (free_codes w (Suc n) (?s # seen)))"
        unfolding free_codes_take [OF n False] by (subst card_insert_disjoint) (auto simp: free_codes_def)
      with Suc.hyps(1) [OF d pool_inv_add [OF Suc.prems(1) False]] Suc.prems(2) \<open>length out < wanted\<close> False
      show ?thesis by (subst fill_pool.simps) (simp add: Let_def)
    qed
  qed
qed

lemma uniquePool_total:
  assumes "wanted + length seen \<le> 26 ^ w"
  obtains p where "uniquePool seeds w wanted seen = Some p" "length p = wanted" "distinct p"
    "set p \<inter> set seen = {}"
proof -
  obtain out seen' where st: "foldl seed_step ([], seen) seeds = (out, seen')" by (cases "foldl seed_step ([], seen) seeds")
  have "pool_inv seen [] seen" by (simp add: pool_inv_def)
  from seed_steps_inv [OF this, of seeds] have inv: "pool_inv seen out seen'" by (simp add: st)
  then have "length seen' \<le> length seen + length out" by (simp add: pool_inv_def)
  with free_codes_start [of w seen'] assms have "wanted \<le> length out + card (free_codes w 0 seen')" by linarith
  from fill_pool_total [OF inv this] show thesis using that by (auto simp: uniquePool_def st)
qed

section \<open>The shuffle is a permutation\<close>

lemma swap_mset: "i < length xs \<Longrightarrow> j < length xs \<Longrightarrow> mset (swap xs i j) = mset xs"
  unfolding swap_def by (rule mset_swap)

lemma swap_length [simp]: "length (swap xs i j) = length xs"
  by (simp add: swap_def)

lemma shuffle_down_mset: "i < length xs \<Longrightarrow> mset (shuffle_down sha salt i xs) = mset xs"
proof (induction i arbitrary: xs)
  case (Suc i)
  have "rngMod sha (Suc i + 1) salt (Suc i + 1) < Suc i + 1" by (rule rngMod_less) simp
  then have "rngMod sha (Suc i + 1) salt (Suc i + 1) < length xs" using Suc.prems by linarith
  then have "mset (swap xs (Suc i) (rngMod sha (Suc i + 1) salt (Suc i + 1))) = mset xs"
    using Suc.prems by (intro swap_mset)
  with Suc show ?case by simp
qed simp

lemma shuffle_arr_mset [simp]: "mset (shuffle_arr sha salt xs) = mset xs"
  by (cases xs) (simp_all add: shuffle_arr_def shuffle_down_mset)

lemma shuffle_arr_set [simp]: "set (shuffle_arr sha salt xs) = set xs"
  by (metis shuffle_arr_mset set_mset_mset)

lemma shuffle_arr_length [simp]: "length (shuffle_arr sha salt xs) = length xs"
  by (metis shuffle_arr_mset size_mset)

lemma shuffle_arr_distinct [simp]: "distinct (shuffle_arr sha salt xs) = distinct xs"
  by (metis shuffle_arr_mset distinct_count_atmost_1 count_mset set_mset_mset)

section \<open>The table\<close>

lemma ids_split:
  "set (stock_ids sha) = {i \<in> {1..COLLECTION_SIZE}. stock_side sha i}"
  "set (token_ids sha) = {i \<in> {1..COLLECTION_SIZE}. \<not> stock_side sha i}"
  unfolding stock_ids_def token_ids_def by auto

lemma ids_distinct: "distinct (stock_ids sha @ token_ids sha)"
  using ids_split [of sha] by (auto simp: stock_ids_def token_ids_def)

lemma ids_length: "length (stock_ids sha) \<le> 5000" "length (token_ids sha) \<le> 5000"
proof -
  have "length [1..<COLLECTION_SIZE + 1] = 5000" unfolding length_upt by (simp add: COLLECTION_SIZE_def)
  then show "length (stock_ids sha) \<le> 5000" "length (token_ids sha) \<le> 5000"
    unfolding stock_ids_def token_ids_def by (metis length_filter_le)+
qed

lemma map_upds_map_of:
  assumes "distinct xs" "length xs = length as" "length ys = length bs" "distinct ys" "set xs \<inter> set ys = {}"
  shows "Map.empty(xs [\<mapsto>] as, ys [\<mapsto>] bs) = map_of (zip (xs @ ys) (as @ bs))"
proof -
  have r: "map_of (rev (zip us vs)) = map_of (zip us vs)" if "distinct us" "length us = length vs" for us :: "'a list" and vs :: "'b list"
    using that by (subst map_of_inject_set) (simp_all add: rev_map [symmetric])
  show ?thesis
    using assms map_add_comm [of "map_of (zip xs as)" "map_of (zip ys bs)"]
    by (simp add: map_upds_def r)
qed

lemma buildTable_rows:
  obtains stocks tokens where
    "buildTable sha = Some (map_of (zip (stock_ids sha @ token_ids sha) (map stock_asset stocks @ map token_asset tokens)))"
    "length stocks = length (stock_ids sha)" "length tokens = length (token_ids sha)" "distinct (stocks @ tokens)"
proof -
  have "length TOKEN_SEEDS \<le> 500" by (simp add: TOKEN_SEEDS_def)
  then have "length (stock_ids sha) + length (map to_upper TOKEN_SEEDS) \<le> 26 ^ 4"
    using ids_length(1) [of sha] by simp
  then obtain stocks where st: "uniquePool STOCK_SEEDS 4 (length (stock_ids sha)) (map to_upper TOKEN_SEEDS) = Some stocks"
      "length stocks = length (stock_ids sha)" "distinct stocks"
    by (rule uniquePool_total)
  have "length (token_ids sha) + length stocks \<le> 26 ^ 3"
    using ids_length [of sha] st(2) by simp
  then obtain tokens where tk: "uniquePool TOKEN_SEEDS 3 (length (token_ids sha)) stocks = Some tokens"
      "length tokens = length (token_ids sha)" "distinct tokens" "set tokens \<inter> set stocks = {}"
    by (rule uniquePool_total)
  let ?s = "shuffle_arr sha ''asset'' stocks" and ?t = "shuffle_arr sha ''asset'' tokens"
  show thesis
  proof (rule that [of ?s ?t])
    show "buildTable sha = Some (map_of (zip (stock_ids sha @ token_ids sha) (map stock_asset ?s @ map token_asset ?t)))"
      using ids_distinct [of sha] st tk by (simp add: buildTable_def Let_def map_upds_map_of)
  qed (use st tk in auto)
qed

lemma map_of_zip_inj:
  assumes "length ids = length rows" "distinct ids" "distinct (map f rows)"
  shows "inj_on (\<lambda>i. f (the (map_of (zip ids rows) i))) (set ids)"
proof (rule inj_onI)
  fix i j
  assume ij: "i \<in> set ids" "j \<in> set ids" and eq: "f (the (map_of (zip ids rows) i)) = f (the (map_of (zip ids rows) j))"
  then obtain a b where a: "a < length ids" "ids ! a = i" and b: "b < length ids" "ids ! b = j"
    by (auto simp: in_set_conv_nth)
  then have "map_of (zip ids rows) i = Some (rows ! a)" "map_of (zip ids rows) j = Some (rows ! b)"
    using map_of_zip_nth [OF assms(1,2), of a] map_of_zip_nth [OF assms(1,2), of b] assms(1) by simp_all
  with eq have "map f rows ! a = map f rows ! b" using a b assms(1) by simp
  then have "a = b" using nth_eq_iff_index_eq [OF assms(3), of a b] assms(1) a(1) b(1) by simp
  with a b show "i = j" by simp
qed

lemma map_of_zip_append:
  "length xs = length as \<Longrightarrow>
   map_of (zip (xs @ ys) (as @ bs)) i = (case map_of (zip xs as) i of Some v \<Rightarrow> Some v | None \<Rightarrow> map_of (zip ys bs) i)"
  by (simp add: map_add_def)

lemma map_of_zip_range: "map_of (zip xs as) i = Some v \<Longrightarrow> v \<in> set as"
  by (metis map_of_SomeD set_zip_rightD)

lemma buildTable_table:
  obtains t where "buildTable sha = Some t" "dom t = {1..COLLECTION_SIZE}"
    "inj_on (\<lambda>i. symbol (the (t i))) {1..COLLECTION_SIZE}"
    "\<And>i. i \<in> {1..COLLECTION_SIZE} \<Longrightarrow>
       \<exists>s. t i = Some (if stock_side sha i then stock_asset s else token_asset s)"
proof -
  from buildTable_rows [of sha] obtain stocks tokens where
    t: "buildTable sha = Some (map_of (zip (stock_ids sha @ token_ids sha) (map stock_asset stocks @ map token_asset tokens)))"
    and len: "length stocks = length (stock_ids sha)" "length tokens = length (token_ids sha)"
    and dist: "distinct (stocks @ tokens)" .
  let ?ids = "stock_ids sha @ token_ids sha"
  let ?rows = "map stock_asset stocks @ map token_asset tokens"
  have ids: "set ?ids = {1..COLLECTION_SIZE}" unfolding set_append ids_split by blast
  have lens: "length ?ids = length ?rows" using len by simp
  have "map symbol ?rows = stocks @ tokens" by (simp add: stock_asset_def token_asset_def comp_def)
  then have dr: "distinct (map symbol ?rows)" using dist by simp
  show thesis
  proof (rule that [OF t])
    show "dom (map_of (zip ?ids ?rows)) = {1..COLLECTION_SIZE}"
      using lens by (simp only: dom_map_of_zip ids)
    show "inj_on (\<lambda>i. symbol (the (map_of (zip ?ids ?rows) i))) {1..COLLECTION_SIZE}"
      using map_of_zip_inj [OF lens ids_distinct dr] by (simp only: ids)
    fix i
    assume i: "i \<in> {1..COLLECTION_SIZE}"
    show "\<exists>s. map_of (zip ?ids ?rows) i = Some (if stock_side sha i then stock_asset s else token_asset s)"
    proof (cases "stock_side sha i")
      case True
      with i have "i \<in> set (stock_ids sha)" by (simp add: ids_split)
      then obtain v where v: "map_of (zip (stock_ids sha) (map stock_asset stocks)) i = Some v"
        using len(1) by (metis length_map map_of_zip_is_Some)
      then have "v \<in> set (map stock_asset stocks)" by (rule map_of_zip_range)
      with v True len(1) show ?thesis by (auto simp: map_add_def)
    next
      case False
      with i have "i \<in> set (token_ids sha)" "i \<notin> set (stock_ids sha)" by (simp_all add: ids_split)
      then obtain v where v: "map_of (zip (token_ids sha) (map token_asset tokens)) i = Some v"
        using len(2) by (metis length_map map_of_zip_is_Some)
      have n: "map_of (zip (stock_ids sha) (map stock_asset stocks)) i = None"
        using \<open>i \<notin> set (stock_ids sha)\<close> len(1) by simp
      have "map_of (zip ?ids ?rows) i = Some v" 
        using v n len(1) by (subst zip_append) (simp_all only: map_of_append map_add_Some_iff length_map simp_thms)
      moreover from v have "v \<in> set (map token_asset tokens)" by (rule map_of_zip_range)
      ultimately show ?thesis using False by auto
    qed
  qed
qed

lemma buildTable_symbols:
  obtains t where "buildTable sha = Some t" "dom t = {1..COLLECTION_SIZE}"
    "inj_on (\<lambda>i. symbol (the (t i))) {1..COLLECTION_SIZE}"
proof (rule buildTable_table [of sha])
  fix t
  assume "buildTable sha = Some t" "dom t = {1..COLLECTION_SIZE}"
    "inj_on (\<lambda>i. symbol (the (t i))) {1..COLLECTION_SIZE}"
  then show thesis by (rule that)
qed

text \<open>
  Property C38:  Whatever the hash, \<open>buildTable\<close> comes to an end (the filler codes never run
  out) with exactly the ids 1 to 5000, no two of which have the same symbol, and the stocks
  are the ids drawn for the stock side.
\<close>

theorem buildTable_unique:
  "\<exists>t. buildTable sha = Some t \<and> dom t = {1..COLLECTION_SIZE} \<and>
     inj_on (\<lambda>i. symbol (the (t i))) {1..COLLECTION_SIZE} \<and>
     {i \<in> dom t. akind (the (t i)) = Stock} = {i \<in> {1..COLLECTION_SIZE}. stock_side sha i}"
proof -
  from buildTable_table [of sha] obtain t where t: "buildTable sha = Some t"
      "dom t = {1..COLLECTION_SIZE}" "inj_on (\<lambda>i. symbol (the (t i))) {1..COLLECTION_SIZE}"
    and rows: "\<And>i. i \<in> {1..COLLECTION_SIZE} \<Longrightarrow>
       \<exists>s. t i = Some (if stock_side sha i then stock_asset s else token_asset s)" by blast
  have "akind (the (t i)) = Stock \<longleftrightarrow> stock_side sha i" if "i \<in> {1..COLLECTION_SIZE}" for i
    using rows [OF that] by (cases "stock_side sha i") (auto simp: stock_asset_def token_asset_def)
  with t show ?thesis by blast
qed

text \<open>
  \<open>uniquePool\<close> returns as soon as the codes of the given width suffice, and then
  returns the asked number of different symbols, none of them taken before; asked for more
  than there are codes it would never stop.
\<close>

theorem uniquePool_returns:
  assumes "wanted + length seen \<le> 26 ^ width"
  shows "\<exists>pool. uniquePool seeds width wanted seen = Some pool \<and> length pool = wanted \<and>
    distinct pool \<and> set pool \<inter> set seen = {}"
  using uniquePool_total [OF assms] by metis

theorem uniquePool_returns_witness:
  "\<exists>pool. uniquePool [''aapl'', ''MSFT''] 1 4 [''B''] = Some pool \<and> length pool = 4 \<and>
    distinct pool \<and> set pool \<inter> set [''B''] = {}"
  by (rule uniquePool_returns) simp

section \<open>The check of the table\<close>

lemma scan_unique_sound:
  "set ids \<subseteq> dom t \<Longrightarrow>
   (scan_unique t seen ids = Some (AllUnique COLLECTION_SIZE)) =
     (distinct (map (\<lambda>i. symbol (the (t i))) ids) \<and> (\<lambda>i. symbol (the (t i))) ` set ids \<inter> fst ` set seen = {})"
proof (induction ids arbitrary: seen)
  case (Cons i ids)
  then obtain r where r: "t i = Some r" by auto
  show ?case
  proof (cases "map_of seen (symbol r)")
    case None
    then have "symbol r \<notin> fst ` set seen" by (simp add: map_of_eq_None_iff)
    with Cons r None show ?thesis by auto
  next
    case (Some a)
    then have "symbol r \<in> fst ` set seen" by (force dest: map_of_SomeD)
    with Some r show ?thesis by simp
  qed
qed simp

text \<open>
  \<open>assertUnique\<close> reports success on the page's own table, for every hash: no two
  tokens share a primary asset.
\<close>

theorem assertUnique_ok: "assertUnique sha = Some (AllUnique COLLECTION_SIZE)"
proof -
  obtain t where t: "buildTable sha = Some t"
      "dom t = {1..COLLECTION_SIZE}" "inj_on (\<lambda>i. symbol (the (t i))) {1..COLLECTION_SIZE}"
    by (rule buildTable_symbols)
  have set: "set [1..<COLLECTION_SIZE + 1] = {1..COLLECTION_SIZE}" unfolding set_upt by auto
  then have "distinct (map (\<lambda>i. symbol (the (t i))) [1..<COLLECTION_SIZE + 1])"
    using t(3) by (subst distinct_map) (simp only: distinct_upt)
  moreover have "set [1..<COLLECTION_SIZE + 1] \<subseteq> dom t" unfolding set t(2) by simp
  ultimately have "scan_unique t [] [1..<COLLECTION_SIZE + 1] = Some (AllUnique COLLECTION_SIZE)"
    by (subst scan_unique_sound) simp_all
  then show ?thesis by (simp only: assertUnique_def t(1) Option.bind.simps)
qed

section \<open>Rarity\<close>

instantiation rarity :: linorder
begin

definition rarity_rank :: "rarity \<Rightarrow> nat" where
  "rarity_rank r = (case r of Common \<Rightarrow> 0 | Uncommon \<Rightarrow> 1 | Rare \<Rightarrow> 2 | Elite \<Rightarrow> 3 | Apex \<Rightarrow> 4)"

definition less_eq_rarity :: "rarity \<Rightarrow> rarity \<Rightarrow> bool" where
  "less_eq_rarity a b \<longleftrightarrow> rarity_rank a \<le> rarity_rank b"

definition less_rarity :: "rarity \<Rightarrow> rarity \<Rightarrow> bool" where
  "less_rarity a b \<longleftrightarrow> rarity_rank a < rarity_rank b"

instance
  by standard (auto simp: less_eq_rarity_def less_rarity_def rarity_rank_def split: rarity.splits)

end

lemmas rarity_order = less_eq_rarity_def less_rarity_def rarity_rank_def

lemma bands:
  "band_of RARITY_BANDS rank =
     (if rank \<le> 4500 then Common else if rank \<le> 4900 then Uncommon else if rank \<le> 4980 then Rare
      else if rank \<le> 4995 then Elite else Apex)"
  by (simp add: RARITY_BANDS_def)

lemma band_set:
  "{rank \<in> {1..5000}. band_of RARITY_BANDS rank = r} =
     (case r of Common \<Rightarrow> {1..4500} | Uncommon \<Rightarrow> {4501..4900} | Rare \<Rightarrow> {4901..4980}
      | Elite \<Rightarrow> {4981..4995} | Apex \<Rightarrow> {4996..5000})"
  by (cases r) (auto simp: bands split: if_splits)

text \<open>
  Rarity grows with the rank, and of the 5000 ranks 4500 are Common, 400 Uncommon,
  80 Rare, 15 Elite and 5 Apex.
\<close>

theorem rarity_bands:
  "mono (band_of RARITY_BANDS) \<and>
   map (\<lambda>r. card {rank \<in> {1..COLLECTION_SIZE}. band_of RARITY_BANDS rank = r}) [Common, Uncommon, Rare, Elite, Apex] =
     [4500, 400, 80, 15, 5]"
proof
  show "mono (band_of RARITY_BANDS)" by (rule monoI) (auto simp: bands rarity_order)
qed (simp only: COLLECTION_SIZE_def band_set list.map, simp)

section \<open>Mandates\<close>

lemma secondary_other: "secondary_for sha i p \<noteq> p" "secondary_for sha i p \<in> set SECONDARY_POOL"
proof -
  have len: "length SECONDARY_POOL = 8" by (simp add: SECONDARY_POOL_def)
  have dist: "distinct SECONDARY_POOL" unfolding SECONDARY_POOL_def by code_simp
  let ?r = "rngMod sha i ''sec'' 8"
  have r: "?r < 8" by simp
  have "(?r + 1) mod 8 \<noteq> ?r"
  proof (cases "?r = 7")
    case False
    with r have "?r + 1 < 8" by linarith
    then show ?thesis by simp
  qed simp
  then have "SECONDARY_POOL ! ((?r + 1) mod 8) \<noteq> SECONDARY_POOL ! ?r"
    using nth_eq_iff_index_eq [OF dist, of "(?r + 1) mod 8" ?r] len r by simp
  then show "secondary_for sha i p \<noteq> p" by (auto simp: secondary_for_def pick_def Let_def len)
  show "secondary_for sha i p \<in> set SECONDARY_POOL"
    by (simp add: secondary_for_def pick_def Let_def len)
qed

lemmas option_list_defs =
  HEADS_def COATS_def SUITS_def ACCENTS_def HUDS_def HANDS_def BASES_def STRATS_def UNIVERSE_def
  VENUES_def TIMEFRAMES_def NOTIONALS_def QUOTES_def

lemma option_lists [simp]:
  "HEADS \<noteq> []" "COATS \<noteq> []" "SUITS \<noteq> []" "ACCENTS \<noteq> []" "HUDS \<noteq> []" "HANDS \<noteq> []" "BASES \<noteq> []"
  "STRATS \<noteq> []" "UNIVERSE \<noteq> []" "VENUES \<noteq> []" "TIMEFRAMES \<noteq> []" "NOTIONALS \<noteq> []" "QUOTES \<noteq> []"
  by (simp_all add: option_list_defs)

definition valid_traits :: "traits \<Rightarrow> bool" where
  "valid_traits tr \<longleftrightarrow>
     head tr \<in> set HEADS \<and> coat tr \<in> set COATS \<and> suit tr \<in> set SUITS \<and> accent tr \<in> set ACCENTS \<and>
     hud tr \<in> set HUDS \<and> hand tr \<in> set HANDS \<and> base tr \<in> set BASES \<and> strategy tr \<in> set STRATS \<and>
     universe tr \<in> set UNIVERSE"

lemma traitsFor_ok:
  assumes "1 \<le> i" "i \<le> COLLECTION_SIZE"
  obtains tr where "traitsFor sha i = Inr tr" "valid_traits tr" "universe tr = pick sha i ''uni'' UNIVERSE"
    "rarity tr = rarity_of sha i"
  using assms that by (simp add: traitsFor_def valid_traits_def)

text \<open>
  Every token of the collection has a mandate, and nothing else has: outside
  1..5000 the call throws.  Without a live row its traits come from the published lists, its
  asset agrees with its universe, and its secondary asset comes from the pool and is never
  the primary one.
\<close>

theorem mandateFor_valid:
  assumes "live (dec i) = None"
  shows "mandateFor sha nameFor live i \<noteq> None \<and>
    (case the (mandateFor sha nameFor live i) of
       Inl e \<Rightarrow> i \<notin> {1..COLLECTION_SIZE} \<and> e = ''token id out of range''
     | Inr m \<Rightarrow> i \<in> {1..COLLECTION_SIZE} \<and> m_id m = i \<and> m_mode m = ''Paper'' \<and> valid_traits (m_traits m) \<and>
         m_venue m \<in> set VENUES \<and> timeframe m \<in> set TIMEFRAMES \<and> maxNotionalUsd m \<in> set NOTIONALS \<and>
         (universe (m_traits m) = ''Stocks'' \<longrightarrow> primaryKind m = Stock) \<and>
         (universe (m_traits m) = ''Tokens'' \<longrightarrow> primaryKind m = Token) \<and>
         secondary m \<in> set SECONDARY_POOL \<and> secondary m \<noteq> primaryAsset m)"
proof (cases "1 \<le> i \<and> i \<le> COLLECTION_SIZE")
  case False
  then show ?thesis by (auto simp: mandateFor_def traitsFor_def)
next
  case True
  then obtain tr where tr: "traitsFor sha i = Inr tr" "valid_traits tr"
      "universe tr = pick sha i ''uni'' UNIVERSE" "rarity tr = rarity_of sha i"
    using traitsFor_ok by blast
  from buildTable_table [of sha] True obtain t s where t: "buildTable sha = Some t"
      "t i = Some (if stock_side sha i then stock_asset s else token_asset s)"
    by (metis atLeastAtMost_iff)
  let ?a = "if stock_side sha i then stock_asset s else token_asset s"
  have m: "mandateFor sha nameFor live i = Some (Inr (mandate_of sha nameFor live i tr ?a))"
    by (simp add: mandateFor_def tr(1) primaryAssetFor_def t)
  have "universe tr = ''Stocks'' \<Longrightarrow> akind ?a = Stock" "universe tr = ''Tokens'' \<Longrightarrow> akind ?a = Token"
    using tr(3) by (auto simp: stock_side_def Let_def stock_asset_def token_asset_def)
  then show ?thesis
    using True tr(2) unfolding m by (simp add: mandate_of_def Let_def assms secondary_other)
qed

theorem mandateFor_valid_witness:
  "mandateFor sha256pure (\<lambda>_. None) Map.empty 42 \<noteq> None"
  using mandateFor_valid [of Map.empty 42 sha256pure "\<lambda>_. None"] by simp

section \<open>Same mandates everywhere\<close>

text \<open>
  A host whose crypto module computes SHA-256, or fails, gives the same traits,
  assets and mandates as the hash written out in the page.
\<close>

theorem host_independent:
  assumes "\<And>s h. host s = Some h \<Longrightarrow> h = sha256_fips (map of_char s)"
  shows "mandateFor (sha256hex host) nameFor live i = mandateFor sha256pure nameFor live i"
proof -
  have "sha256hex host s = sha256pure s" for s
    using assms [of s] sha256_codes_fips [of "map of_char s"]
    by (auto simp: sha256hex_def sha256pure_def split: option.split)
  then have "sha256hex host = sha256pure" ..
  then show ?thesis by simp
qed

theorem host_independent_witness:
  "mandateFor (sha256hex (\<lambda>s. Some (sha256_fips (map of_char s)))) (\<lambda>_. None) Map.empty 1 =
   mandateFor sha256pure (\<lambda>_. None) Map.empty 1"
  by (rule host_independent) simp

end
