(* ===== verification/Skills.thy ===== *)
theory Skills
  imports Mandates
begin

text \<open>
  site/brokers/assets/skills.js: one skill per token id, drawn from the hash by linear probing
  over the 67200 combinations of desk, role, pair, timeframe and risk.  As in Mandates the
  definitions take the hash as an argument, and the results hold for every hash.
\<close>

section \<open>Desks and roles\<close>

record desk =
  desk_id :: string
  desk_name :: string
  desk_venue :: string
  desk_source :: string
  desk_quote :: string
  desk_pairs :: "string list"

record role =
  role_name :: string
  role_action :: string
  role_paper :: string
  role_live :: string
  role_does :: string

definition DESKS :: "desk list" where
  "DESKS = [
  \<lparr> desk_id = ''kraken-spot'', desk_name = ''Kraken public ticker'',
    desk_venue = ''Kraken spot'',
    desk_source = ''https://api.kraken.com/0/public/Ticker'',
    desk_quote = ''usd'', desk_pairs = [
      ''XBTUSD'', ''ETHUSD'', ''SOLUSD'', ''XRPUSD'', ''ADAUSD'', ''LTCUSD'', ''DOGEUSD'',
      ''DOTUSD'', ''LINKUSD'', ''UNIUSD'', ''ATOMUSD'', ''AVAXUSD'', ''FILUSD'', ''NEARUSD'',
      ''APTUSD'', ''SUIUSD'', ''XLMUSD'', ''ALGOUSD'', ''TRXUSD'', ''BCHUSD'', ''AAVEUSD''] \<rparr>,
  \<lparr> desk_id = ''kraken-fut'', desk_name = ''Kraken futures ticker'',
    desk_venue = ''Kraken futures'',
    desk_source = ''https://futures.kraken.com/derivatives/api/v3/tickers'',
    desk_quote = ''usd'', desk_pairs = [
      ''PF_XBTUSD'', ''PF_ETHUSD'', ''PF_SOLUSD'', ''PF_XRPUSD'', ''PF_LTCUSD'', ''PF_BCHUSD'',
      ''PF_ADAUSD'', ''PF_DOTUSD'', ''PF_LINKUSD'', ''PF_UNIUSD'', ''PF_AVAXUSD'', ''PF_ATOMUSD'',
      ''PF_NEARUSD'', ''PF_APTUSD'', ''PF_FILUSD'', ''PF_XLMUSD'', ''PF_ALGOUSD'', ''PF_TRXUSD'',
      ''PF_AAVEUSD'', ''PF_DOGEUSD'', ''PF_SUIUSD''] \<rparr>,
  \<lparr> desk_id = ''phantom-sol'', desk_name = ''Phantom/SOL watch'',
    desk_venue = ''Solana public (Jupiter lite price / RPC)'',
    desk_source = ''https://lite-api.jup.ag/price/v2'',
    desk_quote = ''usd'', desk_pairs = [
      ''SOL'', ''JUP'', ''BONK'', ''WIF'', ''PYTH'', ''JTO'', ''RAY'', ''MSOL'', ''JITOSOL'',
      ''RENDER'', ''ORCA'', ''MNDE'', ''HNT'', ''W'', ''TNSR'', ''USDC'', ''WBTC'', ''WETH'',
      ''JTO-SOL'', ''BONK-SOL'', ''JUP-SOL''] \<rparr>,
  \<lparr> desk_id = ''ire-rpc'', desk_name = ''IRE testnet RPC'',
    desk_venue = ''ire-1 public RPC (testnet)'',
    desk_source = ''https://boomer250.com/rpc/status'',
    desk_quote = ''height'', desk_pairs = [
      ''uire'', ''IREVAL1'', ''ire-1-height'', ''ire-1-mempool'', ''inscriptions'', ''markets'',
      ''points'', ''vault-gas'', ''seed-status'', ''join-wait'', ''bank-send'', ''note-memo'',
      ''validator-set'', ''consensus-power'', ''gov-proposal'', ''staking-bonded'',
      ''supply-uire'', ''community-pool'', ''fee-collector'', ''unconfirmed-txs'', ''latest-block''] \<rparr>,
  \<lparr> desk_id = ''codex-read'', desk_name = ''Codex Supergraph (read)'',
    desk_venue = ''Codex GraphQL read'',
    desk_source = ''https://graph.codex.io/graphql'',
    desk_quote = ''usd'', desk_pairs = [
      ''ETH'', ''BTC'', ''SOL'', ''UNI'', ''LINK'', ''AAVE'', ''MKR'', ''ARB'', ''OP'', ''SUI'',
      ''APT'', ''TIA'', ''JUP'', ''WIF'', ''ONDO'', ''ENA'', ''PENDLE'', ''LDO'', ''RPL'', ''GRT'',
      ''ENS''] \<rparr>,
  \<lparr> desk_id = ''rh-blockscout'', desk_name = ''Robinhood Blockscout floor'',
    desk_venue = ''Robinhood Chain Blockscout'',
    desk_source = ''https://robinhoodchain.blockscout.com/api/v2/tokens/0x9F7A3ADbF611cBeeC95Ce40e0259bbF96b8Df041'',
    desk_quote = ''stats'', desk_pairs = [
      ''CRYPTO-BROKERS'', ''NINJAAGENT'', ''RH-ETH'', ''token-holders'', ''totalSupply'',
      ''NFT-1'', ''NFT-42'', ''NFT-2500'', ''contract-metadata'', ''gas-ETH'', ''latest-block'',
      ''token-transfers'', ''NFT-inventory'', ''ERC721-count'', ''floor-stats'', ''ownerOf-scan'',
      ''OpenSea-link'', ''mint-bar'', ''SeaDrop'', ''collection-page'', ''Blockscout-counters''] \<rparr>,
  \<lparr> desk_id = ''combat-dea'', desk_name = ''Combat DEA token'',
    desk_venue = ''Robinhood Chain Blockscout (Ninjaagent / Brokers public stats)'',
    desk_source = ''https://robinhoodchain.blockscout.com/api/v2/tokens/0x5Ce837Cf242e763F9b0E9A87AA7907C3F5DD083C'',
    desk_quote = ''stats'', desk_pairs = [
      ''NINJAAGENT'', ''CRYPTO-BROKERS'', ''RH-ETH'', ''Combat-watch'', ''DEA-watch'', ''holders'',
      ''transfers'', ''token-stats'', ''related-RH'', ''collection-floor'', ''inventory'',
      ''metadata'', ''owner-scan'', ''combat-desk'', ''dea-ticker'', ''ninja-quote'',
      ''broker-quote'', ''gas-ETH'', ''latest-block'', ''verified-contract'', ''Blockscout-token''] \<rparr>,
  \<lparr> desk_id = ''ire-volt'', desk_name = ''IRE Volt'',
    desk_venue = ''ire-1 Volt (community pool)'',
    desk_source = ''https://boomer250.com/api/cosmos/bank/v1beta1/balances/ire1jv65s3grqf6v6jl3dp4t6c9t9rk99cd8nanfuy'',
    desk_quote = ''balance'', desk_pairs = [
      ''VOLT-POOL'', ''uire-balance'', ''community_tax'', ''fee-split'', ''height'',
      ''rewards-spend'', ''airdrop-gov'', ''ops-spend'', ''no-treasury'', ''genesis-tax'',
      ''proposal-001'', ''module-distribution'', ''bank-balances'', ''status'', ''supply'',
      ''bonded'', ''unbonding'', ''inflation-0'', ''points-fund'', ''vault-page'', ''gas-in''] \<rparr>]"

definition ROLES :: "role list" where
  "ROLES = [
  \<lparr> role_name = ''Scanner'', role_action = ''scan'',
    role_paper = ''Fetch the desk's public API for this pair and display the last published value. If the fetch fails, show quote unavailable. Never invent a print.'',
    role_live = ''Owner personal_sign of a scan intent JSON (skillId + pair). No eth_sendTransaction.'',
    role_does = ''Watches the public feed for this pair and reports the last published quote. Not a fill. Not a licensed desk.'' \<rparr>,
  \<lparr> role_name = ''Clock-In crank helper'', role_action = ''clock-in-helper'',
    role_paper = ''Read-only helper copy for a Clock-In crank. Does not deploy Clock In, send txs, or hold keys.'',
    role_live = ''Owner personal_sign of a clock-in-helper intent. This page does not deploy unaudited Clock In.'',
    role_does = ''Drafts an owner-signed helper intent for a Clock-In crank. Unaudited Clock In is not deployed from this page. No chain txs. No keys.'' \<rparr>,
  \<lparr> role_name = ''Drawdown guard'', role_action = ''drawdown-check'',
    role_paper = ''Compare the latest public quote to the last stored public quote for this token. No prior quote '' @ arrow @ '' no drawdown number. Never invent PnL.'',
    role_live = ''Owner personal_sign of a drawdown-check intent using the last public quote, not a made-up mark.'',
    role_does = ''Guards against a drop vs the last real public quote stored locally. If no prior quote, it says so. No invented PnL.'' \<rparr>,
  \<lparr> role_name = ''Portfolio snapshot'', role_action = ''snapshot'',
    role_paper = ''Store a timestamped public quote locally. This is not a brokerage statement.'',
    role_live = ''Owner personal_sign of a snapshot intent. No custody of assets.'',
    role_does = ''Takes a local snapshot of the public quote for this pair. Not a broker statement. Not a fill.'' \<rparr>,
  \<lparr> role_name = ''Grid designer'', role_action = ''grid-plan'',
    role_paper = ''From a live public quote, show '' @ plus_minus @ ''1/2% grid levels. No quote '' @ arrow @ '' quote unavailable, no grid. Does not place orders.'',
    role_live = ''Owner personal_sign of the grid-plan JSON. No approve, no swap calldata.'',
    role_does = ''Designs a grid from a real public quote (not a fake tape). Does not place the grid. Owner must sign to accept the plan.'' \<rparr>,
  \<lparr> role_name = ''DCA planner'', role_action = ''dca-plan'',
    role_paper = ''Show a schedule description anchored to the live public quote. Does not buy. Fail '' @ arrow @ '' quote unavailable.'',
    role_live = ''Owner personal_sign of a dca-plan intent. No custody, no auto-buy.'',
    role_does = ''Plans a DCA schedule from a real public quote. Does not execute buys. Owner signs the plan.'' \<rparr>,
  \<lparr> role_name = ''Funding scan'', role_action = ''funding-scan'',
    role_paper = ''Read public funding / token stats from the desk API. No API field '' @ arrow @ '' quote unavailable, never a made-up rate.'',
    role_live = ''Owner personal_sign of a funding-scan intent.'',
    role_does = ''Reads public funding or token-stat fields. Reports what the API published. Does not invent a funding rate.'' \<rparr>,
  \<lparr> role_name = ''TBA collector'', role_action = ''tba-collect'',
    role_paper = ''Read public NFT/token metadata (Blockscout / tokenURI). Does not deploy a token-bound account.'',
    role_live = ''Owner personal_sign of a tba-collect intent. No TBA deploy tx.'',
    role_does = ''Collects public metadata for this token. Not an ERC-6551 deployer. Not custody.'' \<rparr>,
  \<lparr> role_name = ''Mempool watch'', role_action = ''mempool-watch'',
    role_paper = ''GET public mempool or latest-block endpoints (ire-1 /rpc/unconfirmed_txs or Blockscout). Fail '' @ arrow @ '' quote unavailable.'',
    role_live = ''Owner personal_sign of a mempool-watch intent. Read-only.'',
    role_does = ''Watches a public mempool or latest-block feed. Does not broadcast. Does not frontrun.'' \<rparr>,
  \<lparr> role_name = ''Validator waitlist'', role_action = ''validator-waitlist'',
    role_paper = ''Show ire-1 waitlist copy. IREVAL1 is waitlist points, not a consensus seat. ire-1 is a testnet.'',
    role_live = ''Owner personal_sign of a validator-waitlist intent. Does not add a key to the current set.'',
    role_does = ''IRE validator waitlist helper. IREVAL1 is waitlist + testnet points, not a seat in the current one-validator set. Not 5000 validators.'' \<rparr>]"

definition TIMEFRAMES :: "string list" where
  "TIMEFRAMES = [''1m'', ''5m'', ''15m'', ''1h'', ''4h'', ''1d'', ''1w'', ''8h-funding'']"

definition RISKS :: "string list" where
  "RISKS = [''watch-only'', ''tight'', ''standard'', ''wide'', ''halt-first'']"

definition JUP_MINT :: "(string \<times> string) list" where
  "JUP_MINT = [
     (''SOL'', ''So11111111111111111111111111111111111111112''),
     (''JUP'', ''JUPyiwrYJFskUPiHa7hkeR8VUtAeFoSYbKedZNsDvCN''),
     (''BONK'', ''DezXAZ8z7PnrnRJjz3wXBoRgixCa6xjnB7YaB1pPB263''),
     (''WIF'', ''EKpQGSJtjMFqKZ9KQanSqYXRcF8fBopzLHYxdM65zcjm''),
     (''PYTH'', ''HZ1JovNiVvGrGNiiYvEozEVgZ58xaU3RKwX8eACQBCt3''),
     (''JTO'', ''jtojtomepa8beP8AuQc6eXt5FriJwfFMwQx2v2f9mCL''),
     (''RAY'', ''4k3Dyjzvzp8eMZWUXbBCjEvwSkkk59S5iCNLY3QrkX6R''),
     (''MSOL'', ''mSoLzYCxHdYgdzU16g5QSh3i5K3z3KZK7ytfqcJm7So''),
     (''JITOSOL'', ''J1toso1uCk3RLmjorhTtrVwY9HJ7X8V9yYac6Y7kGCPn''),
     (''RENDER'', ''rndrizKT3MK1iimdxRdWabcF7Zg7AR5T4nud4EkHBof''),
     (''ORCA'', ''orcaEKTdK7LKz57vaAYr9QeNsVEPfiu6QeMU1kektZE''),
     (''MNDE'', ''MNDEFzGvMt87ueuHvVU9VcTqsAP5b3fTGPsHuuPA5ey''),
     (''HNT'', ''hntyVP6YFm1Hg25TN9WGLqM12b8TQmcknKrdu1oxWux''),
     (''W'', ''85VBFQZC9TZkfaptBWtvpwW1pY32idK1ZGtzKjeo82Sz''),
     (''TNSR'', ''TNSRxcUxoT9xBG3de7PiJyTDYu7kskLqBydADFo5rX''),
     (''USDC'', ''EPjFWdd5AufqSSqeM2qN1xzybapC8G4wEGGkZwyTDt1v''),
     (''WBTC'', ''3NZ9JMVBmGAqocybic2c7LQCJScmgsAZ6vQqTDzcqmJh''),
     (''WETH'', ''7vfCXTUXx5WJV5JADk17DUJ4ksgau7utNKj4b963voxs''),
     (''JTO-SOL'', ''jtojtomepa8beP8AuQc6eXt5FriJwfFMwQx2v2f9mCL''),
     (''BONK-SOL'', ''DezXAZ8z7PnrnRJjz3wXBoRgixCa6xjnB7YaB1pPB263''),
     (''JUP-SOL'', ''JUPyiwrYJFskUPiHa7hkeR8VUtAeFoSYbKedZNsDvCN'')]"

definition CODEX_ADDR :: "(string \<times> string \<times> nat) list" where
  "CODEX_ADDR = [
     (''ETH'', ''0xc02aaa39b223fe8d0a0e5c4f27ead9083c756cc2'', 1),
     (''BTC'', ''0x2260fac5e5542a773aa44fbcfedf7c193bc2c599'', 1),
     (''SOL'', ''So11111111111111111111111111111111111111112'', 1399811149),
     (''UNI'', ''0x1f9840a85d5af5bf1d1762f925bdaddc4201f984'', 1),
     (''LINK'', ''0x514910771af9ca656af840dff83e8264ecf986ca'', 1),
     (''AAVE'', ''0x7fc66500c84a76ad7e9c93437bfc5ac33e2ddae9'', 1),
     (''MKR'', ''0x9f8f72aa9304c8b593d555f12ef6589cc3a579a2'', 1),
     (''ARB'', ''0x912ce59144191c1204e64559fe8253a0e49e6548'', 42161),
     (''OP'', ''0x4200000000000000000000000000000000000042'', 10),
     (''SUI'', ''0x2::sui::SUI'', 101), (''APT'', ''0x1::aptos_coin::AptosCoin'', 108),
     (''TIA'', ''utia'', 201),
     (''JUP'', ''JUPyiwrYJFskUPiHa7hkeR8VUtAeFoSYbKedZNsDvCN'', 1399811149),
     (''WIF'', ''EKpQGSJtjMFqKZ9KQanSqYXRcF8fBopzLHYxdM65zcjm'', 1399811149),
     (''ONDO'', ''0xfaba6f8e4a5e8ab594d12622500fa397b1ea385d'', 1),
     (''ENA'', ''0x57e114b691db790c35207b2e685d4a43181e6061'', 1),
     (''PENDLE'', ''0x808507121b80c02388fad14726482e061b8da827'', 1),
     (''LDO'', ''0x5a98fcbea516cf06857215779fd812ca3bef1b32'', 1),
     (''RPL'', ''0xd33526068d116ce69f19a9ee46f0bd304f21a51f'', 1),
     (''GRT'', ''0xc944e90c64b2c07662a292be6244bdf05cda44a7'', 1),
     (''ENS'', ''0xc18360217d8f7ab5e7c516566761ea12ce7f9d72'', 1)]"

definition PAIR_COUNT :: nat where "PAIR_COUNT = length (desk_pairs (DESKS ! 0))"
definition SPACE :: nat where
  "SPACE = length DESKS * length ROLES * PAIR_COUNT * length TIMEFRAMES * length RISKS"

section \<open>Combinations\<close>

record combo =
  deskI :: nat
  roleI :: nat
  pairI :: nat
  tfI :: nat
  riskI :: nat

definition decodeIndex :: "nat \<Rightarrow> combo" where
  "decodeIndex idx =
     (let n = idx;
          r = n mod length RISKS; n = n div length RISKS;
          t = n mod length TIMEFRAMES; n = n div length TIMEFRAMES;
          p = n mod PAIR_COUNT; n = n div PAIR_COUNT;
          ro = n mod length ROLES; n = n div length ROLES;
          d = n mod length DESKS
      in \<lparr> deskI = d, roleI = ro, pairI = p, tfI = t, riskI = r \<rparr>)"

definition comboKey :: "combo \<Rightarrow> string" where
  "comboKey d = dec (deskI d) @ ''|'' @ dec (roleI d) @ ''|'' @ dec (pairI d) @ ''|'' @ dec (tfI d) @ ''|'' @ dec (riskI d)"

definition hexInt :: "(string \<Rightarrow> string) \<Rightarrow> string \<Rightarrow> string \<Rightarrow> nat" where
  "hexInt sha str salt = unradix 16 (take 16 (sha (''crypto-brokers-skill-'' @ str @ ''-'' @ salt)))"

text \<open>The probe over the combinations: at most \<open>SPACE\<close> turns.\<close>

fun probe_combo :: "nat \<Rightarrow> nat \<Rightarrow> string list \<Rightarrow> combo option" where
  "probe_combo 0 idx used = None"
| "probe_combo (Suc turns) idx used =
     (if comboKey (decodeIndex idx) \<notin> set used then Some (decodeIndex idx)
      else probe_combo turns ((idx + 1) mod SPACE) used)"

definition skill_id :: "(string \<Rightarrow> string) \<Rightarrow> nat \<Rightarrow> nat \<Rightarrow> string" where
  "skill_id sha i sidProbe =
     ''CBK-S-'' @ to_upper (take 10 (sha (''crypto-brokers-skillid-'' @ dec i @
       (if sidProbe = 0 then [] else ''-p'' @ dec sidProbe))))"

datatype skill_error = ComboExhausted nat | SkillIdProbeFailed nat

function probe_sid :: "(string \<Rightarrow> string) \<Rightarrow> string list \<Rightarrow> nat \<Rightarrow> nat \<Rightarrow> skill_error + string" where
  "probe_sid sha used i sidProbe =
     (if skill_id sha i sidProbe \<notin> set used then Inr (skill_id sha i sidProbe)
      else if sidProbe + 1 > 64 then Inl (SkillIdProbeFailed i)
      else probe_sid sha used i (sidProbe + 1))"
  by pat_completeness auto
termination by (relation "measure (\<lambda>(_, _, _, p). 64 - p)") auto

declare probe_sid.simps [simp del]

section \<open>The table\<close>

datatype ticker = Plain string | Codex string nat | NoTicker

definition tickerFor :: "string \<Rightarrow> string \<Rightarrow> ticker" where
  "tickerFor deskId pair =
     (if deskId = ''phantom-sol'' then
        (case map_of JUP_MINT pair of Some mint \<Rightarrow> Plain mint | None \<Rightarrow> Plain pair)
      else if deskId = ''codex-read'' then
        (case map_of CODEX_ADDR pair of Some (address, networkId) \<Rightarrow> Codex address networkId | None \<Rightarrow> NoTicker)
      else Plain pair)"

record skill =
  sk_tokenId :: nat
  skillId :: string
  sk_name :: string
  sk_desk :: string
  sk_deskId :: string
  sk_role :: string
  sk_action :: string
  sk_pair :: string
  sk_venue :: string
  sk_timeframe :: string
  sk_risk :: string
  sk_execution :: string
  sk_dataSource :: string
  sk_quoteKind :: string
  sk_paperBehavior :: string
  sk_liveBehavior :: string
  sk_does :: string
  sk_ticker :: ticker

definition combo_pair :: "combo \<Rightarrow> string" where
  "combo_pair d = desk_pairs (DESKS ! deskI d) ! pairI d"

definition skill_name :: "combo \<Rightarrow> string" where
  "skill_name d =
     role_name (ROLES ! roleI d) @ '' '' @ mid_dot @ '' '' @ combo_pair d @ '' '' @ (TIMEFRAMES ! tfI d) @
     '' '' @ mid_dot @ '' '' @ desk_name (DESKS ! deskI d) @ '' '' @ mid_dot @ '' '' @ (RISKS ! riskI d)"

definition skill_row :: "nat \<Rightarrow> string \<Rightarrow> combo \<Rightarrow> skill" where
  "skill_row i sid d =
     (let desk = DESKS ! deskI d; role = ROLES ! roleI d in
      \<lparr> sk_tokenId = i, skillId = sid, sk_name = skill_name d,
        sk_desk = desk_name desk, sk_deskId = desk_id desk,
        sk_role = role_name role, sk_action = role_action role, sk_pair = combo_pair d,
        sk_venue = desk_venue desk, sk_timeframe = TIMEFRAMES ! tfI d, sk_risk = RISKS ! riskI d,
        sk_execution = ''owner-signed'', sk_dataSource = desk_source desk, sk_quoteKind = desk_quote desk,
        sk_paperBehavior = role_paper role, sk_liveBehavior = role_live role, sk_does = role_does role,
        sk_ticker = tickerFor (desk_id desk) (combo_pair d) \<rparr>)"

record skill_state =
  usedCombo :: "string list"
  usedSid :: "string list"
  rows :: "nat \<rightharpoonup> skill"

definition skill_step :: "(string \<Rightarrow> string) \<Rightarrow> nat \<Rightarrow> skill_state \<Rightarrow> skill_error + skill_state" where
  "skill_step sha i st =
     (case probe_combo SPACE (hexInt sha (dec i) ''combo'' mod SPACE) (usedCombo st) of
        None \<Rightarrow> Inl (ComboExhausted i)
      | Some d \<Rightarrow>
          (case probe_sid sha (usedSid st) i 0 of
             Inl e \<Rightarrow> Inl e
           | Inr sid \<Rightarrow> Inr \<lparr> usedCombo = comboKey d # usedCombo st, usedSid = sid # usedSid st,
                             rows = (rows st)(i \<mapsto> skill_row i sid d) \<rparr>))"

fun skill_steps :: "(string \<Rightarrow> string) \<Rightarrow> nat list \<Rightarrow> skill_state \<Rightarrow> skill_error + skill_state" where
  "skill_steps sha [] st = Inr st"
| "skill_steps sha (i # ids) st =
     (case skill_step sha i st of Inl e \<Rightarrow> Inl e | Inr st' \<Rightarrow> skill_steps sha ids st')"

definition skill_start :: skill_state where
  "skill_start = \<lparr> usedCombo = [], usedSid = [], rows = Map.empty \<rparr>"

definition buildTable :: "(string \<Rightarrow> string) \<Rightarrow> skill_error + (nat \<rightharpoonup> skill)" where
  "buildTable sha = map_sum (\<lambda>e. e) rows (skill_steps sha [1..<COLLECTION_SIZE + 1] skill_start)"

text \<open>\<open>parseInt(s, 10)\<close>.\<close>

definition parse_int :: "string \<Rightarrow> int option" where
  "parse_int s =
     (let t = trim_left s;
          neg = starts_with ''-'' t;
          u = (if neg \<or> starts_with ''+'' t then drop 1 t else t);
          ds = takeWhile is_digit u
      in if ds = [] then None
         else Some (if neg then - int (unradix 10 ds) else int (unradix 10 ds)))"

definition skillFor :: "(string \<Rightarrow> string) \<Rightarrow> string \<Rightarrow> skill_error + skill option" where
  "skillFor sha tokenId =
     (case parse_int tokenId of
        None \<Rightarrow> Inr None
      | Some n \<Rightarrow>
          if n < 1 \<or> n > int COLLECTION_SIZE then Inr None
          else map_sum (\<lambda>e. e) (\<lambda>t. t (nat n)) (buildTable sha))"

datatype skill_report =
  Missing nat | BadExecution nat | SidCollision nat nat string
  | NameCollision nat nat string | ComboCollision nat nat string
  | Skills_ok nat nat nat nat

definition skill_combo_text :: "skill \<Rightarrow> string" where
  "skill_combo_text s =
     sk_deskId s @ ''|'' @ sk_role s @ ''|'' @ sk_pair s @ ''|'' @ sk_timeframe s @ ''|'' @ sk_risk s"

text \<open>
  The scan of \<open>assertUnique\<close>: the three maps from skill ids, names and combinations to the
  token met first.
\<close>

fun scan_skills ::
  "(nat \<rightharpoonup> skill) \<Rightarrow> (string \<times> nat) list \<Rightarrow> (string \<times> nat) list \<Rightarrow> (string \<times> nat) list \<Rightarrow> nat list \<Rightarrow> skill_report"
where
  "scan_skills t ids names combos [] = Skills_ok COLLECTION_SIZE (length ids) (length names) SPACE"
| "scan_skills t ids names combos (i # rest) =
     (case t i of
        None \<Rightarrow> Missing i
      | Some s \<Rightarrow>
          if sk_execution s \<noteq> ''owner-signed'' then BadExecution i
          else (case map_of ids (skillId s) of Some a \<Rightarrow> SidCollision a i (skillId s)
          | None \<Rightarrow> (case map_of names (sk_name s) of Some a \<Rightarrow> NameCollision a i (sk_name s)
          | None \<Rightarrow> (case map_of combos (skill_combo_text s) of Some a \<Rightarrow> ComboCollision a i (skill_combo_text s)
          | None \<Rightarrow> scan_skills t ((skillId s, i) # ids) ((sk_name s, i) # names)
                      ((skill_combo_text s, i) # combos) rest))))"

definition assertUnique :: "(string \<Rightarrow> string) \<Rightarrow> skill_error + skill_report" where
  "assertUnique sha = map_sum (\<lambda>e. e) (\<lambda>t. scan_skills t [] [] [] [1..<COLLECTION_SIZE + 1]) (buildTable sha)"

section \<open>Facts of the lists\<close>

lemma list_lengths:
  "length DESKS = 8" "length ROLES = 10" "length TIMEFRAMES = 8" "length RISKS = 5" "PAIR_COUNT = 21"
  by (simp_all add: DESKS_def ROLES_def TIMEFRAMES_def RISKS_def PAIR_COUNT_def)

lemma SPACE_eq: "SPACE = 67200"
  by (simp add: SPACE_def list_lengths)

definition plain_field :: "string \<Rightarrow> bool" where
  "plain_field s \<longleftrightarrow> CHR 0xC2 \<notin> set s \<and> CHR ''|'' \<notin> set s"

definition desk_ok :: "desk \<Rightarrow> bool" where
  "desk_ok d \<longleftrightarrow> length (desk_pairs d) = 21 \<and> distinct (desk_pairs d) \<and> plain_field (desk_name d) \<and>
     plain_field (desk_id d) \<and> list_all (\<lambda>p. plain_field p \<and> CHR '' '' \<notin> set p) (desk_pairs d)"

lemma desks_ok: "list_all desk_ok DESKS"
  unfolding DESKS_def by code_simp

lemma desks_distinct: "distinct (map desk_name DESKS)" "distinct (map desk_id DESKS)"
  unfolding DESKS_def by code_simp+

lemma roles_ok: "list_all (plain_field \<circ> role_name) ROLES" "distinct (map role_name ROLES)"
  unfolding ROLES_def by code_simp+

lemma timeframes_ok:
  "list_all (\<lambda>t. plain_field t \<and> CHR '' '' \<notin> set t) TIMEFRAMES" "distinct TIMEFRAMES"
  unfolding TIMEFRAMES_def by code_simp+

lemma risks_ok: "list_all plain_field RISKS" "distinct RISKS"
  unfolding RISKS_def by code_simp+


section \<open>Distinct combinations have distinct texts\<close>

lemma split_at:
  assumes "c \<notin> set a" "c \<notin> set b" "a @ c # u = b @ c # v"
  shows "a = b \<and> u = v"
proof -
  have "takeWhile (\<lambda>x. x \<noteq> c) (a @ c # u) = a" "dropWhile (\<lambda>x. x \<noteq> c) (a @ c # u) = c # u"
    using assms(1) by (auto intro: takeWhile_run dropWhile_run)
  moreover have "takeWhile (\<lambda>x. x \<noteq> c) (b @ c # v) = b" "dropWhile (\<lambda>x. x \<noteq> c) (b @ c # v) = c # v"
    using assms(2) by (auto intro: takeWhile_run dropWhile_run)
  ultimately show ?thesis using assms(3) by simp
qed

text \<open>Fields joined by a character none of them contains.\<close>

lemma join_inj:
  "length xs = length ys \<Longrightarrow> list_all (\<lambda>s. c \<notin> set s) xs \<Longrightarrow> list_all (\<lambda>s. c \<notin> set s) ys \<Longrightarrow>
   join [c] xs = join [c] ys \<Longrightarrow> xs = ys"
proof (induction "[c]" xs arbitrary: ys rule: join.induct)
  case (3 s t ss)
  then obtain s' t' ss' where ys: "ys = s' # t' # ss'" by (cases ys; cases "tl ys") auto
  with 3 have "s = s' \<and> join [c] (t # ss) = join [c] (t' # ss')" by (intro split_at [of c]) auto
  moreover from this have "t # ss = t' # ss'" using 3 ys by (intro "3.hyps") auto
  ultimately show ?case using ys by simp
next
  case (2 s)
  then obtain t where "ys = [t]" by (cases ys) auto
  with 2 show ?case by simp
qed simp

definition valid_combo :: "combo \<Rightarrow> bool" where
  "valid_combo d \<longleftrightarrow> deskI d < 8 \<and> roleI d < 10 \<and> pairI d < 21 \<and> tfI d < 8 \<and> riskI d < 5"

lemma decodeIndex_valid: "valid_combo (decodeIndex idx)"
  by (simp add: valid_combo_def decodeIndex_def Let_def list_lengths)

definition encodeIndex :: "combo \<Rightarrow> nat" where
  "encodeIndex d = (((deskI d * 10 + roleI d) * 21 + pairI d) * 8 + tfI d) * 5 + riskI d"

lemma encode_decodeIndex: "idx < SPACE \<Longrightarrow> encodeIndex (decodeIndex idx) = idx"
proof -
  assume "idx < SPACE"
  then have "idx div 5 div 8 div 21 div 10 < 8" by (simp add: SPACE_eq div_mult2_eq [symmetric])
  then show ?thesis
    by (simp add: encodeIndex_def decodeIndex_def Let_def list_lengths)
qed

lemma dec_no_bar: "CHR ''|'' \<notin> set (dec n)"
  using dec_digits [of "CHR ''|''" n] by (auto simp: char_class_defs)

lemma comboKey_inj: "comboKey d = comboKey d' \<longleftrightarrow> d = d'"
proof
  assume eq: "comboKey d = comboKey d'"
  let ?f = "\<lambda>d. map dec [deskI d, roleI d, pairI d, tfI d, riskI d]"
  have "?f d = ?f d'"
    by (rule join_inj [where c = "CHR ''|''"]) (use eq in \<open>auto simp: comboKey_def dec_no_bar\<close>)
  then show "d = d'" by (auto intro: combo.equality)
qed simp

lemma combo_fields:
  assumes "valid_combo d"
  shows "plain_field (role_name (ROLES ! roleI d))" "plain_field (combo_pair d)" "CHR '' '' \<notin> set (combo_pair d)"
    "plain_field (TIMEFRAMES ! tfI d)" "plain_field (desk_name (DESKS ! deskI d))"
    "plain_field (desk_id (DESKS ! deskI d))" "plain_field (RISKS ! riskI d)"
proof -
  have desk: "desk_ok (DESKS ! deskI d)" and role: "(plain_field \<circ> role_name) (ROLES ! roleI d)"
    and tf: "plain_field (TIMEFRAMES ! tfI d)" and risk: "plain_field (RISKS ! riskI d)"
    using assms desks_ok roles_ok(1) timeframes_ok(1) risks_ok(1)
    by (auto simp: valid_combo_def list_all_length list_lengths)
  then show "plain_field (role_name (ROLES ! roleI d))" "plain_field (TIMEFRAMES ! tfI d)" "plain_field (RISKS ! riskI d)"
    "plain_field (desk_name (DESKS ! deskI d))" "plain_field (desk_id (DESKS ! deskI d))"
    by (auto simp: desk_ok_def)
  have "pairI d < length (desk_pairs (DESKS ! deskI d))"
    using desk assms by (simp add: desk_ok_def valid_combo_def)
  then show "plain_field (combo_pair d)" "CHR '' '' \<notin> set (combo_pair d)"
    using desk by (auto simp: desk_ok_def list_all_length combo_pair_def)
qed

lemma combo_eqI:
  assumes "valid_combo d" "valid_combo d'"
    and "DESKS ! deskI d = DESKS ! deskI d' \<or> desk_name (DESKS ! deskI d) = desk_name (DESKS ! deskI d')
      \<or> desk_id (DESKS ! deskI d) = desk_id (DESKS ! deskI d')"
    and "role_name (ROLES ! roleI d) = role_name (ROLES ! roleI d')" "combo_pair d = combo_pair d'"
    and "TIMEFRAMES ! tfI d = TIMEFRAMES ! tfI d'" "RISKS ! riskI d = RISKS ! riskI d'"
  shows "d = d'"
proof -
  have i: "deskI d < 8" "deskI d' < 8" "roleI d < 10" "roleI d' < 10" "pairI d < 21" "pairI d' < 21"
    "tfI d < 8" "tfI d' < 8" "riskI d < 5" "riskI d' < 5"
    using assms(1,2) by (simp_all add: valid_combo_def)
  have desk: "deskI d = deskI d'"
    using assms(3) i(1,2) nth_eq_iff_index_eq [OF desks_distinct(1), of "deskI d" "deskI d'"]
      nth_eq_iff_index_eq [OF desks_distinct(2), of "deskI d" "deskI d'"] by (auto simp: list_lengths)
  have "desk_ok (DESKS ! deskI d)" using i(1) desks_ok by (simp add: list_all_length list_lengths)
  then have pair: "pairI d = pairI d'"
    using assms(5) i(5,6) desk by (simp add: combo_pair_def desk_ok_def nth_eq_iff_index_eq)
  have "roleI d = roleI d'"
    using assms(4) i nth_eq_iff_index_eq [OF roles_ok(2), of "roleI d" "roleI d'"] by (simp add: list_lengths)
  moreover have "tfI d = tfI d'"
    using assms(6) i nth_eq_iff_index_eq [OF timeframes_ok(2), of "tfI d" "tfI d'"] by (simp add: list_lengths)
  moreover have "riskI d = riskI d'"
    using assms(7) i nth_eq_iff_index_eq [OF risks_ok(2), of "riskI d" "riskI d'"] by (simp add: list_lengths)
  ultimately show ?thesis using desk pair by (intro combo.equality) simp_all
qed

lemma skill_name_inj:
  assumes "valid_combo d" "valid_combo d'" "skill_name d = skill_name d'"
  shows "d = d'"
proof -
  let ?c = "CHR 0xC2"
  let ?f = "\<lambda>d. [role_name (ROLES ! roleI d) @ '' '',
      (CHR 0xB7 # '' '') @ (combo_pair d @ CHR '' '' # (TIMEFRAMES ! tfI d)) @ '' '',
      (CHR 0xB7 # '' '') @ desk_name (DESKS ! deskI d) @ '' '', (CHR 0xB7 # '' '') @ (RISKS ! riskI d)]"
  have n: "skill_name d = join [?c] (?f d)" for d by (simp add: skill_name_def mid_dot_def)
  have no: "list_all (\<lambda>s. ?c \<notin> set s) (?f d)" if "valid_combo d" for d
    using combo_fields [OF that] by (simp add: plain_field_def)
  have "join [?c] (?f d) = join [?c] (?f d')" using assms(3) by (simp only: n)
  then have eq: "?f d = ?f d'"
    using no [OF assms(1)] no [OF assms(2)] by (intro join_inj [where c = ?c]) simp_all
  then have "combo_pair d @ CHR '' '' # (TIMEFRAMES ! tfI d) = combo_pair d' @ CHR '' '' # (TIMEFRAMES ! tfI d')"
    by simp
  then have "combo_pair d = combo_pair d' \<and> TIMEFRAMES ! tfI d = TIMEFRAMES ! tfI d'"
    using combo_fields(3) [OF assms(1)] combo_fields(3) [OF assms(2)] by (intro split_at)
  with eq show ?thesis by (intro combo_eqI [OF assms(1,2)]) simp_all
qed

lemma skill_row_combo_inj:
  assumes "valid_combo d" "valid_combo d'" "skill_combo_text (skill_row i s d) = skill_combo_text (skill_row i' s' d')"
  shows "d = d'"
proof -
  let ?f = "\<lambda>d. [desk_id (DESKS ! deskI d), role_name (ROLES ! roleI d), combo_pair d, TIMEFRAMES ! tfI d, RISKS ! riskI d]"
  have n: "skill_combo_text (skill_row i s d) = join ''|'' (?f d)" for i s d
    by (simp add: skill_combo_text_def skill_row_def Let_def)
  have "?f d = ?f d'"
    by (rule join_inj [where c = "CHR ''|''"])
      (use assms(3) combo_fields [OF assms(1)] combo_fields [OF assms(2)] in \<open>auto simp: n plain_field_def\<close>)
  then show ?thesis by (intro combo_eqI [OF assms(1,2)]) simp_all
qed

lemma skill_row_sel: "skillId (skill_row i s d) = s" "sk_name (skill_row i s d) = skill_name d"
  "sk_execution (skill_row i s d) = ''owner-signed''"
  by (simp_all add: skill_row_def Let_def)

section \<open>The probes\<close>

lemma probe_combo_Some:
  "probe_combo turns idx used = Some d \<Longrightarrow> comboKey d \<notin> set used \<and> valid_combo d"
  by (induction turns arbitrary: idx) (auto simp: decodeIndex_valid split: if_splits)

lemma probe_combo_None:
  "probe_combo turns idx used = None \<Longrightarrow> idx < SPACE \<Longrightarrow> k < turns \<Longrightarrow>
   comboKey (decodeIndex ((idx + k) mod SPACE)) \<in> set used"
proof (induction turns arbitrary: idx k)
  case (Suc turns)
  have S: "0 < SPACE" by (simp add: SPACE_eq)
  show ?case
  proof (cases k)
    case 0
    with Suc.prems show ?thesis by (simp split: if_splits)
  next
    case (Suc k')
    have "comboKey (decodeIndex (((idx + 1) mod SPACE + k') mod SPACE)) \<in> set used"
      using Suc.prems Suc S by (intro Suc.IH) (auto split: if_splits)
    moreover have "((idx + 1) mod SPACE + k') mod SPACE = (idx + k) mod SPACE"
      using Suc by (simp add: mod_add_left_eq)
    ultimately show ?thesis by simp
  qed
qed simp

text \<open>A probe of \<open>SPACE\<close> turns sees every combination, so it fails only when all are used.\<close>

lemma probe_combo_total:
  assumes "length used < SPACE" "idx < SPACE"
  shows "probe_combo SPACE idx used \<noteq> None"
proof
  assume none: "probe_combo SPACE idx used = None"
  have "comboKey (decodeIndex n) \<in> set used" if "n < SPACE" for n
  proof -
    let ?k = "(n + (SPACE - idx)) mod SPACE"
    have "?k < SPACE" using that by simp
    then have "comboKey (decodeIndex ((idx + ?k) mod SPACE)) \<in> set used"
      by (rule probe_combo_None [OF none assms(2)])
    moreover have "(idx + ?k) mod SPACE = (idx + (n + (SPACE - idx))) mod SPACE" by (rule mod_add_right_eq)
    moreover have "idx + (n + (SPACE - idx)) = n + SPACE" using assms(2) by simp
    ultimately show ?thesis using that by simp
  qed
  then have sub: "(\<lambda>n. comboKey (decodeIndex n)) ` {..<SPACE} \<subseteq> set used" by auto
  have "inj_on (\<lambda>n. comboKey (decodeIndex n)) {..<SPACE}"
    by (rule inj_onI) (metis comboKey_inj encode_decodeIndex lessThan_iff)
  then have "card ((\<lambda>n. comboKey (decodeIndex n)) ` {..<SPACE}) = SPACE" by (simp add: card_image)
  with sub have "SPACE \<le> card (set used)" by (metis List.finite_set card_mono)
  with assms(1) card_length [of used] show False by simp
qed

lemma probe_sid_Inr: "probe_sid sha used i p = Inr sid \<Longrightarrow> sid \<notin> set used \<and> (\<exists>q. sid = skill_id sha i q)"
  by (induction sha used i p rule: probe_sid.induct)
    (subst (asm) (2) probe_sid.simps, auto split: if_splits)

lemma probe_sid_Inl: "probe_sid sha used i p = Inl e \<Longrightarrow> e = SkillIdProbeFailed i"
  by (induction sha used i p rule: probe_sid.induct)
    (subst (asm) (2) probe_sid.simps, auto split: if_splits)


section \<open>The table of skills\<close>

text \<open>
  The state after the ids \<open>done\<close> (latest first): \<open>D\<close> and \<open>S\<close> are the combination and the
  skill id each of them got.
\<close>

definition skills_inv :: "nat list \<Rightarrow> (nat \<Rightarrow> combo) \<Rightarrow> (nat \<Rightarrow> string) \<Rightarrow> skill_state \<Rightarrow> bool" where
  "skills_inv ids D S st \<longleftrightarrow>
     usedCombo st = map (\<lambda>i. comboKey (D i)) ids \<and> distinct (usedCombo st) \<and>
     usedSid st = map S ids \<and> distinct (usedSid st) \<and>
     (\<forall>i \<in> set ids. valid_combo (D i)) \<and>
     rows st = (\<lambda>i. if i \<in> set ids then Some (skill_row i (S i) (D i)) else None)"

lemma skill_step_inv:
  assumes inv: "skills_inv ids D S st" and new: "i \<notin> set ids" and step: "skill_step sha i st = Inr st'"
  obtains D' S' where "skills_inv (i # ids) D' S' st'"
    "\<And>j. j \<in> set ids \<Longrightarrow> S' j = S j" "\<exists>q. S' i = skill_id sha i q"
proof -
  from step obtain d sid where d: "probe_combo SPACE (hexInt sha (dec i) ''combo'' mod SPACE) (usedCombo st) = Some d"
    and sid: "probe_sid sha (usedSid st) i 0 = Inr sid"
    and st': "st' = \<lparr> usedCombo = comboKey d # usedCombo st, usedSid = sid # usedSid st,
                     rows = (rows st)(i \<mapsto> skill_row i sid d) \<rparr>"
    by (auto simp: skill_step_def split: option.splits sum.splits)
  have same: "map (\<lambda>j. f ((g(i := x)) j)) ids = map (\<lambda>j. f (g j)) ids" for f :: "'x \<Rightarrow> 'y" and g x
    using new by (intro map_cong) auto
  have S: "map (S(i := sid)) ids = map S ids" using same [of "\<lambda>x. x" S sid] by simp
  have "skills_inv (i # ids) (D(i := d)) (S(i := sid)) st'"
    using inv new probe_combo_Some [OF d] probe_sid_Inr [OF sid] unfolding st' skills_inv_def
    by (auto simp: S same fun_eq_iff)
  then show thesis using probe_sid_Inr [OF sid] new by (intro that [of "D(i := d)" "S(i := sid)"]) auto
qed

lemma skill_steps_inv:
  "skill_steps sha todo st = Inr st' \<Longrightarrow> skills_inv ids D S st \<Longrightarrow> distinct todo \<Longrightarrow> set todo \<inter> set ids = {} \<Longrightarrow>
   \<forall>i \<in> set ids. \<exists>q. S i = skill_id sha i q \<Longrightarrow>
   \<exists>D' S'. skills_inv (rev todo @ ids) D' S' st' \<and> (\<forall>i \<in> set (rev todo @ ids). \<exists>q. S' i = skill_id sha i q)"
proof (induction todo arbitrary: st ids D S)
  case (Cons i todo)
  from Cons.prems(1) obtain st1 where st1: "skill_step sha i st = Inr st1" "skill_steps sha todo st1 = Inr st'"
    by (auto split: sum.splits)
  have new: "i \<notin> set ids" using Cons.prems(4) by simp
  obtain D' S' where D': "skills_inv (i # ids) D' S' st1"
    "\<And>j. j \<in> set ids \<Longrightarrow> S' j = S j" "\<exists>q. S' i = skill_id sha i q"
    by (rule skill_step_inv [OF Cons.prems(2) new st1(1)]) blast
  have "\<forall>j \<in> set (i # ids). \<exists>q. S' j = skill_id sha j q" using D'(2,3) Cons.prems(5) by auto
  with Cons.IH [OF st1(2) D'(1)] Cons.prems(3,4) show ?case by simp
qed auto

lemma skills_inv_inj: "skills_inv ids D S st \<Longrightarrow> inj_on D (set ids) \<and> inj_on S (set ids)"
  by (auto simp: skills_inv_def distinct_map inj_on_def comboKey_inj)

lemma skills_inv_start: "skills_inv [] D S skill_start"
  by (simp add: skills_inv_def skill_start_def fun_eq_iff)

text \<open>The only way to fail is a skill id that collides 65 times.\<close>

lemma skill_steps_Inl:
  "skill_steps sha todo st = Inl e \<Longrightarrow> skills_inv ids D S st \<Longrightarrow> distinct todo \<Longrightarrow> set todo \<inter> set ids = {} \<Longrightarrow>
   length ids + length todo \<le> SPACE \<Longrightarrow> \<exists>i \<in> set todo. e = SkillIdProbeFailed i"
proof (induction todo arbitrary: st ids D S)
  case (Cons i todo)
  have "length (usedCombo st) < SPACE" using Cons.prems(2,5) by (simp add: skills_inv_def)
  then have total: "probe_combo SPACE (hexInt sha (dec i) ''combo'' mod SPACE) (usedCombo st) \<noteq> None"
    by (intro probe_combo_total) (simp_all add: SPACE_eq)
  show ?case
  proof (cases "skill_step sha i st")
    case (Inl e')
    then have "e' = SkillIdProbeFailed i"
      using total by (auto simp: skill_step_def split: option.splits sum.splits dest: probe_sid_Inl)
    with Inl Cons.prems(1) show ?thesis by simp
  next
    case (Inr st1)
    have new: "i \<notin> set ids" using Cons.prems(4) by simp
    obtain D' S' where D': "skills_inv (i # ids) D' S' st1"
      by (rule skill_step_inv [OF Cons.prems(2) new Inr]) blast
    have "skill_steps sha todo st1 = Inl e" using Inr Cons.prems(1) by simp
    from Cons.IH [OF this D'] Cons.prems(3-5) show ?thesis by auto
  qed
qed simp

lemma all_ids: "set [1..<COLLECTION_SIZE + 1] = {1..COLLECTION_SIZE}"
  unfolding set_upt by auto

lemma ids_le_space: "length [1..<COLLECTION_SIZE + 1] \<le> SPACE"
  unfolding length_upt by (simp add: COLLECTION_SIZE_def SPACE_eq)

lemma buildTable_cases:
  obtains i where "buildTable sha = Inl (SkillIdProbeFailed i)" "i \<in> {1..COLLECTION_SIZE}"
  | D S where "buildTable sha = Inr (\<lambda>i. if i \<in> {1..COLLECTION_SIZE} then Some (skill_row i (S i) (D i)) else None)"
      "inj_on D {1..COLLECTION_SIZE}" "inj_on S {1..COLLECTION_SIZE}"
      "\<And>i. i \<in> {1..COLLECTION_SIZE} \<Longrightarrow> valid_combo (D i)"
      "\<And>i. i \<in> {1..COLLECTION_SIZE} \<Longrightarrow> \<exists>q. S i = skill_id sha i q"
proof (cases "skill_steps sha [1..<COLLECTION_SIZE + 1] skill_start")
  case (Inl e)
  from skill_steps_Inl [OF Inl skills_inv_start distinct_upt] ids_le_space
  obtain i where "i \<in> set [1..<COLLECTION_SIZE + 1]" "e = SkillIdProbeFailed i"
    by (auto simp del: set_upt upt_Suc)
  with Inl that(1) show thesis by (simp only: buildTable_def map_sum.simps all_ids)
next
  case (Inr st)
  have "\<exists>D S. skills_inv (rev [1..<COLLECTION_SIZE + 1] @ []) D S st \<and>
      (\<forall>i \<in> set (rev [1..<COLLECTION_SIZE + 1] @ []). \<exists>q. S i = skill_id sha i q)"
    by (rule skill_steps_inv [OF Inr skills_inv_start distinct_upt]) simp_all
  then obtain D S where inv: "skills_inv (rev [1..<COLLECTION_SIZE + 1]) D S st"
    and ids: "\<forall>i \<in> {1..COLLECTION_SIZE}. \<exists>q. S i = skill_id sha i q"
    by (simp only: append_Nil2 set_rev all_ids) blast
  have inj: "inj_on D {1..COLLECTION_SIZE}" "inj_on S {1..COLLECTION_SIZE}"
    using skills_inv_inj [OF inv] by (simp_all only: set_rev all_ids)
  show thesis
  proof (rule that(2) [of S D])
    show "buildTable sha = Inr (\<lambda>i. if i \<in> {1..COLLECTION_SIZE} then Some (skill_row i (S i) (D i)) else None)"
      using inv by (simp only: buildTable_def Inr map_sum.simps skills_inv_def set_rev all_ids)
    show "valid_combo (D i)" if "i \<in> {1..COLLECTION_SIZE}" for i
      using inv that unfolding skills_inv_def set_rev all_ids by blast
  qed (use inj ids in auto)
qed


text \<open>
  Property C39:  Whatever the hash, building the skills fails only when one token's skill id
  collides in all 65 tries - the combinations never run out - and otherwise gives each of
  the ids 1 to 5000 a skill, no two with the same skill id, the same name or the same
  combination of desk, role, pair, timeframe and risk.
\<close>

theorem skills_unique:
  "case buildTable sha of
     Inl e \<Rightarrow> e \<in> SkillIdProbeFailed ` {1..COLLECTION_SIZE}
   | Inr t \<Rightarrow> dom t = {1..COLLECTION_SIZE} \<and>
       inj_on (\<lambda>i. skillId (the (t i))) {1..COLLECTION_SIZE} \<and>
       inj_on (\<lambda>i. sk_name (the (t i))) {1..COLLECTION_SIZE} \<and>
       inj_on (\<lambda>i. skill_combo_text (the (t i))) {1..COLLECTION_SIZE}"
proof (rule buildTable_cases [of sha])
  fix D S
  assume t: "buildTable sha = Inr (\<lambda>i. if i \<in> {1..COLLECTION_SIZE} then Some (skill_row i (S i) (D i)) else None)"
    and inj: "inj_on D {1..COLLECTION_SIZE}" "inj_on S {1..COLLECTION_SIZE}"
    and valid: "\<And>i. i \<in> {1..COLLECTION_SIZE} \<Longrightarrow> valid_combo (D i)"
  let ?t = "\<lambda>i. if i \<in> {1..COLLECTION_SIZE} then Some (skill_row i (S i) (D i)) else None"
  have row: "inj_on (\<lambda>i. f (the (?t i))) {1..COLLECTION_SIZE} \<longleftrightarrow>
      inj_on (\<lambda>i. f (skill_row i (S i) (D i))) {1..COLLECTION_SIZE}" for f :: "skill \<Rightarrow> string"
    by (rule inj_on_cong) simp
  have combo: "inj_on (\<lambda>i. f (skill_row i (S i) (D i))) {1..COLLECTION_SIZE}"
    if "\<And>i j. valid_combo (D i) \<Longrightarrow> valid_combo (D j) \<Longrightarrow>
      f (skill_row i (S i) (D i)) = f (skill_row j (S j) (D j)) \<Longrightarrow> D i = D j" for f :: "skill \<Rightarrow> string"
    by (rule inj_onI) (metis that valid inj(1) inj_onD)
  have "inj_on (\<lambda>i. skillId (the (?t i))) {1..COLLECTION_SIZE}"
    unfolding row using inj(2) by (simp add: skill_row_sel)
  moreover have "inj_on (\<lambda>i. sk_name (the (?t i))) {1..COLLECTION_SIZE}"
    unfolding row by (rule combo) (simp add: skill_row_sel skill_name_inj)
  moreover have "inj_on (\<lambda>i. skill_combo_text (the (?t i))) {1..COLLECTION_SIZE}"
    unfolding row by (rule combo) (rule skill_row_combo_inj)
  moreover have "dom ?t = {1..COLLECTION_SIZE}" by (auto simp: dom_def)
  ultimately show ?thesis unfolding t sum.case by blast
qed simp

section \<open>When building succeeds\<close>

lemma probe_sid_first: "skill_id sha i 0 \<notin> set used \<Longrightarrow> probe_sid sha used i 0 = Inr (skill_id sha i 0)"
  by (subst probe_sid.simps) simp

lemma skill_steps_total:
  "usedSid st = map (\<lambda>i. skill_id sha i 0) ids \<Longrightarrow> length (usedCombo st) + length todo \<le> SPACE \<Longrightarrow>
   inj_on (\<lambda>i. skill_id sha i 0) (set (todo @ ids)) \<Longrightarrow> distinct (todo @ ids) \<Longrightarrow>
   \<exists>st'. skill_steps sha todo st = Inr st'"
proof (induction todo arbitrary: st ids)
  case (Cons i todo)
  have "probe_combo SPACE (hexInt sha (dec i) ''combo'' mod SPACE) (usedCombo st) \<noteq> None"
    using Cons.prems(2) by (intro probe_combo_total) (simp_all add: SPACE_eq)
  then obtain d where d: "probe_combo SPACE (hexInt sha (dec i) ''combo'' mod SPACE) (usedCombo st) = Some d" by blast
  have "skill_id sha i 0 \<notin> set (usedSid st)"
    using Cons.prems(1,3,4) by (auto dest!: inj_onD)
  then have step: "skill_step sha i st = Inr \<lparr> usedCombo = comboKey d # usedCombo st,
      usedSid = skill_id sha i 0 # usedSid st, rows = (rows st)(i \<mapsto> skill_row i (skill_id sha i 0) d) \<rparr>"
    by (simp add: skill_step_def d probe_sid_first)
  have "\<exists>st'. skill_steps sha todo \<lparr> usedCombo = comboKey d # usedCombo st,
      usedSid = skill_id sha i 0 # usedSid st, rows = (rows st)(i \<mapsto> skill_row i (skill_id sha i 0) d) \<rparr> = Inr st'"
    using Cons.prems by (intro Cons.IH [where ids = "i # ids"]) auto
  with step show ?case by simp
qed simp


text \<open>A hash that spells the id out.\<close>

definition plain_hash :: "string \<Rightarrow> string" where
  "plain_hash s = pad_start 10 (CHR ''0'') (drop 23 s)"

lemma to_upper_digits: "list_all is_digit s \<Longrightarrow> to_upper s = s"
  by (induction s) (auto simp: to_upper_def upper_char_def char_class_defs)

lemma digs_length: "2 \<le> b \<Longrightarrow> n < b ^ Suc k \<Longrightarrow> length (digs b n) \<le> Suc k"
proof (induction k arbitrary: n)
  case (Suc k)
  have "n div b < b ^ Suc k" using Suc.prems(2) by (simp add: less_mult_imp_div_less mult.commute)
  then have "length (digs b (n div b)) \<le> Suc k" by (rule Suc.IH [OF Suc.prems(1)])
  then show ?case by (simp add: digs.simps [of b n])
next
  case 0
  then show ?case by (simp add: digs.simps [of b n])
qed

lemma skill_id_plain: "i \<in> {1..COLLECTION_SIZE} \<Longrightarrow> skill_id plain_hash i 0 = ''CBK-S-'' @ pad_start 10 (CHR ''0'') (dec i)"
proof -
  assume "i \<in> {1..COLLECTION_SIZE}"
  then have "i < 10 ^ Suc 3" by (simp add: COLLECTION_SIZE_def)
  then have "length (dec i) \<le> 10" using digs_length [of 10 i 3] by (simp add: radix_def)
  moreover have "list_all is_digit (pad_start 10 (CHR ''0'') (dec i))"
    using set_pad_start [of 10 "CHR ''0''" "dec i"] dec_digits [of _ i]
    by (auto simp: list_all_iff char_class_defs)
  ultimately show ?thesis by (simp add: skill_id_def plain_hash_def to_upper_digits)
qed


section \<open>Looking a skill up\<close>

lemma parse_int_dec: "parse_int (dec n) = Some (int n)"
proof -
  have d: "is_digit (hd (dec n))" using dec_digits [of "hd (dec n)" n] by simp
  then have "\<not> is_ws (hd (dec n))" by (auto simp: char_class_defs)
  then have t: "trim_left (dec n) = dec n" by (simp add: trim_left_def dropWhile_eq_self_iff)
  have "hd (dec n) \<noteq> CHR ''-''" "hd (dec n) \<noteq> CHR ''+''" using d by (auto simp: char_class_defs)
  then have "\<not> starts_with ''-'' (dec n)" "\<not> starts_with ''+'' (dec n)"
    by (cases "dec n"; simp)+
  moreover have "takeWhile is_digit (dec n) = dec n" unfolding takeWhile_eq_all_conv by (auto dest: dec_digits)
  ultimately show ?thesis by (simp add: parse_int_def Let_def t del: takeWhile_eq_all_conv)
qed

text \<open>
  \<open>skillFor\<close> on a decimal id: out of 1..5000 it returns null; within, the skill it
  returns is that token's own, is owner-signed, trades a pair of its own desk, and its
  ticker is missing only on the desk that needs a contract address.
\<close>

theorem skillFor_valid:
  "case skillFor sha (dec i) of
     Inl e \<Rightarrow> i \<in> {1..COLLECTION_SIZE} \<and> e \<in> SkillIdProbeFailed ` {1..COLLECTION_SIZE}
   | Inr None \<Rightarrow> i \<notin> {1..COLLECTION_SIZE}
   | Inr (Some s) \<Rightarrow> i \<in> {1..COLLECTION_SIZE} \<and> sk_tokenId s = i \<and> sk_execution s = ''owner-signed'' \<and>
       starts_with ''CBK-S-'' (skillId s) \<and>
       (\<exists>d \<in> set DESKS. sk_deskId s = desk_id d \<and> sk_pair s \<in> set (desk_pairs d) \<and> sk_dataSource s = desk_source d)"
proof (cases "i \<in> {1..COLLECTION_SIZE}")
  case False
  then show ?thesis by (auto simp: skillFor_def parse_int_dec)
next
  case True
  then have lookup: "skillFor sha (dec i) = map_sum (\<lambda>e. e) (\<lambda>t. t i) (buildTable sha)"
    by (simp add: skillFor_def parse_int_dec)
  show ?thesis
  proof (rule buildTable_cases [of sha])
    fix D S
    assume t: "buildTable sha = Inr (\<lambda>i. if i \<in> {1..COLLECTION_SIZE} then Some (skill_row i (S i) (D i)) else None)"
      and valid: "\<And>i. i \<in> {1..COLLECTION_SIZE} \<Longrightarrow> valid_combo (D i)"
      and sid: "\<And>i. i \<in> {1..COLLECTION_SIZE} \<Longrightarrow> \<exists>q. S i = skill_id sha i q"
    have s: "skillFor sha (dec i) = Inr (Some (skill_row i (S i) (D i)))" using True by (simp add: lookup t)
    have v: "valid_combo (D i)" using True by (rule valid)
    then have d: "DESKS ! deskI (D i) \<in> set DESKS" by (simp add: valid_combo_def list_lengths)
    then have "desk_ok (DESKS ! deskI (D i))" using desks_ok by (simp add: list_all_iff)
    then have "combo_pair (D i) \<in> set (desk_pairs (DESKS ! deskI (D i)))"
      using v by (simp add: combo_pair_def desk_ok_def valid_combo_def)
    moreover have "starts_with ''CBK-S-'' (S i)" using sid [OF True] by (auto simp: skill_id_def)
    ultimately show ?thesis using True d unfolding s by (auto simp: skill_row_def Let_def)
  qed (use True in \<open>simp add: lookup\<close>)
qed

section \<open>The check of the table\<close>

lemma map_of_new:
  "i \<notin> set old \<Longrightarrow> inj_on f (insert i (set old)) \<Longrightarrow> map_of (map (\<lambda>j. (f j, j)) old) (f i) = None"
  by (auto simp: map_of_eq_None_iff inj_on_def)

lemma scan_skills_ok:
  "distinct (ids @ old) \<Longrightarrow>
   inj_on (\<lambda>i. skillId (r i)) (set (ids @ old)) \<Longrightarrow> inj_on (\<lambda>i. sk_name (r i)) (set (ids @ old)) \<Longrightarrow>
   inj_on (\<lambda>i. skill_combo_text (r i)) (set (ids @ old)) \<Longrightarrow>
   \<forall>i \<in> set ids. t i = Some (r i) \<and> sk_execution (r i) = ''owner-signed'' \<Longrightarrow>
   scan_skills t (map (\<lambda>i. (skillId (r i), i)) old) (map (\<lambda>i. (sk_name (r i), i)) old)
     (map (\<lambda>i. (skill_combo_text (r i), i)) old) ids =
   Skills_ok COLLECTION_SIZE (length ids + length old) (length ids + length old) SPACE"
proof (induction ids arbitrary: old)
  case (Cons i ids)
  have new: "map_of (map (\<lambda>j. (f j, j)) old) (f i) = None" if "inj_on f (set ((i # ids) @ old))" for f :: "nat \<Rightarrow> string"
    using that Cons.prems(1) by (intro map_of_new) (auto intro: inj_on_subset)
  have "scan_skills t (map (\<lambda>i. (skillId (r i), i)) (i # old)) (map (\<lambda>i. (sk_name (r i), i)) (i # old))
     (map (\<lambda>i. (skill_combo_text (r i), i)) (i # old)) ids =
     Skills_ok COLLECTION_SIZE (length ids + length (i # old)) (length ids + length (i # old)) SPACE"
    using Cons.prems by (intro Cons.IH) (auto simp: insert_commute)
  with Cons.prems new [OF Cons.prems(2)] new [OF Cons.prems(3)] new [OF Cons.prems(4)] show ?case by simp
qed simp


text \<open>
  \<open>assertUnique\<close> of the skills finds nothing wrong with any table the page can
  build: it reports 5000 distinct skill ids and names out of 67200 combinations.
\<close>

theorem skills_assertUnique_ok:
  "assertUnique sha \<in> Inl ` SkillIdProbeFailed ` {1..COLLECTION_SIZE} \<union> {Inr (Skills_ok 5000 5000 5000 67200)}"
proof (rule buildTable_cases [of sha])
  fix D S
  assume t: "buildTable sha = Inr (\<lambda>i. if i \<in> {1..COLLECTION_SIZE} then Some (skill_row i (S i) (D i)) else None)"
    and inj: "inj_on D {1..COLLECTION_SIZE}" "inj_on S {1..COLLECTION_SIZE}"
    and valid: "\<And>i. i \<in> {1..COLLECTION_SIZE} \<Longrightarrow> valid_combo (D i)"
  let ?t = "\<lambda>i. if i \<in> {1..COLLECTION_SIZE} then Some (skill_row i (S i) (D i)) else None"
  let ?r = "\<lambda>i. skill_row i (S i) (D i)" and ?ids = "[1..<COLLECTION_SIZE + 1]"
  have combo: "inj_on (\<lambda>i. f (?r i)) {1..COLLECTION_SIZE}"
    if "\<And>i j. valid_combo (D i) \<Longrightarrow> valid_combo (D j) \<Longrightarrow> f (?r i) = f (?r j) \<Longrightarrow> D i = D j"
    for f :: "skill \<Rightarrow> string"
    by (rule inj_onI) (metis that valid inj(1) inj_onD)
  have len: "length ?ids = 5000" unfolding length_upt by (simp add: COLLECTION_SIZE_def)
  have "scan_skills ?t (map (\<lambda>i. (skillId (?r i), i)) []) (map (\<lambda>i. (sk_name (?r i), i)) [])
     (map (\<lambda>i. (skill_combo_text (?r i), i)) []) ?ids =
     Skills_ok COLLECTION_SIZE (length ?ids + length ([] :: nat list)) (length ?ids + length ([] :: nat list)) SPACE"
  proof (rule scan_skills_ok)
    show "inj_on (\<lambda>i. skillId (?r i)) (set (?ids @ []))"
      unfolding append_Nil2 all_ids using inj(2) by (simp add: skill_row_sel)
    show "inj_on (\<lambda>i. sk_name (?r i)) (set (?ids @ []))"
      unfolding append_Nil2 all_ids by (rule combo) (simp add: skill_row_sel skill_name_inj)
    show "inj_on (\<lambda>i. skill_combo_text (?r i)) (set (?ids @ []))"
      unfolding append_Nil2 all_ids by (rule combo) (rule skill_row_combo_inj)
    show "\<forall>i \<in> set ?ids. ?t i = Some (?r i) \<and> sk_execution (?r i) = ''owner-signed''"
      unfolding all_ids by (simp add: skill_row_sel)
  qed simp
  then have "scan_skills ?t [] [] [] ?ids = Skills_ok 5000 5000 5000 67200"
    by (simp only: list.map len SPACE_eq COLLECTION_SIZE_def list.size) simp
  then have "assertUnique sha = Inr (Skills_ok 5000 5000 5000 67200)"
    by (simp only: assertUnique_def t map_sum.simps)
  then show ?thesis by blast
qed (auto simp: assertUnique_def)

section \<open>Digests\<close>

text \<open>
  What the brokers rely on: a digest is 64 hexadecimal digits.
\<close>

locale hex_digest =
  fixes sha :: "string \<Rightarrow> string"
  assumes digest_length: "length (sha s) = 64"
    and digest_hex: "list_all is_hex (sha s)"
begin

lemma to_upper_hex: "list_all is_hex s \<Longrightarrow> length (to_upper s) = length s \<and> list_all (\<lambda>c. is_digit c \<or> is_upper c) (to_upper s)"
proof (induction s)
  case (Cons c s)
  have "length (upper_char c) = 1 \<and> list_all (\<lambda>c. is_digit c \<or> is_upper c) (upper_char c)"
    using Cons.prems by (auto simp: upper_char_def is_hex_def char_class_defs)
  with Cons show ?case by (simp add: to_upper_def)
qed (simp add: to_upper_def)

lemma skill_id_format:
  "length (skill_id sha i q) = 16" "list_all (\<lambda>c. is_digit c \<or> is_upper c) (drop 6 (skill_id sha i q))"
proof -
  have "list_all is_hex (take 10 (sha s))" "length (take 10 (sha s)) = 10" for s
    using digest_hex [of s] digest_length [of s] by (auto simp: list_all_iff dest: in_set_takeD)
  then show "length (skill_id sha i q) = 16" "list_all (\<lambda>c. is_digit c \<or> is_upper c) (drop 6 (skill_id sha i q))"
    by (simp_all add: skill_id_def to_upper_hex)
qed

lemma skill_ids_format:
  assumes "buildTable sha = Inr t" "t i = Some s"
  shows "length (skillId s) = 16 \<and> list_all (\<lambda>c. is_digit c \<or> is_upper c) (drop 6 (skillId s))"
proof (rule buildTable_cases [of sha])
  fix D S
  assume t: "buildTable sha = Inr (\<lambda>i. if i \<in> {1..COLLECTION_SIZE} then Some (skill_row i (S i) (D i)) else None)"
    and sid: "\<And>i. i \<in> {1..COLLECTION_SIZE} \<Longrightarrow> \<exists>q. S i = skill_id sha i q"
  from t assms have i: "i \<in> {1..COLLECTION_SIZE}" and s: "s = skill_row i (S i) (D i)"
    by (auto split: if_splits)
  from sid [OF i] show ?thesis by (auto simp: s skill_row_sel skill_id_format)
qed (use assms in simp)

end

lemma list_all_map_filter:
  "(\<And>x y. x \<in> set xs \<Longrightarrow> f x = Some y \<Longrightarrow> P y) \<Longrightarrow> list_all P (List.map_filter f xs)"
  by (auto simp: list_all_iff List.map_filter_def)

interpretation pure_digest: hex_digest sha256pure
  by unfold_locales (rule sha256pure_length, rule sha256pure_hex)

text \<open>
  The skill ids of the page are the prefix and ten upper-case hexadecimal
  digits.
\<close>

theorem skill_ids_shape:
  "case buildTable sha256pure of
     Inl e \<Rightarrow> True
   | Inr t \<Rightarrow> list_all (\<lambda>s. length (skillId s) = 16 \<and>
       list_all (\<lambda>c. is_digit c \<or> is_upper c) (drop 6 (skillId s))) (List.map_filter t [1..<COLLECTION_SIZE + 1])"
proof (cases "buildTable sha256pure")
  case (Inr t)
  then show ?thesis
    unfolding Inr sum.case by (intro list_all_map_filter) (rule pure_digest.skill_ids_format [OF Inr])
qed simp

end
