(* ===== verification/Markets_View.thy ===== *)
theory Markets_View
  imports Markets_Feed Html
begin

text \<open>
  What markets.js writes into the page: the card of a market (\<open>card\<close>, here \<open>market_card\<close>,
  and \<open>snippet\<close>), the board (\<open>renderBoard\<close>), the facts (\<open>renderFacts\<close>) and the pill.  A card's text
  is the HTML the page assigns; the board is a record of what is shown and hidden.
\<close>

section \<open>A card\<close>

definition span_class :: "string \<Rightarrow> string \<Rightarrow> string" where
  "span_class c s = ''<span'' @ attr ''class'' c @ ''>'' @ s @ ''</span>''"

definition mk_snippet :: "string \<Rightarrow> string" where
  "mk_snippet code =
     ''<figure'' @ attr ''class'' ''snippet'' @ ''><button'' @ attr ''class'' ''copy'' @ attr ''type'' ''button'' @
     '' data-copy>Copy</button><pre><code'' @ attr ''class'' ''language-sh'' @ ''>'' @ escapeHtml code @
     ''</code></pre></figure>''"

text \<open>\<open>fmtIre\<close> of a \<open>BigInt\<close>: \<open>Number\<close> of it, in millions, with at most six digits.\<close>

definition big_ire :: "nat \<Rightarrow> string" where
  "big_ire v = fmt_ire 6 (dbl (of_nat v))"

definition mk_winner :: "market \<Rightarrow> string option" where
  "mk_winner mk =
     (case mk_resolve mk of
        None \<Rightarrow> None
      | Some r \<Rightarrow>
          Some (if rs_w r = ''y'' \<or> rs_w r = ''yes'' then ''Yes''
                else if rs_w r = ''n'' \<or> rs_w r = ''no'' then ''No'' else rs_w r))"

definition card_class :: "market \<Rightarrow> string" where
  "card_class mk =
     ''mk-card'' @ (if mk_pending mk then '' is-pending'' else []) @
     (case mk_resolve mk of Some r \<Rightarrow> if rs_pending r then [] else '' is-resolved'' | None \<Rightarrow> [])"

definition winner_badge :: "market \<Rightarrow> string list" where
  "winner_badge mk =
     (case (mk_winner mk, mk_resolve mk) of
        (Some winner, Some r) \<Rightarrow>
          if winner = [] then []
          else [span_class (''mk-badge '' @ (if winner = ''Yes'' then ''mk-badge--yes'' else ''mk-badge--no''))
                  (''resolved '' @ escapeHtml winner @ (if rs_pending r then '' (mempool)'' else []))]
      | _ \<Rightarrow> [])"

definition card_badges :: "market \<Rightarrow> string list" where
  "card_badges mk =
     (if mk_pending mk then [span_class ''mk-badge mk-badge--pending'' ''mempool''] else []) @
     (if mk_pendingBuys mk \<noteq> 0
      then [span_class ''mk-badge mk-badge--pending''
              (dec (mk_pendingBuys mk) @ '' pending bet'' @ (if mk_pendingBuys mk = 1 then [] else ''s''))]
      else []) @
     winner_badge mk @
     (case mk_height mk of
        Some h \<Rightarrow> if h \<noteq> 0 \<and> \<not> mk_pending mk then [''<span>block #'' @ num_str (Fin h) @ ''</span>''] else []
      | None \<Rightarrow> [])"

definition card_note :: "market \<Rightarrow> string" where
  "card_note mk =
     (case mk_analyses mk of
        [] \<Rightarrow> []
      | latest # _ \<Rightarrow>
          if an_note latest = [] \<and> an_y latest = None then []
          else ''<div'' @ attr ''class'' ''mk-note'' @ ''><strong>Latest analyze'' @
            (if an_pending latest then '' '' @ mid_dot @ '' mempool'' else []) @ ''</strong>'' @
            escapeHtml ((case (an_y latest, an_n latest) of
                (Some y, Some n) \<Rightarrow> num_str (Fin y) @ ''/'' @ num_str (Fin n) @ '' y/n. ''
              | _ \<Rightarrow> []) @ an_note latest) @ ''</div>'')"

definition side_bar :: "string \<Rightarrow> string \<Rightarrow> int \<Rightarrow> string" where
  "side_bar name mark pct =
     ''<div'' @ attr ''class'' ''mk-side'' @ ''><dt>'' @ name @ ''</dt><dd'' @ attr ''class'' ''mk-track'' @ ''><span'' @
     attr ''class'' (''mk-fill mk-fill--'' @ mark) @ attr ''style'' (''width:'' @ int_str pct @ ''%'') @
     ''></span></dd><dd>'' @ int_str pct @ ''%</dd></div>''"

definition action_block :: "string \<Rightarrow> string \<Rightarrow> string" where
  "action_block title code = ''<details><summary>'' @ title @ ''</summary>'' @ mk_snippet code @ ''</details>''"

definition market_card :: "market \<Rightarrow> string" where
  "market_card mk =
     (let od = odds mk; pending = mk_pendingYes mk + mk_pendingNo mk in
      ''<article'' @ attr ''class'' (card_class mk) @ ''>'' @
      ''<div'' @ attr ''class'' ''mk-card-meta'' @ ''>'' @ concat (card_badges mk) @ ''</div>'' @
      ''<h3>'' @ escapeHtml (mk_q mk) @ ''</h3>'' @
      ''<p'' @ attr ''class'' ''mk-id'' @ ''>'' @ escapeHtml (mk_id mk) @ ''</p>'' @
      ''<dl'' @ attr ''class'' ''mk-bars'' @ ''>'' @
      side_bar ''Yes'' ''yes'' (od_yes od) @ side_bar ''No'' ''no'' (od_no od) @ ''</dl>'' @
      ''<p'' @ attr ''class'' ''mk-odds-note'' @ ''>'' @
      (if od_known od then ''From inscribed buy amounts only.''
       else ''No buy inscriptions yet '' @ em_dash @ '' 50/50 placeholder, not a book.'') @ ''</p>'' @
      ''<p'' @ attr ''class'' ''mk-vol'' @ ''>Volume '' @ big_ire (od_vol od) @ '' IRE'' @
      (if pending > 0 then '' '' @ mid_dot @ '' '' @ big_ire pending @ '' IRE in mempool'' else []) @ ''</p>'' @
      card_note mk @
      ''<div'' @ attr ''class'' ''mk-actions'' @ ''>'' @
      action_block (''Buy yes '' @ mid_dot @ '' 1 IRE pledge'') (buyCli (mk_id mk) ''y'') @
      action_block (''Buy no '' @ mid_dot @ '' 1 IRE pledge'') (buyCli (mk_id mk) ''n'') @
      action_block ''Resolve'' (resolveCli (mk_id mk) ''y'') @
      action_block ''Analyze (analyst CLI)'' (analyzeCli (mk_id mk)) @
      ''</div></article>'')"

section \<open>The page\<close>

record board_view =
  bv_grid :: string
  bv_empty_hidden :: bool
  bv_offline_hidden :: bool
  bv_label :: string

definition renderBoard :: "market_state \<Rightarrow> board_view" where
  "renderBoard st =
     (if \<not> ms_online st
      then \<lparr> bv_grid = [], bv_empty_hidden = True, bv_offline_hidden = False, bv_label = ''OFFLINE'' \<rparr>
      else let n = length (ms_markets st);
               label = (if n \<noteq> 0 then dec n @ '' market'' @ (if n = 1 then [] else ''s'') @ '' in window'' else ''empty window'')
        in if n = 0
           then \<lparr> bv_grid = [], bv_empty_hidden = False, bv_offline_hidden = True, bv_label = label \<rparr>
           else \<lparr> bv_grid = concat (map market_card (ms_markets st)), bv_empty_hidden = True, bv_offline_hidden = True,
                  bv_label = label \<rparr>)"

record market_facts =
  mf_height :: string
  mf_count :: string
  mf_window :: string
  mf_pending :: string
  mf_updated :: string

text \<open>\<open>polled\<close> is the local time of the last successful poll.\<close>

definition renderFacts :: "string option \<Rightarrow> market_state \<Rightarrow> market_facts" where
  "renderFacts polled st =
     \<lparr> mf_height = (case ms_height st of None \<Rightarrow> em_dash | Some h \<Rightarrow> ''#'' @ locale_int h),
       mf_count = (if ms_online st then dec (length (ms_markets st)) else em_dash),
       mf_window = (case (ms_online st, ms_windowMin st) of
          (True, Some lo) \<Rightarrow> ''#'' @ num_str (Fin lo) @ en_dash @ ''#'' @
            (case ms_height st of None \<Rightarrow> ''null'' | Some h \<Rightarrow> num_str (Fin h))
        | _ \<Rightarrow> em_dash),
       mf_pending = (if ms_online st then dec (ms_pendingCount st) else em_dash),
       mf_updated = (case polled of Some t \<Rightarrow> ''Polled '' @ t | None \<Rightarrow> ''Waiting for /rpc/status'') \<rparr>"

text \<open>The state and the label of the pill after a poll; markets, wallet and mempool set the same.\<close>

definition setPill :: "bool \<Rightarrow> bool \<Rightarrow> string \<times> string" where
  "setPill online catchingUp =
     (if \<not> online then (''offline'', ''OFFLINE'')
      else if catchingUp then (''syncing'', ''SYNCING'') else (''live'', ''LIVE''))"

section \<open>Markup\<close>

lemma tags_literals [tag_count]:
  "tags (span_class c s) = 2 + tags c + tags s" "tags (mk_snippet code) = 8"
  by (simp_all add: span_class_def mk_snippet_def)

lemma int_str_tags [tag_count, simp]: "tags (int_str i) = 0"
  by (simp add: int_str_def)

lemma tags_digit: "d < 10 \<Longrightarrow> digit_char d \<noteq> CHR ''<''"
  using digit_char_digit [of d] by (auto simp: is_digit_def in_range_def)

lemma frac_tags: "0 \<le> r \<Longrightarrow> r < 1 \<Longrightarrow> tags (frac_digits k r) = 0"
proof (induction k arbitrary: r)
  case (Suc k)
  have "nat \<lfloor>10 * r\<rfloor> < 10" using Suc.prems by (simp add: nat_less_iff floor_less_iff)
  from tags_digit [OF this] have "tags (digit_char (nat \<lfloor>10 * r\<rfloor>) # s) = tags s" for s by simp
  moreover have "0 \<le> 10 * r - of_int \<lfloor>10 * r\<rfloor>" "10 * r - of_int \<lfloor>10 * r\<rfloor> < 1" by linarith+
  ultimately show ?case using Suc.IH by (simp del: tags_Cons)
qed simp

lemma tags_num_str [tag_count, simp]: "tags (num_str n) = 0"
proof (cases n)
  case (Fin r)
  have "0 \<le> \<bar>r\<bar> - of_int \<lfloor>\<bar>r\<bar>\<rfloor>" "\<bar>r\<bar> - of_int \<lfloor>\<bar>r\<bar>\<rfloor> < 1" by linarith+
  then show ?thesis using Fin by (simp add: frac_tags)
qed simp_all


lemma tags_rev: "tags (rev s) = tags s"
  by (simp add: tags_def rev_filter [symmetric])

lemma tags_group: "tags (group s) = tags s"
proof -
  have "tags (group_rev t) = tags t" for t by (induction t rule: group_rev.induct) simp_all
  then show ?thesis by (simp add: group_def tags_rev)
qed

lemma tags_eq_0: "tags s = 0 \<longleftrightarrow> CHR ''<'' \<notin> set s"
  unfolding tags_def length_0_conv filter_empty_conv by metis

lemma tags_strip: "tags s = 0 \<Longrightarrow> tags (strip_zeros s) = 0"
  unfolding strip_zeros_def tags_rev tags_eq_0 by (metis set_dropWhileD set_rev)

lemma tags_pad: "c \<noteq> CHR ''<'' \<Longrightarrow> tags (pad_start k c s) = tags s"
  by (simp add: pad_start_def tags_def)

lemma tags_intl [tag_count, simp]: "tags (intl_format k r) = 0"
proof -
  have "tags (point_digits s) = tags s" for s by (simp add: point_digits_def)
  then show ?thesis by (simp add: intl_format_def Let_def tags_group tags_strip tags_pad)
qed

lemma tags_fmt_ire [tag_count, simp]: "tags (fmt_ire k n) = 0"
  by (simp add: fmt_ire_def split: jsnum.split)

lemma tags_big_ire [tag_count, simp]: "tags (big_ire v) = 0"
  by (simp add: big_ire_def)

lemma tags_badges: "tags (concat (card_badges mk)) = 2 * length (card_badges mk)"
  by (simp add: card_badges_def winner_badge_def tags_literals del: num_str.simps split: option.split)

lemma tags_note: "tags (card_note mk) = (if card_note mk = [] then 0 else 4)"
  by (simp add: card_note_def Let_def del: num_str.simps split: list.split option.split)

lemma tags_bar: "tags m = 0 \<Longrightarrow> tags n = 0 \<Longrightarrow> tags (side_bar n m i) = 10"
  by (simp add: side_bar_def)

lemma tags_action: "tags t = 0 \<Longrightarrow> tags (action_block t c) = 12"
  by (simp add: action_block_def tags_literals)

text \<open>
  Question, id, note and outcome of a market, which anyone can inscribe, add no tag to its
  card: the number of tags is that of the page's own markup for its badges and note.
\<close>

lemma tags_card: "tags (market_card mk) = 84 + 2 * length (card_badges mk) + (if card_note mk = [] then 0 else 4)"
proof -
  have "tags (card_class mk) = 0" by (simp add: card_class_def split: option.split)
  then show ?thesis
    by (simp add: market_card_def Let_def tags_badges tags_note tags_bar tags_action)
qed

section \<open>What is shown\<close>

text \<open>
  Exactly one of the three is visible: the notice that the node is offline, the notice that
  the window is empty, or the cards of all markets.
\<close>

lemma board_cases:
  "(\<not> bv_offline_hidden (renderBoard st) \<longleftrightarrow> \<not> ms_online st) \<and>
   (\<not> bv_empty_hidden (renderBoard st) \<longleftrightarrow> ms_online st \<and> ms_markets st = []) \<and>
   bv_grid (renderBoard st) = (if ms_online st then concat (map market_card (ms_markets st)) else [])"
  by (simp add: renderBoard_def Let_def)

end
