(* ===== verification/Wallet_View.thy ===== *)
theory Wallet_View
  imports Wallet_Feed Markets_View
begin

text \<open>
  What wallet.js writes into the page: the balance line (\<open>renderBalance\<close>), the list of
  transactions with its notices (\<open>renderList\<close>, \<open>iconGlyph\<close>, \<open>kindLabel\<close>) and the two copy
  buttons.  \<open>age\<close> is \<open>ago\<close> of wallet.js, which reads the clock.
\<close>

section \<open>The balance\<close>

record balance_view =
  ba_state :: "string option"
  ba_number :: string
  ba_note :: string

definition renderBalance :: "wallet_state \<Rightarrow> balance_view" where
  "renderBalance st =
     (let number = (if nullish (ws_balance st) then em_dash else fmt_ire 6 (to_number (ws_balance st))) in
      if ws_address st = []
      then \<lparr> ba_state = None, ba_number = em_dash, ba_note = ''Enter an ire1 address'' \<rparr>
      else if \<not> ws_online st
      then \<lparr> ba_state = Some ''offline'', ba_number = number, ba_note = ''OFFLINE'' \<rparr>
      else if ws_balanceError st \<noteq> []
      then \<lparr> ba_state = None, ba_number = em_dash, ba_note = ws_balanceError st \<rparr>
      else if nullish (ws_balance st)
      then \<lparr> ba_state = None, ba_number = em_dash, ba_note = ''Looking up uire'' @ ellipsis \<rparr>
      else \<lparr> ba_state = None, ba_number = number, ba_note = ''IRE '' @ mid_dot @ '' uire on ire-1'' \<rparr>)"

section \<open>A row\<close>

definition iconGlyph :: "tx_kind \<Rightarrow> string" where
  "iconGlyph k =
     (case k of
        Receive \<Rightarrow> [CHR 0xE2, CHR 0x86, CHR 0x93]
      | Inscribe \<Rightarrow> [CHR 0xE2, CHR 0x97, CHR 0x87]
      | Stake \<Rightarrow> [CHR 0xE2, CHR 0x9C, CHR 0xB6]
      | Bet \<Rightarrow> ''%''
      | Send \<Rightarrow> [CHR 0xE2, CHR 0x86, CHR 0x91])"

definition kindLabel :: "tx_kind \<Rightarrow> string" where
  "kindLabel k =
     (case k of Receive \<Rightarrow> ''Receive'' | Inscribe \<Rightarrow> ''Inscribe'' | Stake \<Rightarrow> ''Stake'' | Bet \<Rightarrow> ''Bet'' | Send \<Rightarrow> ''Send'')"

definition kind_class :: "tx_kind \<Rightarrow> string" where
  "kind_class k =
     (case k of Receive \<Rightarrow> ''receive'' | Inscribe \<Rightarrow> ''inscribe'' | Stake \<Rightarrow> ''stake'' | Bet \<Rightarrow> ''bet'' | Send \<Rightarrow> ''send'')"

definition minus_sign :: string where "minus_sign = [CHR 0xE2, CHR 0x88, CHR 0x92]"

definition row_memo :: "wtx \<Rightarrow> string" where
  "row_memo tx =
     (case w_inscription tx of None \<Rightarrow> [] | Some i \<Rightarrow> take 180 (or_str (payload i) (raw i)))"

definition detail_row :: "string \<Rightarrow> string \<Rightarrow> string" where
  "detail_row name html = ''<dt>'' @ name @ ''</dt><dd>'' @ html @ ''</dd>''"

definition row_detail :: "wtx \<Rightarrow> string" where
  "row_detail tx =
     ''<span'' @ attr ''class'' ''wa-detail'' @ ''><dl>'' @
     detail_row ''Hash'' (escapeHtml (w_hash tx)) @
     detail_row ''Memo'' (escapeHtml (or_str (row_memo tx) em_dash)) @
     detail_row ''Id'' (escapeHtml (w_id tx)) @
     (case w_height tx of
        Some h \<Rightarrow> if h = 0 then [] else detail_row ''Height'' (''#'' @ num_str (Fin h))
      | None \<Rightarrow> []) @
     ''</dl><button'' @ attr ''type'' ''button'' @ attr ''class'' ''wa-copy'' @
     attr ''data-copy-id'' (escapeHtml (w_id tx)) @ ''>Copy id</button></span>''"

definition is_open :: "wallet_state \<Rightarrow> wtx \<Rightarrow> bool" where
  "is_open st tx \<longleftrightarrow> ws_selected st = Some (w_hash tx)"

definition row_html :: "(jval \<Rightarrow> string) \<Rightarrow> wallet_state \<Rightarrow> tx_kind \<times> wtx \<Rightarrow> string" where
  "row_html age st kt =
     (case kt of (kind, tx) \<Rightarrow>
      let peer = counterparty (ws_address st) kind tx;
          sign = (if kind = Receive then ''+'' else if kind = Send then minus_sign else [])
      in ''<li><button'' @ attr ''type'' ''button'' @ attr ''class'' (''wa-row'' @ (if is_open st tx then '' is-open'' else [])) @
         attr ''data-hash'' (escapeHtml (w_hash tx)) @
         attr ''aria-expanded'' (if is_open st tx then ''true'' else ''false'') @ ''>'' @
         ''<span'' @ attr ''class'' (''wa-icon wa-icon--'' @ kind_class kind) @ attr ''aria-hidden'' ''true'' @ ''>'' @
         iconGlyph kind @ ''</span>'' @
         ''<span'' @ attr ''class'' ''wa-main'' @ ''>'' @
         span_class ''wa-kind'' (kindLabel kind) @
         span_class ''wa-peer'' (escapeHtml (shortAddr peer)) @
         span_class ''wa-id'' (escapeHtml (w_id tx)) @ ''</span>'' @
         ''<span'' @ attr ''class'' ''wa-end'' @ ''>'' @
         span_class (''wa-amt'' @ (if kind = Receive then '' wa-amt--in'' else []))
           (sign @ fmt_ire 6 (str_number (w_amount tx)) @ '' IRE'') @
         span_class ''wa-meta'' (escapeHtml (if w_pending tx then [] else age (w_time tx))) @
         span_class (''wa-chip'' @ (if w_pending tx then '' wa-chip--pending'' else []))
           (if w_pending tx then ''Pending'' else ''Confirmed'') @ ''</span>'' @
         (if is_open st tx then row_detail tx else []) @ ''</button></li>'')"

section \<open>The list\<close>

record list_view =
  lv_offline_hidden :: bool
  lv_rows :: string
  lv_empty :: "string option"
  lv_label :: string

text \<open>The text of the notice on an empty list is \<open>lv_empty\<close>, \<open>None\<close> when it is hidden.\<close>

definition renderList :: "(jval \<Rightarrow> string) \<Rightarrow> wallet_state \<Rightarrow> list_view" where
  "renderList age st =
     (if \<not> ws_online st \<and> ws_txs st = []
      then \<lparr> lv_offline_hidden = False, lv_rows = [],
             lv_empty = Some (''OFFLINE '' @ em_dash @ '' could not reach /rpc/status.''), lv_label = ''offline'' \<rparr>
      else if ws_address st = []
      then \<lparr> lv_offline_hidden = ws_online st, lv_rows = [],
             lv_empty = Some ''Enter an ire1 address to look up activity.'', lv_label = ''no address'' \<rparr>
      else if ws_txs st = []
      then \<lparr> lv_offline_hidden = ws_online st, lv_rows = [],
             lv_empty = Some ''No transactions in the last blocks.'',
             lv_label = (if \<not> ws_online st then ''offline''
               else case ws_windowMin st of
                 None \<Rightarrow> ''empty''
               | Some lo \<Rightarrow> ''#'' @ num_str (Fin lo) @ en_dash @ ''#'' @
                   (case ws_height st of None \<Rightarrow> ''null'' | Some h \<Rightarrow> num_str (Fin h))) \<rparr>
      else \<lparr> lv_offline_hidden = ws_online st,
             lv_rows = concat (map (row_html age st) (ws_txs st)), lv_empty = None,
             lv_label = dec (length (ws_txs st)) @ (if length (ws_txs st) = 1 then '' tx'' else '' txs'') \<rparr>)"

text \<open>What the two copy buttons do: a text for the button, or what is copied.\<close>

definition share_click :: "string \<Rightarrow> wallet_state \<Rightarrow> string + string" where
  "share_click origin st = (if ws_address st = [] then Inl ''Enter address first'' else Inr (shareUrl origin st))"

definition copy_addr_click :: "wallet_state \<Rightarrow> string + string" where
  "copy_addr_click st = (if ws_address st = [] then Inl ''Enter address first'' else Inr (ws_address st))"

section \<open>Markup\<close>

lemma tags_tx_kind [tag_count, simp]: "tags (iconGlyph k) = 0" "tags (kindLabel k) = 0" "tags (kind_class k) = 0" "tags minus_sign = 0"
  by (simp_all add: iconGlyph_def kindLabel_def kind_class_def minus_sign_def split: tx_kind.split)

lemma tags_detail_row [tag_count, simp]: "tags (detail_row n html) = 4 + tags n + tags html"
  by (simp add: detail_row_def)

lemma tags_detail: "tags (row_detail tx) = (if w_height tx \<in> {None, Some 0} then 18 else 22)"
  by (simp add: row_detail_def del: num_str.simps split: option.split)

lemma tags_wallet_row: "tags (row_html age st (kind, tx)) = 22 + (if is_open st tx then tags (row_detail tx) else 0)"
  by (simp add: row_html_def Let_def tags_literals)

section \<open>What is shown\<close>

text \<open>
  A state in which the page lists nothing while offline shows rows only when online and for
  an address, and then as many as its label says; otherwise one notice tells why not.
\<close>

lemma list_cases:
  assumes "\<not> ws_online st \<longrightarrow> ws_txs st = []" "ws_txs st \<noteq> [] \<longrightarrow> ws_address st \<noteq> []"
  shows "lv_offline_hidden (renderList age st) = ws_online st"
    and "lv_rows (renderList age st) = concat (map (row_html age st) (ws_txs st))"
    and "lv_empty (renderList age st) = None \<longleftrightarrow> ws_txs st \<noteq> []"
    and "lv_rows (renderList age st) \<noteq> [] \<longleftrightarrow> ws_txs st \<noteq> []"
proof -
  have row: "row_html age st kt \<noteq> []" for kt by (simp add: row_html_def Let_def split: prod.split)
  show "lv_offline_hidden (renderList age st) = ws_online st"
    "lv_rows (renderList age st) = concat (map (row_html age st) (ws_txs st))"
    "lv_empty (renderList age st) = None \<longleftrightarrow> ws_txs st \<noteq> []"
    using assms by (auto simp: renderList_def)
  then show "lv_rows (renderList age st) \<noteq> [] \<longleftrightarrow> ws_txs st \<noteq> []"
    using row by (cases "ws_txs st") simp_all
qed

text \<open>A number is shown for a balance that was read, and marked when the node is gone.\<close>

lemma balance_cases:
  assumes "ba_number (renderBalance st) \<noteq> em_dash"
  shows "ws_address st \<noteq> [] \<and> \<not> nullish (ws_balance st) \<and>
    ba_number (renderBalance st) = fmt_ire 6 (to_number (ws_balance st)) \<and>
    (ws_online st \<longrightarrow> ws_balanceError st = []) \<and>
    (\<not> ws_online st \<longrightarrow> ba_note (renderBalance st) = ''OFFLINE'')"
  using assms by (auto simp: renderBalance_def Let_def split: if_splits)

text \<open>
  In every state the page can reach, the rows are those of the feed, the notice on the node
  is shown exactly while it is gone, and rows are shown for a valid address only.
\<close>

lemma wallet_list_reached:
  assumes "wallet_reach sha st"
  shows "lv_offline_hidden (renderList age st) = ws_online st"
    and "lv_rows (renderList age st) = concat (map (row_html age st) (ws_txs st))"
    and "lv_rows (renderList age st) \<noteq> [] \<Longrightarrow> ws_online st \<and> isIreAddr (ws_address st)"
proof -
  have inv: "wallet_inv st" by (rule wallet_inv_reached [OF assms])
  then have off: "\<not> ws_online st \<longrightarrow> ws_txs st = []" by (simp add: wallet_inv_def)
  have addr: "ws_txs st \<noteq> [] \<longrightarrow> isIreAddr (ws_address st)"
    using inv unfolding wallet_inv_def by (cases "ws_txs st") auto
  moreover have "isIreAddr a \<Longrightarrow> a \<noteq> []" for a by (auto simp: isIreAddr_def)
  ultimately have some: "ws_txs st \<noteq> [] \<longrightarrow> ws_address st \<noteq> []" by blast
  note list_cases [OF off some]
  then show "lv_offline_hidden (renderList age st) = ws_online st"
    "lv_rows (renderList age st) = concat (map (row_html age st) (ws_txs st))"
    "lv_rows (renderList age st) \<noteq> [] \<Longrightarrow> ws_online st \<and> isIreAddr (ws_address st)"
    using off addr by auto
qed

end
