(* ===== verification/Wallet_Race.thy ===== *)
theory Wallet_Race
  imports Wallet_Feed
begin

text \<open>
  The activity page of wallet.js with its waiting handlers apart.  \<open>lookupBalance\<close> and \<open>tick\<close>
  wait for the node, and the user may enter another address meanwhile; a poll may also be
  started while another one waits.  A waiting handler is a job: the lookup of a submitted
  address, a poll before it filters its transactions, a poll that has filtered them and
  waits for the balance.  Wallet and Wallet_Feed take each poll and each submission as one
  step; that is the run in which nothing interleaves (\<open>race_sequential\<close>).
\<close>

section \<open>Jobs\<close>

datatype wallet_job =
    Lookup string
  | Poll
  | Finish string wallet_plan "(tx_kind \<times> wtx) list"

record race =
  r_page :: wallet_state
  r_jobs :: "wallet_job list"

definition spawn :: "wallet_job \<Rightarrow> race \<Rightarrow> race" where
  "spawn j r = r\<lparr> r_jobs := r_jobs r @ [j] \<rparr>"

definition publish :: "wallet_plan \<Rightarrow> (tx_kind \<times> wtx) list \<Rightarrow> wallet_state \<Rightarrow> wallet_state" where
  "publish p txs st =
     st\<lparr> ws_online := True, ws_height := Some (wp_height p), ws_catchingUp := wp_catchingUp p,
         ws_windowMin := Some (wp_min p), ws_txs := txs \<rparr>"

text \<open>The part of \<open>tick\<close> up to the filter by the address on show.\<close>

definition poll_reply ::
  "(string \<Rightarrow> json option) \<Rightarrow> (byte list \<Rightarrow> string) \<Rightarrow> (rat \<Rightarrow> bool) \<Rightarrow> wallet_state \<Rightarrow>
   wallet_state \<times> (wallet_plan \<times> (tx_kind \<times> wtx) list) option"
where
  "poll_reply get sha part st =
     (case wallet_plan_of get of
        None \<Rightarrow> (wallet_offline (ws_cache st) st, None)
      | Some p \<Rightarrow>
          let cache = evict (wp_min p) (wp_height p) (ws_cache st) in
          (case wallet_feed get sha cache p of
             None \<Rightarrow> (wallet_offline (fill (wallet_load get sha) part cache (wp_heights p)) st, None)
           | Some (pend, blocks) \<Rightarrow>
               (st\<lparr> ws_cache := fill (wallet_load get sha) (\<lambda>_. True) cache (wp_heights p) \<rparr>,
                Some (p, view_for (ws_address st) (merge_feed pend (confirmed_of blocks))))))"

fun race_resume ::
  "wallet_job \<Rightarrow> (string \<Rightarrow> json option) \<Rightarrow> (byte list \<Rightarrow> string) \<Rightarrow> (rat \<Rightarrow> bool) \<Rightarrow> race \<Rightarrow> race"
where
  "race_resume (Lookup a) get sha part r = spawn Poll (r\<lparr> r_page := lookupBalance get a (r_page r) \<rparr>)"
| "race_resume Poll get sha part r =
     (case poll_reply get sha part (r_page r) of
        (st, None) \<Rightarrow> r\<lparr> r_page := st \<rparr>
      | (st, Some (p, txs)) \<Rightarrow>
          if isIreAddr (ws_address st) then spawn (Finish (ws_address st) p txs) (r\<lparr> r_page := st \<rparr>)
          else r\<lparr> r_page := publish p txs st \<rparr>)"
| "race_resume (Finish a p txs) get sha part r = r\<lparr> r_page := publish p txs (lookupBalance get a (r_page r)) \<rparr>"

text \<open>The form's handler up to its first \<open>await\<close>.\<close>

definition race_submit :: "bool \<Rightarrow> string \<Rightarrow> race \<Rightarrow> race" where
  "race_submit store input r =
     (let addr = trim input; st = (setAddress store addr (r_page r))\<lparr> ws_selected := None \<rparr> in
      if addr \<noteq> [] \<and> \<not> isIreAddr addr
      then r\<lparr> r_page := st\<lparr> ws_balance := None, ws_balanceError := ''Not an ire1 account address.'', ws_txs := [] \<rparr> \<rparr>
      else if addr = [] then spawn Poll (r\<lparr> r_page := lookupBalance (\<lambda>_. None) addr st \<rparr>)
      else spawn (Lookup addr) (r\<lparr> r_page := st \<rparr>))"

datatype race_action =
    Submit bool string
  | Interval
  | Select string
  | Reply nat "string \<Rightarrow> json option" "rat \<Rightarrow> bool"

fun race_step :: "(byte list \<Rightarrow> string) \<Rightarrow> race_action \<Rightarrow> race \<Rightarrow> race" where
  "race_step sha (Submit store input) r = race_submit store input r"
| "race_step sha Interval r = spawn Poll r"
| "race_step sha (Select hash) r = r\<lparr> r_page := select_row hash (r_page r) \<rparr>"
| "race_step sha (Reply n get part) r =
     (if n < length (r_jobs r)
      then race_resume (r_jobs r ! n) get sha part (r\<lparr> r_jobs := take n (r_jobs r) @ drop (Suc n) (r_jobs r) \<rparr>)
      else r)"

definition race_runs :: "(byte list \<Rightarrow> string) \<Rightarrow> race_action list \<Rightarrow> race \<Rightarrow> race" where
  "race_runs sha xs r = fold (race_step sha) xs r"

section \<open>One step at a time\<close>

lemma trim_trim [simp]: "trim (trim s) = trim s"
proof (cases "trim s = []")
  case False
  let ?d = "dropWhile is_ws s"
  have t: "trim s = rev (dropWhile is_ws (rev ?d))" by (simp add: trim_def trim_left_def trim_right_def)
  with False have r: "dropWhile is_ws (rev ?d) \<noteq> []" by simp
  then have "?d \<noteq> []" by (cases ?d) simp_all
  moreover have "?d = trim s @ rev (takeWhile is_ws (rev ?d))"
    unfolding t rev_append [symmetric] takeWhile_dropWhile_id rev_rev_ident ..
  ultimately have "hd (trim s) = hd ?d" using False by (metis hd_append2)
  then have "\<not> is_ws (hd (trim s))" using hd_dropWhile [OF \<open>?d \<noteq> []\<close>] by simp
  moreover have "\<not> is_ws (last (trim s))" using hd_dropWhile [OF r] by (simp add: t last_rev)
  ultimately show ?thesis by (intro trim_id) blast
qed (simp add: trim_id)

lemma lookup_addr: "ws_address (lookupBalance get a st) = ws_address st"
  by (simp add: lookupBalance_frame)

lemma lookup_publish:
  "publish p txs (lookupBalance get a (st\<lparr> ws_cache := c \<rparr>)) = (publish p txs (lookupBalance get a st))\<lparr> ws_cache := c \<rparr>"
  by (simp add: lookupBalance_def publish_def split: option.split)

lemma lookup_invalid: "\<not> isIreAddr a \<Longrightarrow> lookupBalance get a st = lookupBalance get' a st"
  by (simp add: lookupBalance_def)

definition alone :: "(string \<Rightarrow> json option) \<Rightarrow> (rat \<Rightarrow> bool) \<Rightarrow> race_action list" where
  "alone get part = [Reply 0 get part, Reply 0 get part]"

lemma poll_alone:
  "race_runs sha (alone get part) \<lparr> r_page = st, r_jobs = [Poll] \<rparr> = \<lparr> r_page = wallet_tick get sha part st, r_jobs = [] \<rparr>"
proof (cases "wallet_plan_of get")
  case None
  then show ?thesis by (simp add: race_runs_def alone_def poll_reply_def wallet_tick_def)
next
  case (Some p)
  let ?cache = "evict (wp_min p) (wp_height p) (ws_cache st)"
  show ?thesis
  proof (cases "wallet_feed get sha ?cache p")
    case None
    with Some show ?thesis by (simp add: race_runs_def alone_def poll_reply_def wallet_tick_def Let_def)
  next
    case feed: (Some pb)
    obtain pend blocks where pb: "pb = (pend, blocks)" by force
    show ?thesis
    proof (cases "isIreAddr (ws_address st)")
      case True
      with Some feed pb show ?thesis
        by (simp add: race_runs_def alone_def poll_reply_def wallet_tick_def Let_def spawn_def lookup_publish)
          (simp add: publish_def)
    next
      case False
      with Some feed pb show ?thesis
        by (simp add: race_runs_def alone_def poll_reply_def wallet_tick_def Let_def publish_def)
    qed
  qed
qed



section \<open>Whose transactions are listed\<close>

definition listed_for :: "string \<Rightarrow> (tx_kind \<times> wtx) list \<Rightarrow> bool" where
  "listed_for a txs \<longleftrightarrow>
     list_all (\<lambda>(k, tx). isIreAddr a \<and> involves tx a \<and> k = kindFor tx a) txs"

lemma listed_view: "listed_for a (view_for a txs)"
  by (auto simp: listed_for_def view_for_def list_all_iff)

lemma listed_Nil [simp]: "listed_for a []"
  by (simp add: listed_for_def)

text \<open>A job holds transactions of its own address.\<close>

fun job_listed :: "wallet_job \<Rightarrow> bool" where
  "job_listed (Finish a p txs) = listed_for a txs"
| "job_listed _ = True"

fun finishes :: "string \<Rightarrow> wallet_job \<Rightarrow> bool" where
  "finishes a (Finish b p txs) = (a \<noteq> b)"
| "finishes a _ = False"

text \<open>No address is submitted while a poll that has filtered its transactions waits.\<close>

fun waits_balance :: "wallet_job \<Rightarrow> bool" where
  "waits_balance (Finish _ _ _) = True"
| "waits_balance _ = False"

fun calm :: "race \<Rightarrow> race_action \<Rightarrow> bool" where
  "calm r (Submit store input) = (\<not> list_ex waits_balance (r_jobs r))"
| "calm r _ = True"

inductive race_reach :: "(byte list \<Rightarrow> string) \<Rightarrow> (race \<Rightarrow> race_action \<Rightarrow> bool) \<Rightarrow> race \<Rightarrow> bool" for sha ok where
  opened: "race_reach sha ok (spawn Poll \<lparr> r_page = wallet_restore store saved fromQ wallet_start, r_jobs = [] \<rparr>)"
| step: "race_reach sha ok r \<Longrightarrow> ok r x \<Longrightarrow> race_reach sha ok (race_step sha x r)"

definition some_owner :: "race \<Rightarrow> bool" where
  "some_owner r \<longleftrightarrow> (\<exists>a. listed_for a (ws_txs (r_page r))) \<and> list_all job_listed (r_jobs r)"

definition own_list :: "race \<Rightarrow> bool" where
  "own_list r \<longleftrightarrow> list_all job_listed (r_jobs r) \<and> \<not> list_ex (finishes (ws_address (r_page r))) (r_jobs r) \<and>
     (r_jobs r = [] \<longrightarrow> listed_for (ws_address (r_page r)) (ws_txs (r_page r)))"

lemma poll_reply_frame:
  assumes "poll_reply get sha part st = (st', res)"
  shows "ws_address st' = ws_address st"
    and "res = None \<Longrightarrow> ws_txs st' = []" and "res = Some (p, txs) \<Longrightarrow> listed_for (ws_address st) txs"
    and "res \<noteq> None \<Longrightarrow> ws_txs st' = ws_txs st"
  using assms
  by (auto simp: poll_reply_def Let_def wallet_offline_def listed_view split: option.splits prod.splits)

lemma publish_sel [simp]: "ws_address (publish p txs st) = ws_address st" "ws_txs (publish p txs st) = txs"
  by (simp_all add: publish_def)


definition drop_job :: "nat \<Rightarrow> race \<Rightarrow> race" where
  "drop_job n r = r\<lparr> r_jobs := take n (r_jobs r) @ drop (Suc n) (r_jobs r) \<rparr>"

lemma in_drop_job: "j \<in> set (r_jobs (drop_job n r)) \<Longrightarrow> j \<in> set (r_jobs r)"
  by (auto simp: drop_job_def dest: in_set_takeD in_set_dropD)

lemma some_owner_drop: "some_owner r \<Longrightarrow> some_owner (drop_job n r)"
  using in_drop_job [of _ n r] by (auto simp: some_owner_def list_all_iff drop_job_def)

lemma some_owner_resume:
  assumes "some_owner r" "job_listed j"
  shows "some_owner (race_resume j get sha part r)"
proof (cases j)
  case Poll
  obtain st res where res: "poll_reply get sha part (r_page r) = (st, res)" by force
  note frame = poll_reply_frame [OF res]
  show ?thesis
  proof (cases res)
    case None
    then show ?thesis using assms res Poll frame(2) by (auto simp: some_owner_def)
  next
    case (Some pt)
    obtain p txs where "pt = (p, txs)" by force
    then show ?thesis using assms res Poll Some frame(1,3,4) by (auto simp: some_owner_def spawn_def)
  qed
qed (use assms in \<open>auto simp: some_owner_def spawn_def lookupBalance_frame\<close>)

lemma submit_frame:
  "set (r_jobs (race_submit store input r)) \<subseteq> set (r_jobs r) \<union> {Poll, Lookup (trim input)}"
  "ws_txs (r_page (race_submit store input r)) \<in> {[], ws_txs (r_page r)}"
  "r_jobs (race_submit store input r) = [] \<Longrightarrow> ws_txs (r_page (race_submit store input r)) = []"
  by (auto simp: race_submit_def Let_def spawn_def lookupBalance_frame setAddress_def)

lemma some_owner_step: "some_owner r \<Longrightarrow> some_owner (race_step sha x r)"
proof (cases x)
  case (Submit store input)
  assume r: "some_owner r"
  have "\<forall>j \<in> set (r_jobs (race_submit store input r)). job_listed j"
    using r submit_frame(1) [of store input r] by (auto simp: some_owner_def list_all_iff)
  moreover have "\<exists>a. listed_for a (ws_txs (r_page (race_submit store input r)))"
    using r submit_frame(2) [of store input r] by (auto simp: some_owner_def)
  ultimately show ?thesis using Submit by (simp add: some_owner_def list_all_iff)
next
  case (Reply n get part)
  assume r: "some_owner r"
  have "job_listed (r_jobs r ! n)" if "n < length (r_jobs r)"
    using r that by (simp add: some_owner_def list_all_length)
  then show ?thesis
    using Reply r some_owner_resume [OF some_owner_drop [OF r, of n]] by (simp add: drop_job_def)
qed (auto simp: some_owner_def spawn_def select_row_def)

lemma own_list_resume:
  assumes "own_list (r\<lparr> r_jobs := js @ j # ks \<rparr>)"
  shows "own_list (race_resume j get sha part (r\<lparr> r_jobs := js @ ks \<rparr>))"
proof (cases j)
  case Poll
  obtain st res where res: "poll_reply get sha part (r_page r) = (st, res)" by force
  note frame = poll_reply_frame [OF res]
  show ?thesis
  proof (cases res)
    case None
    then show ?thesis using assms res Poll frame(1,2) by (auto simp: own_list_def)
  next
    case (Some pt)
    obtain p txs where "pt = (p, txs)" by force
    then show ?thesis using assms res Poll Some frame(1,3) by (auto simp: own_list_def spawn_def)
  qed
next
  case (Lookup a)
  then show ?thesis using assms by (auto simp: own_list_def spawn_def lookupBalance_frame)
next
  case (Finish a p txs)
  then show ?thesis using assms by (auto simp: own_list_def lookupBalance_frame)
qed

lemma own_list_step: "own_list r \<Longrightarrow> calm r x \<Longrightarrow> own_list (race_step sha x r)"
proof (cases x)
  case (Submit store input)
  assume r: "own_list r" and ok: "calm r x"
  let ?r = "race_submit store input r"
  have none: "\<not> waits_balance j" if "j \<in> set (r_jobs ?r)" for j
    using that ok Submit submit_frame(1) [of store input r] by (auto simp: list_ex_iff)
  have "\<not> finishes a j \<and> job_listed j" if "\<not> waits_balance j" for a j using that by (cases j) simp_all
  with none show ?thesis
    using Submit submit_frame(3) [of store input r] by (auto simp: own_list_def list_all_iff list_ex_iff)
next
  case (Reply n get part)
  assume r: "own_list r"
  show ?thesis
  proof (cases "n < length (r_jobs r)")
    case True
    then have "r_jobs r = take n (r_jobs r) @ r_jobs r ! n # drop (Suc n) (r_jobs r)" by (rule id_take_nth_drop)
    then have "r = r\<lparr> r_jobs := take n (r_jobs r) @ r_jobs r ! n # drop (Suc n) (r_jobs r) \<rparr>" by simp
    with r have "own_list (r\<lparr> r_jobs := take n (r_jobs r) @ r_jobs r ! n # drop (Suc n) (r_jobs r) \<rparr>)" by simp
    from own_list_resume [OF this] True Reply show ?thesis by simp
  qed (use r Reply in simp)
qed (auto simp: own_list_def spawn_def select_row_def)

definition race_open :: race where
  "race_open = spawn Poll \<lparr> r_page = wallet_restore True [] [] wallet_start, r_jobs = [] \<rparr>"

lemma race_start:
  "some_owner (spawn Poll \<lparr> r_page = wallet_restore store saved fromQ wallet_start, r_jobs = [] \<rparr>)"
  "own_list (spawn Poll \<lparr> r_page = wallet_restore store saved fromQ wallet_start, r_jobs = [] \<rparr>)"
proof -
  have "ws_txs (wallet_restore store saved fromQ wallet_start) = []"
    by (simp add: wallet_restore_def Let_def setAddress_def wallet_start_def)
  then show "some_owner (spawn Poll \<lparr> r_page = wallet_restore store saved fromQ wallet_start, r_jobs = [] \<rparr>)"
    "own_list (spawn Poll \<lparr> r_page = wallet_restore store saved fromQ wallet_start, r_jobs = [] \<rparr>)"
    by (simp_all add: some_owner_def own_list_def spawn_def)
qed

text \<open>
  Property C22: Whatever interleaves, the transactions listed are those of one valid address,
  with the kinds that address sees; and if no address is submitted while a poll that has
  filtered its transactions waits for the balance, then whenever nothing is under way they
  are those of the address on show.
\<close>

theorem race_listed:
  assumes "race_reach sha ok r"
  shows "(\<exists>a. listed_for a (ws_txs (r_page r))) \<and>
    ((\<forall>r x. ok r x = calm r x) \<longrightarrow> r_jobs r = [] \<longrightarrow> listed_for (ws_address (r_page r)) (ws_txs (r_page r)))"
proof -
  have "some_owner r"
    using assms by (induction rule: race_reach.induct) (rule race_start some_owner_step; assumption?)+
  moreover have "own_list r" if "\<forall>r x. ok r x = calm r x"
    using assms
  proof (induction rule: race_reach.induct)
    case (step r x)
    then show ?case using that by (intro own_list_step) simp_all
  qed (rule race_start)
  ultimately show ?thesis by (simp add: some_owner_def own_list_def)
qed

theorem race_listed_witness:
  "\<exists>a. listed_for a (ws_txs (r_page (race_step (\<lambda>_. ''ff'') (Submit True demo_address) race_open)))"
proof -
  have "race_reach (\<lambda>_. ''ff'') calm race_open"
    unfolding race_open_def by (rule race_reach.opened)
  moreover have "calm race_open (Submit True demo_address)" by (simp add: race_open_def spawn_def)
  ultimately show ?thesis using race_listed [OF race_reach.step] by blast
qed

section \<open>Another account's activity\<close>

text \<open>A node with one transaction of the demo address in its mempool and a balance for it.\<close>

definition busy_node :: "string \<Rightarrow> json option" where
  "busy_node path =
     (if path = ''/rpc/status'' then Some demo_status
      else if path = ''/rpc/block?height=1'' then Some demo_block
      else Some (JObj [(''result'', JObj [(''txs'', JArr [JStr ''aXJlMXFxcXFxcXFxcXFxcXFxcXFxcXFxcXFxcXFxcXFxcXFxcXFxcXFxIGlyZTFwcHBwcHBwcHBwcHBwcHBwcHBwcHBwcHBwcHBwcHBwcHBwcHBwcA==''])]),
        (''balance'', JObj [(''amount'', JStr ''5'')])]))"

definition hasty :: "race_action list" where
  "hasty = [Reply 0 busy_node (\<lambda>_. True), Submit True demo_address, Reply 0 busy_node (\<lambda>_. True),
     Reply 0 busy_node (\<lambda>_. True), Submit True ''ire1'', Reply 0 busy_node (\<lambda>_. True)]"


end
