(* ===== verification/Mempool_View.thy ===== *)
theory Mempool_View
  imports Mempool Markets_View
begin

text \<open>
  The rest of what mempool.js writes into the page: the detail box of a transaction or a block
  (\<open>showDetail\<close>), the line of facts (\<open>renderFacts\<close>) and what the well shows besides its cubes
  (\<open>renderWell\<close>).  The cubes and blocks themselves are in Mempool.
\<close>

section \<open>The detail box\<close>

definition term_row :: "string \<Rightarrow> string \<Rightarrow> string" where
  "term_row name html = ''<dt>'' @ name @ ''</dt><dd>'' @ html @ ''</dd>''"

definition lines_html :: "string list \<Rightarrow> string" where
  "lines_html ss = (if ss = [] then em_dash else join ''<br>'' (map escapeHtml ss))"

text \<open>\<open>entry.blockHeight || entry.rpcHeight\<close>; the block of a found transaction is \<open>h\<close>.\<close>

definition known_height :: "mtx \<Rightarrow> jsnum option \<Rightarrow> jval" where
  "known_height tx h = or_else (map_option JNum h) (m_rpcHeight tx)"

definition status_html :: "mtx \<Rightarrow> jsnum option \<Rightarrow> string" where
  "status_html tx h =
     (if truthy (known_height tx h) then ''Block #'' @ to_string (known_height tx h) else ''Mempool'')"

definition tx_detail :: "mtx \<Rightarrow> jsnum option \<Rightarrow> string" where
  "tx_detail tx h =
     ''<h3>Transaction</h3><dl'' @ attr ''class'' ''mp-kv'' @ ''>'' @
     ''<dt>Kind</dt><dd'' @ attr ''class'' (''mp-kind-'' @ kind_name (m_kind tx)) @ ''>'' @ mp_kindLabel (m_kind tx) @ ''</dd>'' @
     term_row ''Tx hash'' (escapeHtml (m_hash tx)) @
     term_row ''Inscription id'' (lines_html (m_ids tx)) @
     term_row ''Status'' (status_html tx h) @
     (if nullish (m_rpcCode tx) then [] else term_row ''Code'' (escapeHtml (to_string (m_rpcCode tx)))) @
     (case m_inscription tx of
        None \<Rightarrow> []
      | Some ins \<Rightarrow> term_row ''Media type'' (escapeHtml (or_str (mediaType ins) em_dash)) @
          term_row ''Payload'' (escapeHtml (take 280 (payload ins)))) @
     term_row ''Messages'' (lines_html (m_urls tx)) @ ''</dl>''"

definition block_detail :: "(json \<Rightarrow> (string \<times> int) option) \<Rightarrow> mblock \<Rightarrow> string" where
  "block_detail clock b =
     ''<h3>Block</h3><dl'' @ attr ''class'' ''mp-kv'' @ ''>'' @
     term_row ''Height'' (''#'' @ num_str (mblk_height b)) @
     term_row ''Time'' (escapeHtml (mp_fmtTime clock (mblk_time b))) @
     term_row ''Transactions'' (dec (length (mblk_txs b))) @
     term_row ''Hash'' (escapeHtml (if truthy (mblk_hash b) then to_string (mblk_hash b) else em_dash)) @ ''</dl>''"

text \<open>The box is hidden when nothing is selected.\<close>

definition showDetail :: "(json \<Rightarrow> (string \<times> int) option) \<Rightarrow> selection \<Rightarrow> string option" where
  "showDetail clock entry =
     (case entry of
        No_selection \<Rightarrow> None
      | Sel_block b \<Rightarrow> Some (block_detail clock b)
      | Sel_tx tx h \<Rightarrow> Some (tx_detail tx h))"

section \<open>Facts and well\<close>

record mempool_facts =
  pf_height :: string
  pf_pending :: string
  pf_supply :: string
  pf_validators :: string
  pf_updated :: string

definition mp_renderFacts :: "string option \<Rightarrow> mempool_state \<Rightarrow> mempool_facts" where
  "mp_renderFacts polled st =
     \<lparr> pf_height = (case mp_height st of None \<Rightarrow> em_dash | Some h \<Rightarrow> ''#'' @ locale_int h),
       pf_pending = (case mp_pendingTotal st of None \<Rightarrow> em_dash | Some n \<Rightarrow> num_str n),
       pf_supply = (if nullish (mp_supply st) then em_dash else fmt_ire 2 (to_number (mp_supply st)) @ '' IRE''),
       pf_validators = (if mp_validators st \<noteq> 0 then dec (mp_validators st)
          else if mp_online st then ''0'' else em_dash),
       pf_updated = (case polled of Some t \<Rightarrow> ''Polled '' @ t | None \<Rightarrow> ''Waiting for /rpc/status'') \<rparr>"

record well_view =
  wv_label :: string
  wv_html :: string
  wv_empty :: "string option"

definition renderWell :: "mempool_state \<Rightarrow> well_view" where
  "renderWell st =
     \<lparr> wv_label = (if mp_online st
          then (case mp_pendingTotal st of None \<Rightarrow> ''pending'' | Some n \<Rightarrow> num_str n @ '' pending'') else ''offline''),
       wv_html = well_html st,
       wv_empty = (if mp_unconfirmed st \<noteq> [] then None
          else Some (if mp_online st then ''Mempool empty '' @ em_dash @ '' waiting for transactions.''
                     else ''OFFLINE '' @ em_dash @ '' could not reach /rpc.'')) \<rparr>"

section \<open>Markup\<close>

lemma tags_term_row [tag_count, simp]: "tags (term_row n html) = 4 + tags n + tags html"
  by (simp add: term_row_def)

lemma tags_join: "tags (join sep ss) = sum_list (map tags ss) + (length ss - 1) * tags sep"
proof (induction ss rule: join.induct)
qed (simp_all add: tags_def)

lemma tags_lines [tag_count, simp]: "tags (lines_html ss) = length ss - 1"
  by (simp add: lines_html_def tags_join comp_def sum_list_triv)

lemma tags_mp_kind [tag_count, simp]: "tags (kind_name k) = 0" "tags (mp_kindLabel k) = 0"
  by (simp_all add: kind_name_def mp_kindLabel_def split: mp_kind.split)

lemma tags_block_detail: "tags (block_detail clock b) = 20"
  by (simp add: block_detail_def del: num_str.simps)

text \<open>
  Everything of a transaction appears as text, save one value: the height its node reports
  when the page asks for the transaction again.
\<close>

lemma tags_tx_detail:
  "tags (tx_detail tx h) = 24 + (length (m_ids tx) - 1) + (length (m_urls tx) - 1) +
    (if nullish (m_rpcCode tx) then 0 else 4) + (if m_inscription tx = None then 0 else 8) + tags (status_html tx h)"
  by (simp add: tx_detail_def split: option.split)

lemma tags_status: "m_rpcHeight tx \<in> {None, Some (JNum n)} \<Longrightarrow> tags (status_html tx h) = 0"
  by (cases h) (auto simp: status_html_def known_height_def or_else_def to_string_def simp del: num_str.simps)

text \<open>A node can put markup of its own into the box.\<close>

definition marked_reply :: json where
  "marked_reply = JObj [(''result'', JObj [(''height'', JStr ''<img src=x onerror=alert(1)>'')])]"

lemma rpc_height_unescaped:
  "tags (tx_detail (enrichTx (\<lambda>_. Some marked_reply) tx) None) = tags (tx_detail (tx\<lparr> m_rpcHeight := None, m_rpcCode := None \<rparr>) None) + 1"
  by (simp add: tags_tx_detail status_html_def known_height_def enrichTx_def marked_reply_def
      Let_def or_else_def and_then_def to_string_def)

end
