(* ===== verification/Broker_Rules.thy ===== *)
theory Broker_Rules
  imports Skills Display
begin

text \<open>
  The rules of site/brokers/assets/brokers.js: keys of the local storage, the fee and its
  payment, the checks of owner and network.  A value JavaScript may leave null or undefined
  is an \<open>option\<close>; addresses and hashes are the strings the wallet hands out.  Replies of the
  wallet and of the chain are arguments.
\<close>

section \<open>Configuration\<close>

definition CONTRACT :: string where "CONTRACT = ''0x9F7A3ADbF611cBeeC95Ce40e0259bbF96b8Df041''"
definition FEE_RECIPIENT :: string where "FEE_RECIPIENT = ''0xdfF1a5dc565a2D8d0C2818f8B190ca8399B869b3''"
definition FEE_ETH :: string where "FEE_ETH = ''0.001''"
definition FEE_WEI :: string where "FEE_WEI = ''0x38d7ea4c68000''"
definition CHAIN_ID :: nat where "CHAIN_ID = 4663"
definition CHAIN_HEX :: string where "CHAIN_HEX = ''0x1237''"
definition EXPLORER :: string where "EXPLORER = ''https://robinhoodchain.blockscout.com''"

section \<open>Small helpers\<close>

definition parseId :: "string \<Rightarrow> nat option" where
  "parseId s =
     (case parse_int s of
        None \<Rightarrow> None
      | Some n \<Rightarrow> if n < 1 \<or> n > int COLLECTION_SIZE then None else Some (nat n))"

definition short_addr :: "string \<Rightarrow> string" where
  "short_addr a = (if a = [] then [] else take 6 a @ ellipsis @ slice_last 4 a)"

definition storageKey :: "string option \<Rightarrow> string \<Rightarrow> nat \<Rightarrow> string" where
  "storageKey address kind i =
     ''crypto-brokers:'' @ kind @ '':'' @
       to_lower (case address of Some a \<Rightarrow> or_str a ''unsigned'' | None \<Rightarrow> ''unsigned'') @ '':'' @ dec i"

definition activationStorageKey :: "string option \<Rightarrow> nat \<Rightarrow> string" where
  "activationStorageKey address i =
     ''crypto-brokers:activation:'' @
       to_lower (case address of Some a \<Rightarrow> or_str a ''unsigned'' | None \<Rightarrow> ''unsigned'') @ '':'' @ dec i"

definition validatorKey :: "string \<Rightarrow> string" where
  "validatorKey addr = ''crypto-brokers:validator:'' @ to_lower addr"

definition validatorMessage :: "string \<Rightarrow> nat \<Rightarrow> string" where
  "validatorMessage addr i =
     ''IRE validator candidate. Wallet '' @ addr @ '' for Crypto Broker #'' @ dec i @
     '' on 0x9F7A3ADbF611cBeeC95Ce40e0259bbF96b8Df041. ire-1 is a testnet. This does not mint uire, take custody, or add this key to the current consensus set.''"

definition validatorMemo :: "string \<Rightarrow> nat \<Rightarrow> string" where
  "validatorMemo addr i =
     ''IREVAL1 {'' @ dq # ''e'' @ dq # '':'' @ dq # addr @ dq # '','' @ dq # ''b'' @ dq # '':'' @ dec i @ ''}''"

definition validatorCli :: "string \<Rightarrow> nat \<Rightarrow> string" where
  "validatorCli addr i =
     ''./build/ired tx bank send '' @ bsl # newline @
     ''  $(./build/ired keys show myvalidator -a --home '' @ dq # ''$HOME/.ire'' @ dq # '') '' @ bsl # newline @
     ''  $(./build/ired keys show myvalidator -a --home '' @ dq # ''$HOME/.ire'' @ dq # '') 1uire '' @ bsl # newline @
     ''  --from myvalidator --chain-id ire-1 --home '' @ dq # ''$HOME/.ire'' @ dq # '' '' @ bsl # newline @
     ''  --gas-prices 0.001uire --yes --note '' @ CHR 0x27 # validatorMemo addr i @ CHR 0x27 # newline @ newline @
     ''# Needs uire in that key. No faucet. Does not join the current 1-validator set.'' @ newline @
     ''# 25 testnet points score when this memo lands. See /join and /points.''"

definition pad32 :: "nat \<Rightarrow> string" where "pad32 n = pad_start 64 (CHR ''0'') (hex n)"

text \<open>\<open>parseInt(s, 16)\<close>; \<open>None\<close> is NaN.\<close>

definition parse_hex :: "string \<Rightarrow> int option" where
  "parse_hex s =
     (let t = trim_left s;
          neg = starts_with ''-'' t;
          u = (if neg \<or> starts_with ''+'' t then drop 1 t else t);
          v = (if starts_with ''0x'' u \<or> starts_with ''0X'' u then drop 2 u else u);
          ds = takeWhile is_hex v
      in if ds = [] then None
         else Some (if neg then - int (unradix 16 ds) else int (unradix 16 ds)))"

definition decodeUint :: "string \<Rightarrow> int option" where
  "decodeUint h = (if h = [] \<or> h = ''0x'' then None else parse_hex h)"

definition decodeAddress :: "string \<Rightarrow> string option" where
  "decodeAddress h =
     (if h = [] \<or> h = ''0x'' \<or> length h < 66 then None else Some (''0x'' @ slice_last 40 h))"

definition sameAddr :: "string option \<Rightarrow> string option \<Rightarrow> bool" where
  "sameAddr a b =
     (case (a, b) of (Some x, Some y) \<Rightarrow> x \<noteq> [] \<and> y \<noteq> [] \<and> to_lower x = to_lower y | _ \<Rightarrow> False)"

definition normalizeWei :: "string option \<Rightarrow> string" where
  "normalizeWei v =
     (case v of
        None \<Rightarrow> []
      | Some t \<Rightarrow>
          if t = [] then []
          else let s = to_lower t;
                   s = (if starts_with ''0x'' s then drop 2 s else s);
                   s = dropWhile (\<lambda>c. c = CHR ''0'') s
               in ''0x'' @ or_str s ''0'')"

definition activationData :: "nat \<Rightarrow> string" where
  "activationData i = ''0x4342524b'' @ to_lower (drop 2 CONTRACT) @ pad_start 64 (CHR ''0'') (hex i)"

definition strip_0x :: "string \<Rightarrow> string" where
  "strip_0x s = (if starts_with ''0x'' s then drop 2 s else s)"

definition activationDataMatches :: "string \<Rightarrow> nat \<Rightarrow> bool" where
  "activationDataMatches input expectedId =
     (let got = to_lower input; need = to_lower (activationData expectedId) in
      if got = need then True
      else if got = [] \<or> got = ''0x'' then False
      else strip_0x got = strip_0x need)"

section \<open>Reading the chain\<close>

datatype rpc_reply = Http_error | Rpc_error | No_result | Rpc_result string

text \<open>
  \<open>ethCall\<close>: the public endpoints in turn, then the injected wallet when there is one; the
  outer \<open>None\<close> of the wallet's reply is a throw, the inner a null result.
\<close>

fun try_rpcs :: "rpc_reply list \<Rightarrow> string option" where
  "try_rpcs [] = None"
| "try_rpcs (Rpc_result r # rs) = Some r"
| "try_rpcs (_ # rs) = try_rpcs rs"

definition ethCall :: "rpc_reply list \<Rightarrow> string option option option \<Rightarrow> string option option" where
  "ethCall rpcs wallet =
     (case try_rpcs rpcs of
        Some r \<Rightarrow> Some (Some r)
      | None \<Rightarrow> (case wallet of Some (Some r) \<Rightarrow> Some r | _ \<Rightarrow> None))"

definition ZERO_ADDRESS :: string where
  "ZERO_ADDRESS = ''0x0000000000000000000000000000000000000000''"

text \<open>\<open>call\<close> stands for \<open>ethCall\<close> on the data: \<open>None\<close> when it throws.\<close>

definition ownerOf :: "(string \<Rightarrow> string option option) \<Rightarrow> nat \<Rightarrow> string option" where
  "ownerOf call i =
     (case call (''0x6352211e'' @ pad32 i) of
        None \<Rightarrow> None
      | Some None \<Rightarrow> None
      | Some (Some h) \<Rightarrow>
          (case decodeAddress h of
             None \<Rightarrow> None
           | Some a \<Rightarrow> if a = ZERO_ADDRESS then None else Some a))"

definition balanceOf :: "(string \<Rightarrow> string option option) \<Rightarrow> string \<Rightarrow> int option" where
  "balanceOf call addr =
     (if addr = [] then None
      else case call (''0x70a08231'' @ pad_start 64 (CHR ''0'')
             (to_lower (if starts_with ''0x'' addr \<or> starts_with ''0X'' addr then drop 2 addr else addr))) of
             Some (Some h) \<Rightarrow> decodeUint h
           | _ \<Rightarrow> None)"

text \<open>
  \<open>ownerOfWithRetry\<close>: three attempts, each of which may throw (\<open>Inl\<close>) or return.  The
  attempt is \<open>ownerOf\<close>, whose own \<open>catch\<close> turns every throw into null.
\<close>

definition owner_attempt :: "(string \<Rightarrow> string option option) \<Rightarrow> nat \<Rightarrow> string + string option" where
  "owner_attempt call i = Inr (ownerOf call i)"

record scanned =
  sc_id :: nat
  sc_own :: "string option"
  sc_ok :: bool

fun owner_retry :: "(nat \<Rightarrow> string \<Rightarrow> string option option) \<Rightarrow> nat \<Rightarrow> nat \<Rightarrow> nat \<Rightarrow> scanned" where
  "owner_retry call i n 0 = \<lparr> sc_id = i, sc_own = None, sc_ok = False \<rparr>"
| "owner_retry call i n (Suc left) =
     (case owner_attempt (call n) i of
        Inr own \<Rightarrow> \<lparr> sc_id = i, sc_own = own, sc_ok = True \<rparr>
      | Inl e \<Rightarrow> owner_retry call i (n + 1) left)"

definition ownerOfWithRetry :: "(nat \<Rightarrow> string \<Rightarrow> string option option) \<Rightarrow> nat \<Rightarrow> scanned" where
  "ownerOfWithRetry call i = owner_retry call i 0 3"

section \<open>Checks\<close>

definition activationExplorer :: "string \<Rightarrow> string" where
  "activationExplorer txHash = EXPLORER @ ''/tx/'' @ encodeURIComponent txHash"

record receipt =
  status :: "string option"

record chain_tx =
  tx_from :: "string option"
  tx_to :: "string option"
  tx_value :: "string option"
  tx_input :: "string option"
  tx_data :: "string option"

definition or_opt :: "string option \<Rightarrow> string \<Rightarrow> string" where
  "or_opt v d = (case v of Some s \<Rightarrow> or_str s d | None \<Rightarrow> d)"

definition opt_text :: "string option \<Rightarrow> string" where
  "opt_text v = (case v of Some s \<Rightarrow> s | None \<Rightarrow> ''undefined'')"

text \<open>The replies of the two requests; \<open>None\<close> is null.\<close>

definition verifyActivationPayment ::
  "receipt option \<Rightarrow> chain_tx option \<Rightarrow> string option \<Rightarrow> nat \<Rightarrow> string + bool"
where
  "verifyActivationPayment receipt tx expectedFrom expectedId =
     (case (receipt, tx) of
        (Some r, Some t) \<Rightarrow>
          if to_lower (opt_text (status r)) \<noteq> ''0x1''
          then Inl ''The activation payment reverted. The agent was not activated.''
          else if \<not> sameAddr (tx_from t) expectedFrom \<or> \<not> sameAddr (tx_to t) (Some FEE_RECIPIENT)
          then Inl (''Activation tx from/to mismatch. Must pay from the owning wallet to '' @ FEE_RECIPIENT @ '' on Robinhood Chain.'')
          else if normalizeWei (tx_value t) \<noteq> normalizeWei (Some FEE_WEI)
          then Inl (''Activation tx value mismatch. Need exactly 0.001 ETH on Robinhood Chain, got '' @ opt_text (tx_value t) @ ''.'')
          else let input = to_lower (or_opt (tx_input t) (or_opt (tx_data t) ''0x'')) in
            if input \<noteq> ''0x'' \<and> input \<noteq> [] \<and> \<not> activationDataMatches input expectedId
            then Inl ''Activation tx has unexpected calldata. Send a plain 0.001 ETH transfer (no data) on Robinhood Chain.''
            else Inr True
      | _ \<Rightarrow> Inr False)"

text \<open>
  \<open>requireOwner\<close>, with the reply of \<open>ownerOf\<close> and the address connected when it arrives;
  the address connected when it starts has been found non-null.
\<close>

definition requireOwner :: "nat option \<Rightarrow> nat \<Rightarrow> string option \<Rightarrow> string option \<Rightarrow> string + string" where
  "requireOwner minted i own address =
     (case own of
        None \<Rightarrow> Inl (''Cannot verify on-chain owner for Crypto Broker #'' @ dec i @ ''.'' @
          (case minted of Some n \<Rightarrow> '' On-chain totalSupply is '' @ dec n @ ''.'' | None \<Rightarrow> []) @
          '' The connected wallet must own this token (ownerOf). No local activation was saved.'')
      | Some o' \<Rightarrow>
          if \<not> sameAddr own address
          then Inl (''Connected wallet '' @ short_addr (case address of Some a \<Rightarrow> a | None \<Rightarrow> []) @
            '' does not own Crypto Broker #'' @ dec i @ '' (on-chain owner '' @ short_addr o' @
            ''). Only the owner can activate or sign a live intent. No local activation was saved.'')
          else Inr o')"

text \<open>The wallet's network dialogue: a reply or an error with its code and message.\<close>

record wallet_error =
  err_code :: "int option"
  err_message :: string

record chain_dialogue =
  first_chain :: "wallet_error + string"
  switch_reply :: "wallet_error + unit"
  add_reply :: "wallet_error + unit"
  second_chain :: "wallet_error + string"

definition unknown_chain :: "wallet_error \<Rightarrow> bool" where
  "unknown_chain e \<longleftrightarrow> err_code e = Some 4902 \<or> err_code e = Some (- 32603) \<or>
     str_includes (to_lower (err_message e)) ''unrecognized chain''"

text \<open>The chain id it leaves in the state (\<open>None\<close>: as before), and an error or success.\<close>

definition ensureChain :: "bool \<Rightarrow> chain_dialogue \<Rightarrow> int option option \<times> (string + unit)" where
  "ensureChain hasWallet d =
     (if \<not> hasWallet then (None, Inl ''No injected wallet'')
      else case first_chain d of
        Inl e \<Rightarrow> (None, Inl (err_message e))
      | Inr h \<Rightarrow>
          if parse_hex h = Some (int CHAIN_ID) then (Some (parse_hex h), Inr ())
          else
            let switched = (case switch_reply d of
                  Inr _ \<Rightarrow> Inr ()
                | Inl e \<Rightarrow>
                    if unknown_chain e
                    then (case add_reply d of Inl e' \<Rightarrow> Inl (err_message e') | Inr _ \<Rightarrow> Inr ())
                    else Inl (''Switch wallet network to Robinhood Chain (ETH, chainId 4663). '' @ err_message e))
            in case switched of
                 Inl e \<Rightarrow> (Some (parse_hex h), Inl e)
               | Inr _ \<Rightarrow>
                   (case second_chain d of
                      Inl e \<Rightarrow> (Some (parse_hex h), Inl (err_message e))
                    | Inr h2 \<Rightarrow>
                        if parse_hex h2 = Some (int CHAIN_ID) then (Some (parse_hex h2), Inr ())
                        else (Some (parse_hex h2),
                          Inl ''Still not on Robinhood Chain. In MetaMask/Rabby choose Robinhood Chain (4663) with native ETH, then retry Activate.'')))"

lemma ensureChain_ok: "ensureChain hasWallet d = (c, Inr ()) \<Longrightarrow> c = Some (Some (int CHAIN_ID)) \<and> hasWallet"
  by (auto simp: ensureChain_def Let_def split: if_splits sum.splits)

lemma owner_retry_ok: "ownerOfWithRetry call i = \<lparr> sc_id = i, sc_own = ownerOf (call 0) i, sc_ok = True \<rparr>"
  by (simp add: ownerOfWithRetry_def owner_attempt_def eval_nat_numeral)

section \<open>The fee is compared as a number\<close>

lemma digs_undigs:
  assumes "2 \<le> b" "list_all (\<lambda>d. d < b) (d # ds)" "d \<noteq> 0"
  shows "digs b (undigs b (d # ds)) = d # ds"
  using assms(2,3)
proof (induction ds rule: rev_induct)
  case Nil
  then show ?case by (simp add: undigs_def digs.simps [of b d])
next
  case (snoc x xs)
  have x: "x < b" using snoc.prems(1) by simp
  have u: "undigs b (d # xs @ [x]) = b * undigs b (d # xs) + x"
    using undigs_snoc [of b "d # xs" x] by simp
  have "undigs b (d # xs) \<noteq> 0"
  proof
    assume "undigs b (d # xs) = 0"
    then have "d # xs = digs b 0" using snoc by simp
    then show False using snoc.prems(2) assms(1) by (simp add: digs.simps [of b 0])
  qed
  then have "b \<le> b * undigs b (d # xs)" by (cases "undigs b (d # xs)") auto
  then have "\<not> undigs b (d # xs @ [x]) < b" using u by linarith
  then have "digs b (undigs b (d # xs @ [x])) = digs b (undigs b (d # xs)) @ [x]"
    using assms(1) x by (subst digs.simps) (simp add: u)
  then show ?case using snoc by simp
qed

definition hex_lower :: "char \<Rightarrow> bool" where "hex_lower c \<longleftrightarrow> is_digit c \<or> in_range 97 102 c"

lemma digit_char_val: "hex_lower c \<Longrightarrow> digit_char (digit_val c) = c \<and> digit_val c < 16"
  by (cases "is_digit c") (auto simp: hex_lower_def digit_char_def digit_val_def char_class_defs)

lemma hex_unhex:
  assumes "list_all hex_lower s" "s \<noteq> []" "hd s \<noteq> CHR ''0''"
  shows "hex (unradix 16 s) = s"
proof -
  obtain c s' where s: "s = c # s'" using assms(2) by (cases s) auto
  have dv: "map digit_char (map digit_val s) = s"
    using assms(1) by (induction s) (auto simp: digit_char_val)
  have "list_all (\<lambda>d. d < 16) (map digit_val s)"
    using assms(1) by (auto simp: list_all_iff digit_char_val)
  moreover have "digit_val c \<noteq> 0"
  proof
    assume "digit_val c = 0"
    then have "digit_char 0 = c" using assms(1) digit_char_val [of c] by (simp add: s)
    with assms(3) show False by (simp add: s)
  qed
  ultimately have "digs 16 (undigs 16 (map digit_val s)) = map digit_val s"
    unfolding s by (simp only: list.map) (rule digs_undigs; simp)
  then show ?thesis using dv by (simp add: unradix_def radix_def)
qed

lemma unradix_leading: "unradix b (dropWhile (\<lambda>c. c = CHR ''0'') s) = unradix b s"
proof -
  have "s = replicate (length (takeWhile (\<lambda>c. c = CHR ''0'') s)) (CHR ''0'') @ dropWhile (\<lambda>c. c = CHR ''0'') s"
    by (induction s) auto
  then have "unradix b s = undigs b (replicate (length (takeWhile (\<lambda>c. c = CHR ''0'') s)) 0 @
      map digit_val (dropWhile (\<lambda>c. c = CHR ''0'') s))"
    unfolding unradix_def by (metis digit_val_0 map_append map_replicate)
  then show ?thesis by (simp add: undigs_replicate_0 unradix_def)
qed

text \<open>A quantity, as the chain sends it, normalises to the plain form of its value.\<close>

lemma to_lower_hex_lower: "list_all hex_lower s \<Longrightarrow> to_lower s = s"
  by (induction s) (auto simp: to_lower_def lower_char_def hex_lower_def char_class_defs)

lemma normalizeWei_value:
  assumes "list_all hex_lower s"
  shows "normalizeWei (Some (''0x'' @ s)) = ''0x'' @ hex (unradix 16 s)"
proof -
  let ?r = "dropWhile (\<lambda>c. c = CHR ''0'') s"
  have low: "to_lower (''0x'' @ s) = ''0x'' @ s"
    using to_lower_hex_lower [OF assms] by (simp add: to_lower_def lower_char_def char_class_defs)
  have "or_str ?r ''0'' = hex (unradix 16 ?r)"
  proof (cases "?r = []")
    case True
    have "hex (unradix 16 []) = ''0''" by (simp add: radix_def unradix_def digs.simps [of 16 0])
    then show ?thesis unfolding True by (simp add: or_str_def)
  next
    case False
    then have "hd ?r \<noteq> CHR ''0''" by (rule hd_dropWhile)
    moreover have "list_all hex_lower ?r" using assms by (auto simp: list_all_iff dest: set_dropWhileD)
    ultimately have "hex (unradix 16 ?r) = ?r" using False by (intro hex_unhex)
    then show ?thesis using False by (simp only: or_str_def if_False)
  qed
  then show ?thesis by (simp add: normalizeWei_def low [simplified] Let_def unradix_leading)
qed

lemma FEE_value: "normalizeWei (Some FEE_WEI) = ''0x'' @ hex 1000000000000000"
proof -
  have "FEE_WEI = ''0x'' @ ''38d7ea4c68000''" by (simp add: FEE_WEI_def)
  moreover have "list_all hex_lower ''38d7ea4c68000''" by code_simp
  moreover have "unradix 16 ''38d7ea4c68000'' = 1000000000000000" by code_simp
  ultimately show ?thesis using normalizeWei_value [of "''38d7ea4c68000''"] by simp
qed

text \<open>
  Property C7:  A payment counts exactly when its transaction succeeded, went from the
  expected wallet to the fee recipient, carried no calldata or the token's own, and its
  value is 10^15 wei (0.001 ETH) as a number, however many leading zeros it is written with.
\<close>

theorem payment_verified_iff:
  assumes "list_all hex_lower v"
  shows "verifyActivationPayment (Some r) (Some \<lparr> tx_from = f, tx_to = t, tx_value = Some (''0x'' @ v),
      tx_input = Some inp, tx_data = d \<rparr>) (Some payer) i = Inr True \<longleftrightarrow>
    to_lower (opt_text (status r)) = ''0x1'' \<and> sameAddr f (Some payer) \<and> sameAddr t (Some FEE_RECIPIENT) \<and>
    unradix 16 v = 1000000000000000 \<and>
    (let input = to_lower (or_opt (Some inp) (or_opt d ''0x'')) in input \<in> {[], ''0x''} \<or> activationDataMatches input i)"
proof -
  have "normalizeWei (Some (''0x'' @ v)) = normalizeWei (Some FEE_WEI) \<longleftrightarrow> unradix 16 v = 1000000000000000"
    unfolding normalizeWei_value [OF assms] FEE_value by simp
  then show ?thesis by (auto simp: verifyActivationPayment_def Let_def simp del: append.simps)
qed

theorem payment_verified_iff_witness:
  "verifyActivationPayment (Some \<lparr> status = Some ''0x1'' \<rparr>)
     (Some \<lparr> tx_from = Some ''0xAb'', tx_to = Some FEE_RECIPIENT, tx_value = Some (''0x'' @ ''0038d7ea4c68000''),
        tx_input = Some ''0x'', tx_data = None \<rparr>) (Some ''0xab'') 7 = Inr True"
proof (subst payment_verified_iff)
  show "list_all hex_lower ''0038d7ea4c68000''" by code_simp
qed (unfold FEE_RECIPIENT_def, code_simp)

end
