(* ===== verification/Activation.thy ===== *)
theory Activation
  imports Broker_Rules Json "HOL-Library.Char_ord" "HOL-Library.List_Lexorder"
begin

text \<open>
  The activation of a broker in site/brokers/assets/brokers.js as a state machine.  The
  handlers are asynchronous: between two awaits anything else may run, the user may switch
  accounts or leave the page.  A handler waiting for a reply is a \<open>job\<close>; \<open>resume\<close> runs it from
  one await to the next on the state it finds then.  The four awaits of the network dialogue,
  between which nothing is read, count as one.  The trace records what the handlers learnt
  and did; it is not part of the page.
\<close>

section \<open>State\<close>

record activation =
  a_address :: "string option"
  a_id :: nat
  a_hash :: string
  a_confirmed :: bool
  a_confirmedAt :: "string option"
  a_feeEth :: string
  a_feeWei :: string
  a_recipient :: string
  a_data :: string
  a_chainId :: "int option"
  a_contract :: string
  a_ownerVerified :: bool
  a_recovered :: bool
  a_ts :: string

text \<open>
  Local storage: activation records under their keys, any other value elsewhere.
\<close>

datatype stored = SAct activation | SVal json

type_synonym store = "(string \<times> stored) list"

definition read_act :: "store \<Rightarrow> string \<Rightarrow> activation option" where
  "read_act st k = (case map_of st k of Some (SAct r) \<Rightarrow> Some r | _ \<Rightarrow> None)"

datatype job =
    ActConnect
  | ActChain
  | ActOwner nat string
  | ActAccounts nat string
  | ActSend nat string
  | ActReceipt nat string activation
  | ActVerify nat string activation
  | Refresh nat activation
  | RecConnect string "string option"
  | RecChain string "string option"
  | RecOwner string nat
  | RecVerify string nat string

datatype event =
    Switched "string option"
  | OnChain
  | OwnerSeen nat "string option" "string option"
  | Approved nat string
  | Pay nat string string string string
  | Verified string "string option" nat
  | Unverified string "string option" nat
  | Confirmed string activation

record world =
  w_address :: "string option"
  w_chain :: "int option"
  w_id :: "nat option"
  w_minted :: "nat option"
  w_store :: store
  w_jobs :: "job list"
  w_trace :: "event list"

definition log_ev :: "event \<Rightarrow> world \<Rightarrow> world" where "log_ev e w = w\<lparr> w_trace := e # w_trace w \<rparr>"
definition add_job :: "job \<Rightarrow> world \<Rightarrow> world" where "add_job j w = w\<lparr> w_jobs := w_jobs w @ [j] \<rparr>"
definition writeJSON :: "string \<Rightarrow> stored \<Rightarrow> world \<Rightarrow> world" where
  "writeJSON k v w = w\<lparr> w_store := AList.update k v (w_store w) \<rparr>"

section \<open>Records\<close>

definition activationRecordIsConfirmed :: "activation option \<Rightarrow> bool" where
  "activationRecordIsConfirmed rec =
     (case rec of
        None \<Rightarrow> False
      | Some r \<Rightarrow> a_id r \<noteq> 0 \<and> a_hash r \<noteq> [] \<and> a_confirmed r \<and>
          sameAddr (Some (a_recipient r)) (Some FEE_RECIPIENT) \<and>
          normalizeWei (Some (a_feeWei r)) = normalizeWei (Some FEE_WEI))"

definition isActivated :: "string option \<Rightarrow> store \<Rightarrow> nat \<Rightarrow> bool" where
  "isActivated address st i \<longleftrightarrow> address \<noteq> None \<and>
     activationRecordIsConfirmed (read_act st (storageKey address ''activation'' i))"

definition uses_hash :: "string \<Rightarrow> nat \<Rightarrow> string \<times> stored \<Rightarrow> bool" where
  "uses_hash want exceptId kv =
     (case kv of (k, v) \<Rightarrow> starts_with ''crypto-brokers:activation:'' k \<and>
        (case v of
           SAct r \<Rightarrow> a_hash r \<noteq> [] \<and> a_confirmed r \<and> to_lower (a_hash r) = want \<and> a_id r \<noteq> exceptId
         | SVal _ \<Rightarrow> False))"

definition txHashAlreadyUsed :: "store \<Rightarrow> string \<Rightarrow> nat \<Rightarrow> bool" where
  "txHashAlreadyUsed st txHash exceptId \<longleftrightarrow>
     to_lower txHash \<noteq> [] \<and> list_ex (uses_hash (to_lower txHash) exceptId) st"

definition listActivations :: "string option \<Rightarrow> store \<Rightarrow> activation list" where
  "listActivations address st =
     (case address of
        None \<Rightarrow> []
      | Some a \<Rightarrow>
          if a = [] then []
          else let prefix = ''crypto-brokers:activation:'' @ to_lower a @ '':'';
                   out = concat (map (\<lambda>(k, _). if starts_with prefix k
                       then (case read_act st k of
                               Some r \<Rightarrow> if activationRecordIsConfirmed (Some r) then [r] else []
                             | None \<Rightarrow> [])
                       else []) st)
               in rev (sort_key a_ts (rev out)))"

definition activation_record ::
  "string option \<Rightarrow> nat \<Rightarrow> string \<Rightarrow> string \<Rightarrow> int option \<Rightarrow> bool \<Rightarrow> string \<Rightarrow> activation"
where
  "activation_record address i h payload_data chain recovered now =
     \<lparr> a_address = address, a_id = i, a_hash = h,
       a_confirmed = recovered, a_confirmedAt = (if recovered then Some now else None),
       a_feeEth = FEE_ETH, a_feeWei = FEE_WEI, a_recipient = FEE_RECIPIENT, a_data = payload_data,
       a_chainId = chain, a_contract = CONTRACT, a_ownerVerified = True, a_recovered = recovered, a_ts = now \<rparr>"

definition confirm_record :: "string \<Rightarrow> activation \<Rightarrow> activation" where
  "confirm_record now r = r\<lparr> a_confirmed := True, a_confirmedAt := Some now \<rparr>"

section \<open>Handlers\<close>

text \<open>What the wallet, the chain, the user and the clock may answer.\<close>

record answers =
  has_wallet :: bool
  accounts :: "string option option"
  dialogue :: chain_dialogue
  owner :: "string option"
  approves :: bool
  sent_hash :: "string option"
  requests_ok :: bool
  got_receipt :: "receipt option"
  got_tx :: "chain_tx option"
  now :: string

definition refreshActivation :: "world \<Rightarrow> world" where
  "refreshActivation w =
     (case (w_id w, w_address w) of
        (Some i, Some a) \<Rightarrow>
          (case read_act (w_store w) (storageKey (Some a) ''activation'' i) of
             None \<Rightarrow> w
           | Some r \<Rightarrow>
               if activationRecordIsConfirmed (Some r) then w
               else if a_hash r \<noteq> [] then add_job (Refresh i r) w
               else w)
      | _ \<Rightarrow> w)"

definition first_account :: "string option \<Rightarrow> string option" where
  "first_account a = (case a of Some s \<Rightarrow> if s = [] then None else Some s | None \<Rightarrow> None)"

text \<open>\<open>ensureChain\<close> on the state; the flag says that it did not throw.\<close>

definition ensure_chain :: "answers \<Rightarrow> world \<Rightarrow> world \<times> bool" where
  "ensure_chain ans w =
     (case ensureChain (has_wallet ans) (dialogue ans) of
        (c, r) \<Rightarrow>
          let w' = (case c of None \<Rightarrow> w | Some x \<Rightarrow> w\<lparr> w_chain := x \<rparr>) in
          (case r of Inl _ \<Rightarrow> (w', False) | Inr _ \<Rightarrow> (log_ev OnChain w', True)))"

text \<open>An account replaced by another one leaves a mark on the trace.\<close>

definition set_address :: "string option \<Rightarrow> world \<Rightarrow> world" where
  "set_address a w =
     (if w_address w = None \<or> w_address w = a then w else log_ev (Switched a) w)\<lparr> w_address := a \<rparr>"

definition connectWallet :: "answers \<Rightarrow> world \<Rightarrow> world \<times> bool" where
  "connectWallet ans w =
     (if \<not> has_wallet ans then (w, True)
      else case accounts ans of
        None \<Rightarrow> (w, False)
      | Some acc \<Rightarrow>
          (case ensure_chain ans (set_address (first_account acc) w) of
             (w', ok) \<Rightarrow> if ok then (refreshActivation w', True) else (w', False)))"

definition start_after_connect :: "job \<Rightarrow> answers \<Rightarrow> world \<Rightarrow> world" where
  "start_after_connect j ans w =
     (case connectWallet ans w of (w', ok) \<Rightarrow> if ok \<and> w_address w' \<noteq> None then add_job j w' else w')"

definition act_chain :: "answers \<Rightarrow> world \<Rightarrow> world" where
  "act_chain ans w =
     (case ensure_chain ans w of (w', ok) \<Rightarrow>
        if \<not> ok then w'
        else case (w_id w', w_address w') of
               (Some i, Some a) \<Rightarrow> add_job (ActOwner i a) w'
             | _ \<Rightarrow> w')"

definition act_owner :: "nat \<Rightarrow> string \<Rightarrow> answers \<Rightarrow> world \<Rightarrow> world" where
  "act_owner i a ans w0 =
     (let w = log_ev (OwnerSeen i (owner ans) (w_address w0)) w0 in
      case requireOwner (w_minted w) i (owner ans) (w_address w) of
        Inl _ \<Rightarrow> w
      | Inr _ \<Rightarrow>
          if isActivated (w_address w) (w_store w) i then refreshActivation w
          else if approves ans then add_job (ActAccounts i a) (log_ev (Approved i a) w)
          else w)"

definition act_accounts :: "nat \<Rightarrow> string \<Rightarrow> answers \<Rightarrow> world \<Rightarrow> world" where
  "act_accounts i a ans w =
     (case accounts ans of
        None \<Rightarrow> w
      | Some acc \<Rightarrow>
          if \<not> sameAddr acc (Some a) then w
          else add_job (ActSend i a) (log_ev (Pay i a FEE_RECIPIENT FEE_WEI CHAIN_HEX) w))"

definition act_send :: "nat \<Rightarrow> string \<Rightarrow> answers \<Rightarrow> world \<Rightarrow> world" where
  "act_send i a ans w =
     (case sent_hash ans of
        None \<Rightarrow> w
      | Some h \<Rightarrow>
          let r = activation_record (Some a) i h ''0x'' (w_chain w) False (now ans) in
          add_job (ActReceipt i a r)
            (refreshActivation (writeJSON (activationStorageKey (Some a) i) (SAct r) w)))"

definition act_receipt :: "nat \<Rightarrow> string \<Rightarrow> activation \<Rightarrow> answers \<Rightarrow> world \<Rightarrow> world" where
  "act_receipt i a r ans w = (case got_receipt ans of None \<Rightarrow> w | Some _ \<Rightarrow> add_job (ActVerify i a r) w)"

text \<open>The result of the verification is only looked at for a throw.\<close>

definition act_verify :: "nat \<Rightarrow> string \<Rightarrow> activation \<Rightarrow> answers \<Rightarrow> world \<Rightarrow> world" where
  "act_verify i a r ans w0 =
     (if \<not> requests_ok ans then w0
      else case verifyActivationPayment (got_receipt ans) (got_tx ans) (Some a) i of
        Inl _ \<Rightarrow> w0
      | Inr ok \<Rightarrow>
          let w = log_ev (if ok then Verified (a_hash r) (Some a) i else Unverified (a_hash r) (Some a) i) w0 in
          if txHashAlreadyUsed (w_store w) (a_hash r) i then w
          else let k = activationStorageKey (Some a) i; r' = confirm_record (now ans) r in
            refreshActivation (log_ev (Confirmed k r') (writeJSON k (SAct r') w)))"

text \<open>The promise \<open>refreshActivation\<close> leaves behind for a pending record.\<close>

definition refresh_verified :: "nat \<Rightarrow> activation \<Rightarrow> answers \<Rightarrow> world \<Rightarrow> world" where
  "refresh_verified i r ans w0 =
     (if \<not> requests_ok ans then w0
      else case verifyActivationPayment (got_receipt ans) (got_tx ans) (a_address r) (a_id r) of
        Inr True \<Rightarrow>
          let w = log_ev (Verified (a_hash r) (a_address r) (a_id r)) w0;
              k = storageKey (w_address w) ''activation'' i; r' = confirm_record (now ans) r in
          refreshActivation (log_ev (Confirmed k r') (writeJSON k (SAct r') w))
      | _ \<Rightarrow> w0)"

definition is_tx_hash :: "string \<Rightarrow> bool" where
  "is_tx_hash s \<longleftrightarrow> starts_with ''0x'' s \<and> length s = 66 \<and> list_all is_hex (drop 2 s)"

definition rec_chain :: "string \<Rightarrow> string option \<Rightarrow> answers \<Rightarrow> world \<Rightarrow> world" where
  "rec_chain rawHash rawId ans w =
     (case ensure_chain ans w of (w', ok) \<Rightarrow>
        if \<not> ok then w'
        else let h = trim rawHash; i = (case rawId of Some s \<Rightarrow> parseId s | None \<Rightarrow> w_id w') in
          if \<not> is_tx_hash h then w'
          else case (i, w_address w') of
                 (Some i, Some _) \<Rightarrow> add_job (RecOwner h i) w'
               | _ \<Rightarrow> w')"

definition rec_owner :: "string \<Rightarrow> nat \<Rightarrow> answers \<Rightarrow> world \<Rightarrow> world" where
  "rec_owner h i ans w0 =
     (let w = log_ev (OwnerSeen i (owner ans) (w_address w0)) w0 in
      case requireOwner (w_minted w) i (owner ans) (w_address w) of
        Inl _ \<Rightarrow> w
      | Inr _ \<Rightarrow> (case w_address w of Some a \<Rightarrow> add_job (RecVerify h i a) w | None \<Rightarrow> w))"

definition rec_verify :: "string \<Rightarrow> nat \<Rightarrow> string \<Rightarrow> answers \<Rightarrow> world \<Rightarrow> world" where
  "rec_verify h i a ans w0 =
     (if \<not> requests_ok ans then w0
      else case verifyActivationPayment (got_receipt ans) (got_tx ans) (Some a) i of
        Inr True \<Rightarrow>
          let w = log_ev (Verified h (Some a) i) w0 in
          if txHashAlreadyUsed (w_store w) h i then w
          else let r = activation_record (w_address w) i h (activationData i) (w_chain w) True (now ans);
                   k = activationStorageKey (w_address w) i in
            refreshActivation ((log_ev (Confirmed k r) (writeJSON k (SAct r) w))\<lparr> w_id := Some i \<rparr>)
      | _ \<Rightarrow> w0)"

fun resume :: "job \<Rightarrow> answers \<Rightarrow> world \<Rightarrow> world" where
  "resume ActConnect ans w = start_after_connect ActChain ans w"
| "resume ActChain ans w = act_chain ans w"
| "resume (ActOwner i a) ans w = act_owner i a ans w"
| "resume (ActAccounts i a) ans w = act_accounts i a ans w"
| "resume (ActSend i a) ans w = act_send i a ans w"
| "resume (ActReceipt i a r) ans w = act_receipt i a r ans w"
| "resume (ActVerify i a r) ans w = act_verify i a r ans w"
| "resume (Refresh i r) ans w = refresh_verified i r ans w"
| "resume (RecConnect h s) ans w = start_after_connect (RecChain h s) ans w"
| "resume (RecChain h s) ans w = rec_chain h s ans w"
| "resume (RecOwner h i) ans w = rec_owner h i ans w"
| "resume (RecVerify h i a) ans w = rec_verify h i a ans w"

section \<open>Runs\<close>

text \<open>
  What can happen: a page load (which ends all jobs and keeps the storage), the wallet
  switching accounts or networks, moving to another broker or back to the landing page,
  the supply arriving, a write of any other part of the page, the two buttons, and a reply
  to a waiting job.
\<close>

datatype action =
    Reload "string option" "int option"
  | AccountsChanged "string option"
  | ChainChanged "int option"
  | Open "nat option"
  | SetId "nat option"
  | SupplyRead "nat option"
  | OtherWrite string stored
  | ClickActivate
  | ClickRecover string "string option"
  | Reply nat answers

fun is_activation_job :: "job \<Rightarrow> bool" where
  "is_activation_job (Refresh _ _) = False"
| "is_activation_job (RecConnect _ _) = False"
| "is_activation_job (RecChain _ _) = False"
| "is_activation_job (RecOwner _ _) = False"
| "is_activation_job (RecVerify _ _ _) = False"
| "is_activation_job _ = True"

definition valid_id :: "nat option \<Rightarrow> bool" where
  "valid_id i \<longleftrightarrow> (case i of None \<Rightarrow> True | Some n \<Rightarrow> 1 \<le> n \<and> n \<le> COLLECTION_SIZE)"

text \<open>
  Ids come from \<open>parseId\<close>; nothing but the activation handlers writes under activation keys;
  the button is disabled while an activation runs.
\<close>

fun allowed :: "action \<Rightarrow> world \<Rightarrow> bool" where
  "allowed (Open i) w = valid_id i"
| "allowed (SetId i) w = valid_id i"
| "allowed (OtherWrite k v) w = (\<not> starts_with ''crypto-brokers:activation:'' k \<and> (case v of SVal _ \<Rightarrow> True | SAct _ \<Rightarrow> False))"
| "allowed ClickActivate w = (\<not> list_ex is_activation_job (w_jobs w))"
| "allowed (Reply n ans) w = (n < length (w_jobs w))"
| "allowed _ w = True"

fun perform :: "action \<Rightarrow> world \<Rightarrow> world" where
  "perform (Reload a c) w = w\<lparr> w_jobs := [], w_id := None, w_address := first_account a, w_chain := c \<rparr>"
| "perform (AccountsChanged a) w = refreshActivation (set_address (first_account a) w)"
| "perform (ChainChanged c) w = w\<lparr> w_chain := c \<rparr>"
| "perform (Open i) w = refreshActivation (w\<lparr> w_id := i \<rparr>)"
| "perform (SetId i) w = w\<lparr> w_id := i \<rparr>"
| "perform (SupplyRead n) w = w\<lparr> w_minted := n \<rparr>"
| "perform (OtherWrite k v) w = writeJSON k v w"
| "perform ClickActivate w =
     (case w_id w of
        None \<Rightarrow> w
      | Some _ \<Rightarrow> add_job (if w_address w = None then ActConnect else ActChain) w)"
| "perform (ClickRecover h s) w =
     add_job (if w_address w = None then RecConnect h s else RecChain h s) w"
| "perform (Reply n ans) w =
     resume (w_jobs w ! n) ans (w\<lparr> w_jobs := take n (w_jobs w) @ drop (Suc n) (w_jobs w) \<rparr>)"

text \<open>A first visit: no activation records, nothing running.\<close>

definition fresh :: "world \<Rightarrow> bool" where
  "fresh w \<longleftrightarrow> w_jobs w = [] \<and> w_trace w = [] \<and> w_id w = None \<and>
     list_all (\<lambda>(k, v). case v of SAct _ \<Rightarrow> False | SVal _ \<Rightarrow> True) (w_store w) \<and>
     distinct (map fst (w_store w))"

inductive reach :: "world \<Rightarrow> bool" where
  fresh: "fresh w \<Longrightarrow> reach w"
| act: "reach w \<Longrightarrow> allowed x w \<Longrightarrow> reach (perform x w)"


section \<open>Storage\<close>

text \<open>What the page relies on of local storage, and what follows for a predicate on entries.\<close>

locale keyed_store =
  fixes get :: "'s \<Rightarrow> 'k \<Rightarrow> 'v option"
    and put :: "'k \<Rightarrow> 'v \<Rightarrow> 's \<Rightarrow> 's"
  assumes get_put: "get (put k v s) k' = (if k' = k then Some v else get s k')"
begin

definition holds :: "('k \<Rightarrow> 'v \<Rightarrow> bool) \<Rightarrow> 's \<Rightarrow> bool" where
  "holds P s \<longleftrightarrow> (\<forall>k v. get s k = Some v \<longrightarrow> P k v)"

lemma holds_get: "holds P s \<Longrightarrow> get s k = Some v \<Longrightarrow> P k v"
  by (simp add: holds_def)

lemma holds_put: "holds P s \<Longrightarrow> P k v \<Longrightarrow> holds P (put k v s)"
  by (simp add: holds_def get_put)

lemma holds_mono: "holds P s \<Longrightarrow> (\<And>k v. P k v \<Longrightarrow> Q k v) \<Longrightarrow> holds Q s"
  by (auto simp: holds_def)

end

interpretation local_storage: keyed_store map_of AList.update
  by unfold_locales (auto simp: update_conv)

section \<open>The invariant\<close>

definition id_ok :: "nat \<Rightarrow> bool" where "id_ok i \<longleftrightarrow> 1 \<le> i \<and> i \<le> COLLECTION_SIZE"

definition fee_fields :: "activation \<Rightarrow> bool" where
  "fee_fields r \<longleftrightarrow> a_feeWei r = FEE_WEI \<and> a_recipient r = FEE_RECIPIENT \<and> a_contract r = CONTRACT \<and> id_ok (a_id r)"

text \<open>Where a confirmation comes from: a verified payment, or a verification that found nothing.\<close>

definition settled :: "event list \<Rightarrow> activation \<Rightarrow> bool" where
  "settled tr r \<longleftrightarrow> (\<exists>p. Verified (a_hash r) p (a_id r) \<in> set tr \<or> Unverified (a_hash r) p (a_id r) \<in> set tr)"

definition entry_ok :: "event list \<Rightarrow> string \<Rightarrow> stored \<Rightarrow> bool" where
  "entry_ok tr k v \<longleftrightarrow>
     (case v of
        SVal _ \<Rightarrow> True
      | SAct r \<Rightarrow> fee_fields r \<and> (\<exists>x. k = activationStorageKey x (a_id r)) \<and> (a_confirmed r \<longrightarrow> settled tr r))"

definition switched :: "event list \<Rightarrow> bool" where
  "switched tr \<longleftrightarrow> (\<exists>x. Switched x \<in> set tr)"

definition owner_seen :: "event list \<Rightarrow> nat \<Rightarrow> string \<Rightarrow> bool" where
  "owner_seen tr i a \<longleftrightarrow>
     (\<exists>own cur. OwnerSeen i own cur \<in> set tr \<and> sameAddr own cur \<and> (cur = Some a \<or> switched tr))"

definition cleared :: "event list \<Rightarrow> nat \<Rightarrow> string \<Rightarrow> bool" where
  "cleared tr i a \<longleftrightarrow> id_ok i \<and> OnChain \<in> set tr \<and> owner_seen tr i a \<and> Approved i a \<in> set tr"

fun job_ok :: "event list \<Rightarrow> string option \<Rightarrow> job \<Rightarrow> bool" where
  "job_ok tr ad (ActOwner i a) \<longleftrightarrow> id_ok i \<and> OnChain \<in> set tr \<and> (ad = Some a \<or> switched tr)"
| "job_ok tr ad (ActAccounts i a) \<longleftrightarrow> cleared tr i a"
| "job_ok tr ad (ActSend i a) \<longleftrightarrow> cleared tr i a"
| "job_ok tr ad (ActReceipt i a r) \<longleftrightarrow> fee_fields r \<and> a_id r = i"
| "job_ok tr ad (ActVerify i a r) \<longleftrightarrow> fee_fields r \<and> a_id r = i"
| "job_ok tr ad (Refresh i r) \<longleftrightarrow> fee_fields r \<and> a_id r = i"
| "job_ok tr ad (RecOwner h i) \<longleftrightarrow> id_ok i"
| "job_ok tr ad (RecVerify h i a) \<longleftrightarrow> id_ok i"
| "job_ok tr ad _ \<longleftrightarrow> True"

fun pays_ok :: "event list \<Rightarrow> bool" where
  "pays_ok [] \<longleftrightarrow> True"
| "pays_ok (Pay i a to v c # tr) \<longleftrightarrow>
     to = FEE_RECIPIENT \<and> v = FEE_WEI \<and> c = CHAIN_HEX \<and> cleared tr i a \<and> pays_ok tr"
| "pays_ok (_ # tr) \<longleftrightarrow> pays_ok tr"

definition inv :: "world \<Rightarrow> bool" where
  "inv w \<longleftrightarrow> local_storage.holds (entry_ok (w_trace w)) (w_store w) \<and>
     list_all (job_ok (w_trace w) (w_address w)) (w_jobs w) \<and> valid_id (w_id w) \<and> pays_ok (w_trace w)"

lemma entry_ok_mono: "entry_ok tr k v \<Longrightarrow> entry_ok (e # tr) k v"
  by (auto simp: entry_ok_def settled_def split: stored.splits)

lemma switched_mono: "switched tr \<Longrightarrow> switched (e # tr)"
  by (auto simp: switched_def)

lemma cleared_mono: "cleared tr i a \<Longrightarrow> cleared (e # tr) i a"
  by (auto simp: cleared_def owner_seen_def dest: switched_mono)

lemma job_ok_mono: "job_ok tr ad j \<Longrightarrow> job_ok (e # tr) ad j"
  by (cases j) (auto simp: cleared_mono switched_mono)

fun quiet :: "event \<Rightarrow> bool" where
  "quiet (Pay _ _ _ _ _) = False"
| "quiet _ = True"

lemma pays_ok_quiet: "quiet e \<Longrightarrow> pays_ok (e # tr) = pays_ok tr"
  by (cases e) auto

lemma inv_log: "inv w \<Longrightarrow> quiet e \<Longrightarrow> inv (log_ev e w)"
  by (auto simp: inv_def log_ev_def pays_ok_quiet list_all_iff job_ok_mono
      intro: local_storage.holds_mono entry_ok_mono)

lemma inv_pay: "inv w \<Longrightarrow> cleared (w_trace w) i a \<Longrightarrow> inv (log_ev (Pay i a FEE_RECIPIENT FEE_WEI CHAIN_HEX) w)"
  by (auto simp: inv_def log_ev_def list_all_iff job_ok_mono intro: local_storage.holds_mono entry_ok_mono)

lemma inv_add_job: "inv w \<Longrightarrow> job_ok (w_trace w) (w_address w) j \<Longrightarrow> inv (add_job j w)"
  by (simp add: inv_def add_job_def)

lemma inv_write: "inv w \<Longrightarrow> entry_ok (w_trace w) k v \<Longrightarrow> inv (writeJSON k v w)"
  by (simp add: inv_def writeJSON_def local_storage.holds_put)

lemma inv_updates [simp]:
  "inv (w\<lparr> w_chain := c \<rparr>) = inv w" "inv (w\<lparr> w_minted := n \<rparr>) = inv w"
  "valid_id i \<Longrightarrow> inv w \<Longrightarrow> inv (w\<lparr> w_id := i \<rparr>)"
  by (simp_all add: inv_def)

lemma sel_simps [simp]:
  "w_trace (add_job j w) = w_trace w" "w_trace (writeJSON k v w) = w_trace w" "w_trace (log_ev e w) = e # w_trace w"
  "w_id (add_job j w) = w_id w" "w_id (writeJSON k v w) = w_id w" "w_id (log_ev e w) = w_id w"
  "w_address (add_job j w) = w_address w" "w_address (writeJSON k v w) = w_address w" "w_address (log_ev e w) = w_address w"
  "w_store (add_job j w) = w_store w" "w_store (log_ev e w) = w_store w"
  by (simp_all add: add_job_def writeJSON_def log_ev_def)

lemma job_ok_address: "job_ok tr ad j \<Longrightarrow> ad = None \<or> ad = ad' \<or> switched tr \<Longrightarrow> job_ok tr ad' j"
  by (cases j) auto

lemma jobs_ok_address:
  "list_all (job_ok tr ad) js \<Longrightarrow> ad = None \<or> ad = ad' \<or> switched tr \<Longrightarrow> list_all (job_ok tr ad') js"
  unfolding list_all_iff using job_ok_address by blast

lemma inv_set_address: "inv w \<Longrightarrow> inv (set_address a w)"
proof -
  assume w: "inv w"
  let ?w = "if w_address w = None \<or> w_address w = a then w else log_ev (Switched a) w"
  have "inv ?w" using w by (simp add: inv_log)
  moreover have "w_address ?w = None \<or> w_address ?w = a \<or> switched (w_trace ?w)"
    by (auto simp: switched_def)
  ultimately have "inv (?w\<lparr> w_address := a \<rparr>)"
    using jobs_ok_address [of "w_trace ?w" "w_address ?w" "w_jobs ?w" a] by (simp add: inv_def)
  then show ?thesis by (simp add: set_address_def)
qed

text \<open>The id can be read off a key.\<close>

lemma key_id:
  assumes "storageKey x kind i = activationStorageKey y j"
  shows "i = j"
proof -
  let ?t = "\<lambda>x. to_lower (case x of Some a \<Rightarrow> or_str a ''unsigned'' | None \<Rightarrow> ''unsigned'')"
  have "rev (dec i) @ CHR '':'' # rev (''crypto-brokers:'' @ kind @ '':'' @ ?t x) =
      rev (dec j) @ CHR '':'' # rev (''crypto-brokers:activation:'' @ ?t y)"
    using arg_cong [OF assms, of rev] by (simp add: storageKey_def activationStorageKey_def)
  moreover have "CHR '':'' \<notin> set (rev (dec n))" for n
    using dec_digits [of "CHR '':''" n] by (auto simp: char_class_defs)
  ultimately have "rev (dec i) = rev (dec j)" using split_at [of "CHR '':''"] by blast
  then show ?thesis by simp
qed

lemma activation_key: "storageKey x ''activation'' i = activationStorageKey x i"
  by (simp add: storageKey_def activationStorageKey_def)

lemma inv_refresh:
  assumes "inv w"
  shows "inv (refreshActivation w)"
proof -
  have "job_ok (w_trace w) (w_address w) (Refresh i r)"
    if "read_act (w_store w) (storageKey (Some a) ''activation'' i) = Some r" for i a r
  proof -
    from that have "map_of (w_store w) (storageKey (Some a) ''activation'' i) = Some (SAct r)"
      by (auto simp: read_act_def split: option.splits stored.splits)
    then have "entry_ok (w_trace w) (storageKey (Some a) ''activation'' i) (SAct r)"
      using assms local_storage.holds_get by (auto simp: inv_def)
    then show ?thesis by (auto simp: entry_ok_def dest: key_id)
  qed
  then show ?thesis using assms
    by (auto simp: refreshActivation_def inv_add_job split: option.splits)
qed

lemma ensure_chain_inv:
  assumes "ensure_chain ans w = (w', ok)" "inv w"
  shows "inv w'" "w_id w' = w_id w" "w_address w' = w_address w" "ok \<Longrightarrow> OnChain \<in> set (w_trace w')"
  using assms by (auto simp: ensure_chain_def Let_def inv_log split: prod.splits option.splits sum.splits)

lemma connectWallet_inv: "connectWallet ans w = (w', ok) \<Longrightarrow> inv w \<Longrightarrow> inv w'"
  by (auto simp: connectWallet_def inv_refresh inv_set_address split: if_splits option.splits prod.splits dest: ensure_chain_inv(1))

lemma start_after_connect_inv:
  "inv w \<Longrightarrow> (\<And>tr ad. job_ok tr ad j) \<Longrightarrow> inv (start_after_connect j ans w)"
  by (auto simp: start_after_connect_def intro: inv_add_job dest: connectWallet_inv split: prod.splits)

lemma inv_id: "inv w \<Longrightarrow> w_id w = Some i \<Longrightarrow> id_ok i"
  by (simp add: inv_def valid_id_def id_ok_def)

lemma act_chain_inv:
  assumes "inv w"
  shows "inv (act_chain ans w)"
proof -
  obtain w' ok where e: "ensure_chain ans w = (w', ok)" by (cases "ensure_chain ans w")
  note [simp] = ensure_chain_inv [OF e assms]
  show ?thesis
    using inv_id [OF ensure_chain_inv(1) [OF e assms]]
    by (auto simp: act_chain_def e inv_add_job split: option.split)
qed

lemma act_owner_inv:
  assumes "inv w" "job_ok (w_trace w) (w_address w) (ActOwner i a)"
  shows "inv (act_owner i a ans w)"
proof -
  let ?w = "log_ev (OwnerSeen i (owner ans) (w_address w)) w"
  have w: "inv ?w" using assms(1) by (rule inv_log) simp
  show ?thesis
  proof (cases "sameAddr (owner ans) (w_address w)")
    case True
    then have "cleared (w_trace (log_ev (Approved i a) ?w)) i a"
      using assms(2) by (auto simp: cleared_def owner_seen_def switched_def)
    moreover have "inv (log_ev (Approved i a) ?w)" using w by (rule inv_log) simp
    ultimately have "inv (add_job (ActAccounts i a) (log_ev (Approved i a) ?w))"
      by (intro inv_add_job) simp_all
    then show ?thesis using w by (auto simp: act_owner_def Let_def inv_refresh split: sum.split)
  next
    case False
    then show ?thesis using w by (auto simp: act_owner_def Let_def requireOwner_def split: option.split)
  qed
qed

lemma act_accounts_inv:
  assumes "inv w" "job_ok (w_trace w) (w_address w) (ActAccounts i a)"
  shows "inv (act_accounts i a ans w)"
proof -
  have "inv (add_job (ActSend i a) (log_ev (Pay i a FEE_RECIPIENT FEE_WEI CHAIN_HEX) w))"
    using assms by (intro inv_add_job inv_pay) (simp_all add: cleared_mono)
  then show ?thesis using assms(1) by (simp add: act_accounts_def split: option.split)
qed

lemma act_send_inv:
  assumes "inv w" "job_ok (w_trace w) (w_address w) (ActSend i a)"
  shows "inv (act_send i a ans w)"
proof (cases "sent_hash ans")
  case (Some h)
  let ?r = "activation_record (Some a) i h ''0x'' (w_chain w) False (now ans)"
  let ?w = "refreshActivation (writeJSON (activationStorageKey (Some a) i) (SAct ?r) w)"
  have f: "fee_fields ?r" "a_id ?r = i"
    using assms(2) by (simp_all add: fee_fields_def activation_record_def cleared_def)
  then have "entry_ok (w_trace w) (activationStorageKey (Some a) i) (SAct ?r)"
    by (auto simp: entry_ok_def activation_record_def)
  then have "inv ?w" using assms(1) by (intro inv_refresh inv_write)
  then have "inv (add_job (ActReceipt i a ?r) ?w)" using f by (intro inv_add_job) simp_all
  then show ?thesis by (simp add: act_send_def Some Let_def)
qed (use assms in \<open>simp add: act_send_def\<close>)

lemma act_receipt_inv:
  "inv w \<Longrightarrow> job_ok (w_trace w) (w_address w) (ActReceipt i a r) \<Longrightarrow> inv (act_receipt i a r ans w)"
  by (simp add: act_receipt_def inv_add_job split: option.split)

text \<open>Writing a confirmed record whose verification is on the trace.\<close>

lemma inv_confirm:
  assumes "inv w" "fee_fields r" "a_confirmed r" "settled (w_trace w) r"
  shows "inv (log_ev (Confirmed k r) (writeJSON (activationStorageKey x (a_id r)) (SAct r) w))"
  using assms by (intro inv_log inv_write) (auto simp: entry_ok_def)

lemma confirm_record_sel:
  "fee_fields (confirm_record n r) = fee_fields r" "a_id (confirm_record n r) = a_id r"
  "a_hash (confirm_record n r) = a_hash r" "a_confirmed (confirm_record n r)"
  by (simp_all add: confirm_record_def fee_fields_def)

lemma act_verify_inv:
  assumes "inv w" "job_ok (w_trace w) (w_address w) (ActVerify i a r)"
  shows "inv (act_verify i a r ans w)"
proof (cases "requests_ok ans \<and> (\<exists>ok. verifyActivationPayment (got_receipt ans) (got_tx ans) (Some a) i = Inr ok)")
  case True
  then obtain ok where ok: "requests_ok ans" "verifyActivationPayment (got_receipt ans) (got_tx ans) (Some a) i = Inr ok"
    by blast
  let ?w = "log_ev (if ok then Verified (a_hash r) (Some a) i else Unverified (a_hash r) (Some a) i) w"
  have w: "inv ?w" using assms(1) by (intro inv_log) auto
  have "settled (w_trace ?w) (confirm_record (now ans) r)"
    using assms(2) by (auto simp: settled_def confirm_record_sel)
  then have "inv (log_ev (Confirmed k (confirm_record (now ans) r))
      (writeJSON (activationStorageKey (Some a) i) (SAct (confirm_record (now ans) r)) ?w))" for k
    using inv_confirm [OF w, of "confirm_record (now ans) r" k "Some a"] assms(2)
    by (simp add: confirm_record_sel)
  with w show ?thesis by (simp add: act_verify_def ok Let_def inv_refresh)
next
  case False
  with assms(1) show ?thesis by (auto simp: act_verify_def split: sum.split)
qed

lemma refresh_verified_inv:
  assumes "inv w" "job_ok (w_trace w) (w_address w) (Refresh i r)"
  shows "inv (refresh_verified i r ans w)"
proof (cases "requests_ok ans \<and> verifyActivationPayment (got_receipt ans) (got_tx ans) (a_address r) (a_id r) = Inr True")
  case True
  let ?w = "log_ev (Verified (a_hash r) (a_address r) (a_id r)) w"
  have w: "inv ?w" using assms(1) by (intro inv_log) auto
  have "settled (w_trace ?w) (confirm_record (now ans) r)"
    by (auto simp: settled_def confirm_record_sel)
  then have "inv (log_ev (Confirmed k (confirm_record (now ans) r))
      (writeJSON (activationStorageKey (w_address w) i) (SAct (confirm_record (now ans) r)) ?w))" for k
    using inv_confirm [OF w, of "confirm_record (now ans) r" k "w_address w"] assms(2)
    by (simp add: confirm_record_sel)
  with True show ?thesis by (simp add: refresh_verified_def Let_def inv_refresh activation_key)
next
  case False
  with assms(1) show ?thesis by (auto simp: refresh_verified_def split: sum.split bool.split)
qed

lemma parseId_ok: "parseId s = Some i \<Longrightarrow> id_ok i"
  by (auto simp: parseId_def id_ok_def split: option.splits if_splits)

lemma rec_chain_inv:
  assumes "inv w"
  shows "inv (rec_chain h s ans w)"
proof -
  obtain w' ok where e: "ensure_chain ans w = (w', ok)" by (cases "ensure_chain ans w")
  note w' = ensure_chain_inv(1) [OF e assms]
  have "id_ok i" if "(case s of Some t \<Rightarrow> parseId t | None \<Rightarrow> w_id w') = Some i" for i
    using that inv_id [OF w'] by (auto split: option.splits dest: parseId_ok)
  with w' show ?thesis
    by (auto simp: rec_chain_def e Let_def inv_add_job split: option.split)
qed

lemma rec_owner_inv: "inv w \<Longrightarrow> job_ok (w_trace w) (w_address w) (RecOwner h i) \<Longrightarrow> inv (rec_owner h i ans w)"
  by (auto simp: rec_owner_def Let_def inv_add_job inv_log split: sum.split option.split)

lemma rec_verify_inv:
  assumes "inv w" "job_ok (w_trace w) (w_address w) (RecVerify h i a)"
  shows "inv (rec_verify h i a ans w)"
proof (cases "requests_ok ans \<and> verifyActivationPayment (got_receipt ans) (got_tx ans) (Some a) i = Inr True")
  case True
  let ?w = "log_ev (Verified h (Some a) i) w"
  let ?r = "activation_record (w_address w) i h (activationData i) (w_chain w) True (now ans)"
  have w: "inv ?w" using assms(1) by (intro inv_log) auto
  have sel: "a_id ?r = i" "a_confirmed ?r" "fee_fields ?r"
    using assms(2) by (simp_all add: fee_fields_def activation_record_def)
  have "settled (w_trace ?w) ?r" by (auto simp: settled_def activation_record_def)
  then have "inv (log_ev (Confirmed k ?r) (writeJSON (activationStorageKey (w_address w) i) (SAct ?r) ?w))" for k
    using inv_confirm [OF w sel(3,2), of k "w_address w"] by (simp add: sel)
  moreover have "valid_id (Some i)" using assms(2) by (simp add: valid_id_def id_ok_def)
  moreover have "w_chain ?w = w_chain w" by (simp add: log_ev_def)
  ultimately show ?thesis using True w by (simp add: rec_verify_def Let_def inv_refresh)
next
  case False
  with assms(1) show ?thesis by (auto simp: rec_verify_def split: sum.split bool.split)
qed

lemma resume_inv: "inv w \<Longrightarrow> job_ok (w_trace w) (w_address w) j \<Longrightarrow> inv (resume j ans w)"
  by (cases j) (simp_all add: start_after_connect_inv act_chain_inv act_owner_inv act_accounts_inv act_send_inv
      act_receipt_inv act_verify_inv refresh_verified_inv rec_chain_inv rec_owner_inv rec_verify_inv)

lemma inv_drop_job:
  assumes "inv w" "n < length (w_jobs w)"
  shows "inv (w\<lparr> w_jobs := take n (w_jobs w) @ drop (Suc n) (w_jobs w) \<rparr>)" "job_ok (w_trace w) (w_address w) (w_jobs w ! n)"
  using assms by (auto simp: inv_def list_all_iff dest: in_set_takeD in_set_dropD)

lemma perform_inv: "inv w \<Longrightarrow> allowed x w \<Longrightarrow> inv (perform x w)"
proof (cases x)
  case (OtherWrite k v)
  assume "inv w" "allowed x w"
  then show ?thesis using OtherWrite by (auto intro!: inv_write simp: entry_ok_def split: stored.splits)
next
  case (Reply n ans)
  assume w: "inv w" and ok: "allowed x w"
  from Reply ok have n: "n < length (w_jobs w)" by simp
  show ?thesis using inv_drop_job [OF w n] Reply by (simp add: resume_inv)
next
  case (Reload a c)
  assume "inv w"
  then show ?thesis using Reload by (simp add: inv_def valid_id_def)
qed (auto simp: inv_refresh inv_set_address inv_add_job split: option.split)

lemma fresh_inv: "fresh w \<Longrightarrow> inv w"
  by (auto simp: fresh_def inv_def local_storage.holds_def entry_ok_def valid_id_def list_all_iff
      split: stored.split dest!: map_of_SomeD)

lemma reach_inv: "reach w \<Longrightarrow> inv w"
  by (induction rule: reach.induct) (auto intro: fresh_inv perform_inv)


section \<open>What a run guarantees\<close>

lemma pays_ok_suffix: "pays_ok (later @ Pay i a to v c # earlier) \<Longrightarrow>
  to = FEE_RECIPIENT \<and> v = FEE_WEI \<and> c = CHAIN_HEX \<and> cleared earlier i a"
proof (induction later)
  case (Cons e later)
  then show ?case by (cases e) auto
qed simp

text \<open>Executing a list of actions.\<close>

fun runs :: "action list \<Rightarrow> world \<Rightarrow> world option" where
  "runs [] w = Some w"
| "runs (x # xs) w = (if allowed x w then runs xs (perform x w) else None)"

lemma runs_reach: "reach w \<Longrightarrow> runs xs w = Some w' \<Longrightarrow> reach w'"
  by (induction xs arbitrary: w) (auto intro: reach.act split: if_splits)

definition first_visit :: world where
  "first_visit = \<lparr> w_address = Some ''0xA1'', w_chain = None, w_id = None, w_minted = Some 5000,
     w_store = [], w_jobs = [], w_trace = [] \<rparr>"

lemma first_visit_reach: "reach first_visit"
  by (rule reach.fresh) (simp add: fresh_def first_visit_def)

text \<open>Answers of a wallet on the right network, for the account and replies given.\<close>

definition says :: "string \<Rightarrow> string option \<Rightarrow> receipt option \<Rightarrow> chain_tx option \<Rightarrow> answers" where
  "says account own receipt tx =
     \<lparr> has_wallet = True, accounts = Some (Some account),
       dialogue = \<lparr> first_chain = Inr CHAIN_HEX, switch_reply = Inr (), add_reply = Inr (), second_chain = Inr CHAIN_HEX \<rparr>,
       owner = own, approves = True, sent_hash = Some ''0xbeef'', requests_ok = True,
       got_receipt = receipt, got_tx = tx, now = ''t'' \<rparr>"

definition pay_from :: "string \<Rightarrow> chain_tx" where
  "pay_from a = \<lparr> tx_from = Some a, tx_to = Some FEE_RECIPIENT, tx_value = Some FEE_WEI,
     tx_input = Some ''0x'', tx_data = None \<rparr>"

definition run_to_payment :: "action list" where
  "run_to_payment = [Open (Some 7), ClickActivate,
     Reply 0 (says ''0xA1'' None None None),
     Reply 0 (says ''0xA1'' (Some ''0xa1'') None None),
     Reply 0 (says ''0xA1'' None None None)]"

definition paid_world :: world where "paid_world = the (runs run_to_payment first_visit)"

lemma paid_world_reach: "reach paid_world"
proof -
  have "runs run_to_payment first_visit \<noteq> None" by code_simp
  then show ?thesis
    using runs_reach [OF first_visit_reach, of run_to_payment] by (auto simp: paid_world_def)
qed

lemma paid_world_trace:
  "w_trace paid_world = [] @ Pay 7 ''0xA1'' FEE_RECIPIENT FEE_WEI CHAIN_HEX #
     [Approved 7 ''0xA1'', OwnerSeen 7 (Some ''0xa1'') (Some ''0xA1''), OnChain]"
  by code_simp

text \<open>
  Property C1:  Whatever the wallet, the chain and the user do and in whatever order: the page
  asks for a payment only for a token of the collection, of exactly the fee, to the fee
  recipient, on the right network, and only after the network check passed, the user
  approved that token, and the on-chain owner was the connected account - which is the
  paying account unless the user switched accounts meanwhile.
\<close>

theorem pay_guarded:
  assumes "reach w" "w_trace w = later @ Pay i a to v c # earlier"
  shows "to = FEE_RECIPIENT \<and> v = FEE_WEI \<and> c = CHAIN_HEX \<and> 1 \<le> i \<and> i \<le> COLLECTION_SIZE \<and>
    OnChain \<in> set earlier \<and> Approved i a \<in> set earlier \<and>
    (\<exists>own cur. OwnerSeen i own cur \<in> set earlier \<and> sameAddr own cur \<and>
       (cur = Some a \<or> (\<exists>x. Switched x \<in> set earlier)))"
proof -
  have "pays_ok (later @ Pay i a to v c # earlier)"
    using reach_inv [OF assms(1)] assms(2) by (simp add: inv_def)
  from pays_ok_suffix [OF this] show ?thesis
    by (simp add: cleared_def id_ok_def owner_seen_def switched_def)
qed

theorem pay_guarded_witness:
  "\<exists>own cur. OwnerSeen 7 own cur \<in> set [Approved 7 ''0xA1'', OwnerSeen 7 (Some ''0xa1'') (Some ''0xA1''), OnChain] \<and>
     sameAddr own cur \<and> (cur = Some ''0xA1'' \<or> (\<exists>x. Switched x \<in>
       set [Approved 7 ''0xA1'', OwnerSeen 7 (Some ''0xa1'') (Some ''0xA1''), OnChain]))"
  using pay_guarded [OF paid_world_reach paid_world_trace] by blast

text \<open>The run continued: the transaction is sent, mined and verified.\<close>

definition run_to_activation :: "action list" where
  "run_to_activation = run_to_payment @
     [Reply 0 (says ''0xA1'' None None None),
      Reply 1 (says ''0xA1'' None (Some \<lparr> status = Some ''0x1'' \<rparr>) None),
      Reply 1 (says ''0xA1'' None (Some \<lparr> status = Some ''0x1'' \<rparr>) (Some (pay_from ''0xa1'')))]"

definition activated_world :: world where "activated_world = the (runs run_to_activation first_visit)"

lemma activated_world_reach: "reach activated_world"
proof -
  have "runs run_to_activation first_visit \<noteq> None" by code_simp
  then show ?thesis
    using runs_reach [OF first_visit_reach, of run_to_activation] by (auto simp: activated_world_def)
qed

lemma activated_world_record:
  "map_of (w_store activated_world) (activationStorageKey (Some ''0xA1'') 7) =
     Some (SAct (confirm_record ''t'' (activation_record (Some ''0xA1'') 7 ''0xbeef'' ''0x'' (Some 4663) False ''t'')))"
  by code_simp

text \<open>
  Property C2:  Every activation record in the storage, in every reachable state, carries the
  fee, the recipient and the contract of the configuration and the id of its key; and a
  confirmed one is confirmed because of a verification of its own transaction hash for
  that id.
\<close>

theorem activation_records:
  assumes "reach w" "map_of (w_store w) k = Some (SAct r)"
  shows "a_feeWei r = FEE_WEI \<and> a_recipient r = FEE_RECIPIENT \<and> a_contract r = CONTRACT \<and>
    1 \<le> a_id r \<and> a_id r \<le> COLLECTION_SIZE \<and> (\<exists>x. k = activationStorageKey x (a_id r)) \<and>
    (a_confirmed r \<longrightarrow> (\<exists>p. Verified (a_hash r) p (a_id r) \<in> set (w_trace w) \<or>
       Unverified (a_hash r) p (a_id r) \<in> set (w_trace w)))"
proof -
  have "local_storage.holds (entry_ok (w_trace w)) (w_store w)"
    using reach_inv [OF assms(1)] by (simp add: inv_def)
  from local_storage.holds_get [OF this assms(2)] show ?thesis
    by (simp add: entry_ok_def fee_fields_def id_ok_def settled_def)
qed

theorem activation_records_witness:
  "\<exists>p. Verified ''0xbeef'' p 7 \<in> set (w_trace activated_world) \<or> Unverified ''0xbeef'' p 7 \<in> set (w_trace activated_world)"
  using activation_records [OF activated_world_reach activated_world_record]
  by (simp add: confirm_record_def activation_record_def)

section \<open>Two flaws\<close>

text \<open>
  The transaction is not found at the moment of the verification (its receipt was, just
  before): the activation is confirmed all the same, here for a payment that reverted.
\<close>

definition unverified_run :: "action list" where
  "unverified_run = run_to_payment @
     [Reply 0 (says ''0xA1'' None None None),
      Reply 1 (says ''0xA1'' None (Some \<lparr> status = Some ''0x0'' \<rparr>) None),
      Reply 1 (says ''0xA1'' None (Some \<lparr> status = Some ''0x0'' \<rparr>) None)]"

text \<open>
  The page is reopened while a payment of account A1 is pending; before the verification
  returns the user switches to B2, which gets the confirmed record.
\<close>

definition leak_run :: "action list" where
  "leak_run = run_to_payment @
     [Reply 0 (says ''0xA1'' None None None),
      Reload (Some ''0xA1'') (Some 4663), Open (Some 7),
      AccountsChanged (Some ''0xB2''),
      Reply 0 (says ''0xB2'' None (Some \<lparr> status = Some ''0x1'' \<rparr>) (Some (pay_from ''0xa1'')))]"

fun paid_or_verified :: "string \<Rightarrow> event \<Rightarrow> bool" where
  "paid_or_verified b (Pay _ a _ _ _) = (a = b)"
| "paid_or_verified b (Verified _ p _) = (p = Some b)"
| "paid_or_verified b (OwnerSeen _ own _) = (own = Some b)"
| "paid_or_verified b _ = False"


end
