(* ===== verification/Activation_Success.thy ===== *)
theory Activation_Success
  imports Activation
begin

text \<open>
  The activation of a broker succeeds (site/brokers/assets/brokers.js, onActivate): when the
  wallet and the chain do what the page asks for and nothing interleaves, the seven steps
  from the click to the verified receipt end with a confirmed record of the account.
\<close>

text \<open>Replies of a wallet and a chain that do what the page asks for.\<close>

definition honest :: "answers \<Rightarrow> string \<Rightarrow> string \<Rightarrow> bool" where
  "honest ans a h \<longleftrightarrow> has_wallet ans \<and> first_chain (dialogue ans) = Inr CHAIN_HEX \<and>
     sameAddr (owner ans) (Some a) \<and> approves ans \<and> accounts ans = Some (Some a) \<and>
     sent_hash ans = Some h \<and> requests_ok ans \<and> got_receipt ans = Some \<lparr> status = Some ''0x1'' \<rparr> \<and>
     got_tx ans = Some (pay_from a)"

lemma update_entries: "set (AList.update k v st) \<subseteq> insert (k, v) (set st)"
  by (induction st) auto

lemma used_update:
  assumes "\<not> txHashAlreadyUsed st h i" "a_id r = i"
  shows "\<not> txHashAlreadyUsed (AList.update k (SAct r) st) h i"
proof -
  have "\<not> uses_hash (to_lower h) i (k, SAct r)" using assms(2) by (simp add: uses_hash_def)
  then show ?thesis
    using assms(1) update_entries [of k "SAct r" st] unfolding txHashAlreadyUsed_def list_ex_iff by blast
qed

lemma honest_chain: "honest ans a h \<Longrightarrow> ensure_chain ans w = (log_ev OnChain (w\<lparr> w_chain := Some (int CHAIN_ID) \<rparr>), True)"
proof -
  assume "honest ans a h"
  moreover have "parse_hex CHAIN_HEX = Some (int CHAIN_ID)" by code_simp
  ultimately show ?thesis by (simp add: ensure_chain_def ensureChain_def honest_def)
qed

lemma honest_owner: "honest ans a h \<Longrightarrow> \<exists>x. requireOwner n i (owner ans) (Some a) = Inr x"
  by (auto simp: honest_def requireOwner_def sameAddr_def split: option.splits)

lemma lower_literals: "to_lower ''0x1'' = ''0x1''" "to_lower ''0x'' = ''0x''" "FEE_RECIPIENT \<noteq> []"
  by code_simp+

lemma honest_verified: "honest ans a h \<Longrightarrow> verifyActivationPayment (got_receipt ans) (got_tx ans) (Some a) i = Inr True"
  by (auto simp: honest_def verifyActivationPayment_def pay_from_def sameAddr_def opt_text_def or_opt_def or_str_def
     lower_literals split: option.splits)

text \<open>The clicks and replies of an activation nothing interferes with.\<close>

definition undisturbed :: "answers \<Rightarrow> action list" where
  "undisturbed ans = [ClickActivate, Reply 0 ans, Reply 0 ans, Reply 0 ans, Reply 0 ans, Reply 1 ans, Reply 1 ans]"

lemma undisturbed_run:
  assumes honest: "honest ans a h" and h: "h \<noteq> []" and i: "i \<noteq> 0"
    and w: "w_jobs w = []" "w_id w = Some i" "w_address w = Some a"
    and new: "\<not> isActivated (Some a) (w_store w) i" "\<not> txHashAlreadyUsed (w_store w) h i"
  shows "\<exists>w'. runs (undisturbed ans) w = Some w' \<and> isActivated (w_address w') (w_store w') i \<and> w_id w' = Some i"
proof -
  let ?k = "activationStorageKey (Some a) i"
  define c where "c = Some (int CHAIN_ID)"
  define r where "r = activation_record (Some a) i h ''0x'' c False (now ans)"
  have r: "a_id r = i" "a_hash r = h" "\<not> a_confirmed r" by (simp_all add: r_def activation_record_def)
  obtain x where own: "requireOwner (w_minted w) i (owner ans) (Some a) = Inr x" using honest_owner [OF honest] by blast
  define w1 where "w1 = log_ev OnChain (w\<lparr> w_chain := c \<rparr>)"
  define w2 where "w2 = log_ev (Approved i a) (log_ev (OwnerSeen i (owner ans) (Some a)) w1)"
  define w3 where "w3 = log_ev (Pay i a FEE_RECIPIENT FEE_WEI CHAIN_HEX) w2"
  define w4 where "w4 = writeJSON ?k (SAct r) w3"
  have "runs (undisturbed ans) w = runs [Reply 0 ans, Reply 0 ans, Reply 0 ans, Reply 0 ans, Reply 1 ans, Reply 1 ans]
      (w\<lparr> w_jobs := [ActChain] \<rparr>)"
    using w by (simp add: undisturbed_def add_job_def)
  also have "\<dots> = runs [Reply 0 ans, Reply 0 ans, Reply 0 ans, Reply 1 ans, Reply 1 ans] (w1\<lparr> w_jobs := [ActOwner i a] \<rparr>)"
    using w by (simp add: act_chain_def honest_chain [OF honest] add_job_def w1_def log_ev_def c_def)
  also have "\<dots> = runs [Reply 0 ans, Reply 0 ans, Reply 1 ans, Reply 1 ans] (w2\<lparr> w_jobs := [ActAccounts i a] \<rparr>)"
    using w own new honest
    by (simp add: act_owner_def Let_def add_job_def w1_def w2_def log_ev_def honest_def)
  also have "\<dots> = runs [Reply 0 ans, Reply 1 ans, Reply 1 ans] (w3\<lparr> w_jobs := [ActSend i a] \<rparr>)"
    using honest by (auto simp: act_accounts_def add_job_def w3_def log_ev_def honest_def sameAddr_def split: option.splits)
  also have "\<dots> = runs [Reply 1 ans, Reply 1 ans] (w4\<lparr> w_jobs := [Refresh i r, ActReceipt i a r] \<rparr>)"
  proof -
    have "read_act (w_store w4) (storageKey (Some a) ''activation'' i) = Some r"
      by (simp add: w4_def writeJSON_def read_act_def activation_key update_conv)
    moreover have "w_id w4 = Some i" "w_address w4 = Some a" "w_chain w3 = c"
      using w by (simp_all add: w4_def w3_def w2_def w1_def writeJSON_def log_ev_def)
    ultimately show ?thesis
      using honest h r
      by (simp add: act_send_def Let_def honest_def r_def [symmetric] refreshActivation_def activationRecordIsConfirmed_def
          add_job_def w4_def writeJSON_def)
  qed
  also have "\<dots> = runs [Reply 1 ans] (w4\<lparr> w_jobs := [Refresh i r, ActVerify i a r] \<rparr>)"
    using honest by (simp add: act_receipt_def honest_def add_job_def)
  also have "\<dots> = Some (act_verify i a r ans (w4\<lparr> w_jobs := [Refresh i r] \<rparr>))" by simp
  finally have run: "runs (undisturbed ans) w = Some (act_verify i a r ans (w4\<lparr> w_jobs := [Refresh i r] \<rparr>))" .
  have unused: "\<not> txHashAlreadyUsed (w_store w4) h i"
    using used_update [OF new(2) r(1)] by (simp add: w4_def w3_def w2_def w1_def writeJSON_def log_ev_def)
  define w5 where "w5 = writeJSON ?k (SAct (confirm_record (now ans) r)) (w4\<lparr> w_jobs := [Refresh i r] \<rparr>)"
  have act: "isActivated (Some a) (w_store w5) i"
    using h i by (simp add: w5_def isActivated_def writeJSON_def read_act_def activation_key update_conv r_def
        activationRecordIsConfirmed_def confirm_record_def activation_record_def sameAddr_def lower_literals)
  have sel: "w_id w5 = Some i" "w_address w5 = Some a"
    using w by (simp_all add: w5_def w4_def w3_def w2_def w1_def writeJSON_def log_ev_def)
  have stored: "read_act (w_store w5) (storageKey (Some a) ''activation'' i) = Some (confirm_record (now ans) r)"
    by (simp add: w5_def writeJSON_def read_act_def activation_key update_conv)
  have conf: "activationRecordIsConfirmed (Some (confirm_record (now ans) r))"
    using h i by (simp add: r_def activationRecordIsConfirmed_def confirm_record_def activation_record_def sameAddr_def
        lower_literals)
  define w6 where "w6 = log_ev (Confirmed ?k (confirm_record (now ans) r)) (writeJSON ?k (SAct (confirm_record (now ans) r))
      (log_ev (Verified h (Some a) i) (w4\<lparr> w_jobs := [Refresh i r] \<rparr>)))"
  have w6: "w_store w6 = w_store w5" "w_id w6 = Some i" "w_address w6 = Some a"
    using sel by (simp_all add: w6_def w5_def log_ev_def writeJSON_def)
  have "refreshActivation w6 = w6"
    using stored conf by (simp add: refreshActivation_def w6)
  then have "act_verify i a r ans (w4\<lparr> w_jobs := [Refresh i r] \<rparr>) = w6"
    using honest_verified [OF honest] honest unused r(2)
    by (simp add: act_verify_def honest_def Let_def w6_def log_ev_def)
  then show ?thesis using run act w6 by simp
qed

text \<open>
  Property C4: Liveness of activation. On a page that shows token \<open>i\<close> to a connected account
  with no step under way, when the wallet is on the right network, approves, signs and sends,
  the chain names the account as owner and reports the payment as mined, and the transaction
  has not been used for another token, the run of the seven steps is allowed and ends with
  the token activated for that account.
\<close>

theorem activation_succeeds:
  assumes "honest ans a h" "h \<noteq> []" "i \<noteq> 0"
    and "w_jobs w = []" "w_id w = Some i" "w_address w = Some a"
    and "\<not> isActivated (Some a) (w_store w) i" "\<not> txHashAlreadyUsed (w_store w) h i"
  shows "\<exists>w'. runs (undisturbed ans) w = Some w' \<and> isActivated (w_address w') (w_store w') i \<and> w_id w' = Some i"
  by (rule undisturbed_run [OF assms])

definition willing :: answers where
  "willing = says ''0xA1'' (Some ''0xa1'') (Some \<lparr> status = Some ''0x1'' \<rparr>) (Some (pay_from ''0xA1''))"

theorem activation_succeeds_witness:
  "\<exists>w'. runs (undisturbed willing) (first_visit\<lparr> w_id := Some 7 \<rparr>) = Some w' \<and>
     isActivated (w_address w') (w_store w') 7 \<and> w_id w' = Some 7"
proof -
  have h: "honest willing ''0xA1'' ''0xbeef''" by code_simp
  have new: "\<not> isActivated (Some ''0xA1'') (w_store (first_visit\<lparr> w_id := Some 7 \<rparr>)) 7"
    "\<not> txHashAlreadyUsed (w_store (first_visit\<lparr> w_id := Some 7 \<rparr>)) ''0xbeef'' 7"
    by code_simp+
  show ?thesis
    by (rule activation_succeeds [OF h _ _ _ _ _ new]) (simp_all add: first_visit_def)
qed

end
