(* ===== verification/Broker_Catalog.thy ===== *)
theory Broker_Catalog
  imports Broker_Rules Html
begin

text \<open>
  Finding brokers in site/brokers/assets/brokers.js: the searchable catalogue with its pages,
  and the scans for the tokens a wallet owns.  \<open>M\<close> and \<open>S\<close> are what \<open>mandateFor\<close> and
  \<open>skillFor\<close> return for an id.  What is shown: the pages partition the matches, every match
  can be reached, and the scans find exactly the tokens owned.
\<close>

section \<open>The catalogue\<close>

record shop =
  s_page :: nat
  s_filter :: string
  s_universe :: string
  s_strategy :: string
  s_minted :: "nat option"

definition PAGE_SIZE :: nat where "PAGE_SIZE = 48"

definition skill_blob :: "skill option \<Rightarrow> string" where
  "skill_blob s =
     (case s of
        None \<Rightarrow> []
      | Some s \<Rightarrow> '' '' @ sk_name s @ '' '' @ sk_desk s @ '' '' @ sk_role s @ '' '' @ sk_pair s @ '' '' @ sk_venue s @
          '' '' @ skillId s)"

definition matchesFilter :: "shop \<Rightarrow> mandate \<Rightarrow> skill option \<Rightarrow> bool" where
  "matchesFilter st m s =
     (if s_universe st \<noteq> [] \<and> universe (m_traits m) \<noteq> s_universe st then False
      else if s_strategy st \<noteq> [] \<and> to_lower (strategy (m_traits m)) \<noteq> to_lower (s_strategy st) then False
      else let q = to_lower (trim (s_filter st)) in
        if q = [] then True
        else str_includes
               (to_lower (''#'' @ dec (m_id m) @ '' '' @ m_name m @ '' '' @ primaryAsset m @ '' '' @ secondary m @ '' '' @
                  strategy (m_traits m) @ '' '' @ m_venue m @ '' '' @ universe (m_traits m) @ skill_blob s)) q \<or>
             dec (m_id m) = q)"

definition filtered :: "shop \<Rightarrow> bool" where
  "filtered st \<longleftrightarrow> s_filter st \<noteq> [] \<or> s_universe st \<noteq> [] \<or> s_strategy st \<noteq> []"

definition all_brokers :: "nat list" where "all_brokers = [1..<COLLECTION_SIZE + 1]"

definition catalogIds :: "(nat \<Rightarrow> mandate) \<Rightarrow> (nat \<Rightarrow> skill option) \<Rightarrow> shop \<Rightarrow> nat list" where
  "catalogIds M S st =
     filter (\<lambda>i. \<not> filtered st \<or> matchesFilter st (M i) (S i)) all_brokers"

definition maxPage :: "nat \<Rightarrow> nat" where
  "maxPage n = max 1 ((n + PAGE_SIZE - 1) div PAGE_SIZE)"

definition page_slice :: "nat list \<Rightarrow> nat \<Rightarrow> nat list" where
  "page_slice ids p = take PAGE_SIZE (drop ((p - 1) * PAGE_SIZE) ids)"

definition page_label :: "nat list \<Rightarrow> nat \<Rightarrow> string" where
  "page_label ids p =
     (let slice = page_slice ids p; start = (p - 1) * PAGE_SIZE;
          first = (case slice of [] \<Rightarrow> 0 | i # _ \<Rightarrow> i);
          final = (case slice of [] \<Rightarrow> 0 | _ \<Rightarrow> last slice)
      in if length ids = COLLECTION_SIZE
         then ''#'' @ dec first @ en_dash @ dec final @ '' of 5000''
         else dec (if ids = [] then 0 else start + 1) @ en_dash @ dec (start + length slice) @ '' of '' @
           dec (length ids) @ '' matches'')"

record grid_view =
  g_ids :: "nat list"
  g_label :: string

definition renderLandingGrid ::
  "(nat \<Rightarrow> mandate) \<Rightarrow> (nat \<Rightarrow> skill option) \<Rightarrow> shop \<Rightarrow> shop \<times> grid_view"
where
  "renderLandingGrid M S st =
     (let ids = catalogIds M S st;
          p = min (s_page st) (maxPage (length ids))
      in (st\<lparr> s_page := p \<rparr>, \<lparr> g_ids = page_slice ids p, g_label = page_label ids p \<rparr>))"

datatype shop_action = Prev | Next | Filters string string string | Minted "nat option"

fun shop_update :: "shop_action \<Rightarrow> shop \<Rightarrow> shop" where
  "shop_update Prev st = st\<lparr> s_page := max 1 (s_page st - 1) \<rparr>"
| "shop_update Next st =
     st\<lparr> s_page := min ((COLLECTION_SIZE + PAGE_SIZE - 1) div PAGE_SIZE) (s_page st + 1) \<rparr>"
| "shop_update (Filters f u s) st = st\<lparr> s_filter := f, s_universe := u, s_strategy := s, s_page := 1 \<rparr>"
| "shop_update (Minted n) st = st\<lparr> s_minted := (if n = None then s_minted st else n) \<rparr>"

definition shop_start :: shop where
  "shop_start = \<lparr> s_page = 1, s_filter = [], s_universe = [], s_strategy = [], s_minted = None \<rparr>"

text \<open>Every action renders the grid.\<close>

inductive browse :: "(nat \<Rightarrow> mandate) \<Rightarrow> (nat \<Rightarrow> skill option) \<Rightarrow> shop \<Rightarrow> grid_view \<Rightarrow> bool"
  for M S where
  landed: "renderLandingGrid M S shop_start = (st, v) \<Longrightarrow> browse M S st v"
| acted: "browse M S st v \<Longrightarrow> renderLandingGrid M S (shop_update x st) = (st', v') \<Longrightarrow> browse M S st' v'"

section \<open>Scanning for owned tokens\<close>

text \<open>
  The batches of a scan: from \<open>i\<close> on, \<open>batch\<close> ids at a time, up to \<open>cap\<close>.  The replies of a
  batch arrive together; \<open>stop\<close> is the early exit.
\<close>

definition scan_chunk :: "nat \<Rightarrow> nat \<Rightarrow> nat \<Rightarrow> nat list" where
  "scan_chunk batch cap i = [i ..< min (i + batch) (cap + 1)]"

definition scan_count :: "string option \<Rightarrow> scanned \<Rightarrow> nat list \<times> nat \<Rightarrow> nat list \<times> nat" where
  "scan_count address r acc =
     (case acc of (owned, failed) \<Rightarrow>
        if \<not> sc_ok r then (owned, failed + 1)
        else if sc_own r \<noteq> None \<and> sameAddr (sc_own r) address then (owned @ [sc_id r], failed)
        else (owned, failed))"

function scan_rounds ::
  "(nat \<Rightarrow> scanned) \<Rightarrow> string option \<Rightarrow> (nat list \<Rightarrow> bool) \<Rightarrow> nat \<Rightarrow> nat \<Rightarrow> nat \<Rightarrow> nat list \<times> nat \<Rightarrow> nat list \<times> nat"
where
  "scan_rounds look address stop batch cap i acc =
     (if i \<le> cap \<and> 0 < batch then
        let acc' = fold (\<lambda>tid. scan_count address (look tid)) (scan_chunk batch cap i) acc in
        if stop (fst acc') then acc' else scan_rounds look address stop batch cap (i + batch) acc'
      else acc)"
  by pat_completeness auto
termination by (relation "measure (\<lambda>(_, _, _, _, cap, i, _). cap + 1 - i)") auto

declare scan_rounds.simps [simp del]

record last_scan =
  ls_owned :: "nat list"
  ls_bal :: "int option"
  ls_failed :: nat
  ls_cap :: nat

text \<open>
  \<open>scanOwned\<close>: nothing without an account, a supply or a token; else the scan of all ids up
  to the supply, twenty at a time.
\<close>

definition scanOwned ::
  "(nat \<Rightarrow> nat \<Rightarrow> string \<Rightarrow> string option option) \<Rightarrow> (string \<Rightarrow> string option option) \<Rightarrow>
   string option \<Rightarrow> nat option \<Rightarrow> last_scan option"
where
  "scanOwned call bal_call address minted =
     (case (address, minted) of
        (Some a, Some n) \<Rightarrow>
          let cap = min n COLLECTION_SIZE in
          if a = [] \<or> cap = 0 then None
          else (case scan_rounds (\<lambda>i. ownerOfWithRetry (call i) i) address (\<lambda>_. False) 20 cap 1 ([], 0) of
                  (owned, failed) \<Rightarrow>
                    Some \<lparr> ls_owned = owned, ls_bal = balanceOf bal_call a, ls_failed = failed, ls_cap = cap \<rparr>)
      | _ \<Rightarrow> None)"

text \<open>The picker: twenty-five at a time, until the balance is reached; nothing for balance 0.\<close>

definition enough :: "int option \<Rightarrow> nat list \<Rightarrow> bool" where
  "enough bal owned \<longleftrightarrow> (case bal of None \<Rightarrow> False | Some b \<Rightarrow> int (length owned) \<ge> b \<and> b > 0)"

definition pickerOwned ::
  "(nat \<Rightarrow> nat \<Rightarrow> string \<Rightarrow> string option option) \<Rightarrow> int option \<Rightarrow> string \<Rightarrow> nat \<Rightarrow> nat list \<times> nat"
where
  "pickerOwned call bal a minted =
     (if bal = Some 0 then ([], 0)
      else scan_rounds (\<lambda>i. ownerOfWithRetry (call i) i) (Some a) (enough bal) 25 (min minted COLLECTION_SIZE) 1 ([], 0))"

section \<open>Pages\<close>

lemma slices_concat: "concat (map (\<lambda>k. take n (drop (k * n) xs)) [0..<m]) = take (m * n) xs"
proof (induction m)
  case (Suc m)
  then show ?case by (simp add: take_add add.commute [of n])
qed simp

lemma PAGE_SIZE_pos [simp]: "0 < PAGE_SIZE"
  by (simp add: PAGE_SIZE_def)

lemma maxPage_pos [simp]: "1 \<le> maxPage n"
  by (simp add: maxPage_def)

lemma maxPage_enough: "n \<le> maxPage n * PAGE_SIZE"
proof -
  have "n \<le> (n + PAGE_SIZE - 1) div PAGE_SIZE * PAGE_SIZE"
    by (simp add: PAGE_SIZE_def)
  also have "\<dots> \<le> maxPage n * PAGE_SIZE" by (simp add: maxPage_def)
  finally show ?thesis .
qed

lemma maxPage_start: "0 < n \<Longrightarrow> p \<le> maxPage n \<Longrightarrow> (p - 1) * PAGE_SIZE < n"
proof -
  assume n: "0 < n" and p: "p \<le> maxPage n"
  have "p - 1 \<le> (n - 1) div PAGE_SIZE" using p n by (auto simp: maxPage_def PAGE_SIZE_def)
  then have "(p - 1) * PAGE_SIZE \<le> (n - 1) div PAGE_SIZE * PAGE_SIZE" by simp
  also have "\<dots> \<le> n - 1" by (simp add: div_times_less_eq_dividend)
  finally show ?thesis using n by simp
qed

lemma pages_concat: "concat (map (page_slice ids) [1..<Suc (maxPage (length ids))]) = ids"
proof -
  have "map (page_slice ids) [1..<Suc (maxPage (length ids))] =
      map (\<lambda>k. take PAGE_SIZE (drop (k * PAGE_SIZE) ids)) [0..<maxPage (length ids)]"
    by (simp add: map_Suc_upt [symmetric] page_slice_def comp_def del: upt_Suc)
  then show ?thesis using maxPage_enough [of "length ids"] by (simp add: slices_concat)
qed

lemma page_kept:
  "s_filter (st\<lparr> s_page := p \<rparr>) = s_filter st" "s_universe (st\<lparr> s_page := p \<rparr>) = s_universe st"
  "s_strategy (st\<lparr> s_page := p \<rparr>) = s_strategy st"
  by simp_all

lemma catalogIds_page [simp]: "catalogIds M S (st\<lparr> s_page := p \<rparr>) = catalogIds M S st"
proof -
  have "filtered (st\<lparr> s_page := p \<rparr>) = filtered st" by (simp add: filtered_def)
  moreover have "matchesFilter (st\<lparr> s_page := p \<rparr>) = matchesFilter st"
    by (intro ext) (simp only: matchesFilter_def shop.simps shop.select_convs shop.update_convs page_kept)
  ultimately show ?thesis by (simp only: catalogIds_def)
qed

lemma length_catalog: "length (catalogIds M S st) \<le> COLLECTION_SIZE"
  unfolding catalogIds_def all_brokers_def by (rule order_trans [OF length_filter_le]) (simp only: length_upt)

lemma shop_update_page: "1 \<le> s_page st \<Longrightarrow> 1 \<le> s_page (shop_update x st)"
  by (cases x) (simp_all add: COLLECTION_SIZE_def PAGE_SIZE_def)

lemma render_ok:
  assumes "renderLandingGrid M S st = (st', v)" "1 \<le> s_page st"
  shows "1 \<le> s_page st' \<and> s_page st' \<le> maxPage (length (catalogIds M S st')) \<and>
    g_ids v = page_slice (catalogIds M S st') (s_page st') \<and> g_label v = page_label (catalogIds M S st') (s_page st')"
  using assms maxPage_pos [of "length (catalogIds M S st)"] by (auto simp: renderLandingGrid_def Let_def)

lemma browse_page: "browse M S st v \<Longrightarrow>
    1 \<le> s_page st \<and> s_page st \<le> maxPage (length (catalogIds M S st)) \<and>
    g_ids v = page_slice (catalogIds M S st) (s_page st) \<and> g_label v = page_label (catalogIds M S st) (s_page st)"
proof (induction rule: browse.induct)
  case (landed st v)
  have "1 \<le> s_page shop_start" by (simp add: shop_start_def)
  from render_ok [OF landed this] show ?case .
next
  case (acted st v x st' v')
  from acted(3) have "1 \<le> s_page (shop_update x st)" by (blast intro: shop_update_page)
  from render_ok [OF acted(2) this] show ?case .
qed

lemma page_slice_empty:
  "p \<le> maxPage (length ids) \<Longrightarrow> page_slice ids p = [] \<longleftrightarrow> ids = []"
  using maxPage_start [of "length ids" p] by (cases ids) (auto simp: page_slice_def PAGE_SIZE_def)

text \<open>
  Property C17: Whatever is searched and whichever buttons are pressed, the catalogue shows an
  existing page of the current matches, at most 48 of them and none only if nothing
  matches, with its label; and its pages together are all matches, each once, in order.
\<close>

theorem catalogue_pages:
  assumes "browse M S st v"
  shows "1 \<le> s_page st \<and> s_page st \<le> maxPage (length (catalogIds M S st)) \<and>
    g_ids v = page_slice (catalogIds M S st) (s_page st) \<and>
    g_label v = page_label (catalogIds M S st) (s_page st) \<and>
    length (g_ids v) \<le> 48 \<and> (g_ids v = []) = (catalogIds M S st = []) \<and>
    concat (map (page_slice (catalogIds M S st)) [1..<Suc (maxPage (length (catalogIds M S st)))]) = catalogIds M S st"
proof -
  have "length (g_ids v) \<le> 48" using browse_page [OF assms] by (simp add: page_slice_def PAGE_SIZE_def)
  then show ?thesis
    using browse_page [OF assms] page_slice_empty [of "s_page st" "catalogIds M S st"] by (simp only: pages_concat)
qed

definition demo_mandate :: "nat \<Rightarrow> mandate" where
  "demo_mandate i = mandate_of sha256pure (\<lambda>_. None) Map.empty i
     \<lparr> head = ''Gold Skull'', coat = ''No Coat'', suit = ''Navy'', accent = ''Teal'', hud = ''None'', hand = ''Empty'',
       base = ''Stone'', rarity = Common, strategy = ''Grid'', universe = ''Stocks'' \<rparr> (stock_asset ''ABC'')"

definition no_skill :: "nat \<Rightarrow> skill option" where "no_skill i = None"

theorem catalogue_pages_witness:
  "length (g_ids (snd (renderLandingGrid demo_mandate no_skill shop_start))) \<le> 48"
  using catalogue_pages [OF browse.landed [OF prod.collapse [symmetric]], of demo_mandate no_skill] by blast

text \<open>The next button from the first page.\<close>

fun press_next :: "(nat \<Rightarrow> mandate) \<Rightarrow> (nat \<Rightarrow> skill option) \<Rightarrow> nat \<Rightarrow> shop \<Rightarrow> shop \<times> grid_view" where
  "press_next M S 0 st = renderLandingGrid M S st"
| "press_next M S (Suc k) st = renderLandingGrid M S (shop_update Next (fst (press_next M S k st)))"

lemma maxPage_bound: "n \<le> COLLECTION_SIZE \<Longrightarrow> maxPage n \<le> (COLLECTION_SIZE + PAGE_SIZE - 1) div PAGE_SIZE"
  by (simp add: maxPage_def PAGE_SIZE_def COLLECTION_SIZE_def div_le_mono)

lemma press_next_page:
  "s_page st = 1 \<Longrightarrow>
   fst (press_next M S k st) = st\<lparr> s_page := min (Suc k) (maxPage (length (catalogIds M S st))) \<rparr> \<and>
   g_ids (snd (press_next M S k st)) =
     page_slice (catalogIds M S st) (min (Suc k) (maxPage (length (catalogIds M S st))))"
proof (induction k)
  case 0
  then show ?case by (simp add: renderLandingGrid_def Let_def)
next
  case (Suc k)
  have "maxPage (length (catalogIds M S st)) \<le> (COLLECTION_SIZE + PAGE_SIZE - 1) div PAGE_SIZE"
    by (rule maxPage_bound [OF length_catalog])
  then have m: "min (min c (min (Suc k) n + 1)) n = min (Suc (Suc k)) n"
    if "n = maxPage (length (catalogIds M S st))" "c = (COLLECTION_SIZE + PAGE_SIZE - 1) div PAGE_SIZE" for n c
    using that by simp
  show ?case using Suc m [OF refl refl] by (simp add: renderLandingGrid_def Let_def del: One_nat_def)
qed

text \<open>
  Every match can be reached: from the first page, pressing the next button often
  enough shows its card.
\<close>

theorem match_reachable:
  assumes "i \<in> set (catalogIds M S st)" "s_page st = 1"
  shows "\<exists>k. i \<in> set (g_ids (snd (press_next M S k st)))"
proof -
  let ?ids = "catalogIds M S st"
  from assms(1) obtain p where p: "1 \<le> p" "p \<le> maxPage (length ?ids)" "i \<in> set (page_slice ?ids p)"
    by (subst (asm) pages_concat [symmetric]) auto
  then have "min (Suc (p - 1)) (maxPage (length ?ids)) = p" by simp
  then have "i \<in> set (g_ids (snd (press_next M S (p - 1) st)))"
    using press_next_page [OF assms(2), of M S "p - 1"] p(3) by simp
  then show ?thesis ..
qed

theorem match_reachable_witness:
  "\<exists>k. 4321 \<in> set (g_ids (snd (press_next demo_mandate no_skill k shop_start)))"
  by (rule match_reachable)
    (simp_all add: catalogIds_def filtered_def shop_start_def all_brokers_def COLLECTION_SIZE_def del: upt_Suc)

section \<open>Scans\<close>

lemma fold_scan_count:
  assumes "\<And>tid. look tid = \<lparr> sc_id = tid, sc_own = own tid, sc_ok = True \<rparr>"
  shows "fold (\<lambda>tid. scan_count address (look tid)) xs (owned, n) =
    (owned @ filter (\<lambda>tid. sameAddr (own tid) address) xs, n)"
  by (induction xs arbitrary: owned) (auto simp: assms scan_count_def sameAddr_def split: option.splits)

lemma scan_rounds_exact:
  assumes look: "\<And>tid. look tid = \<lparr> sc_id = tid, sc_own = own tid, sc_ok = True \<rparr>"
    and stop: "\<And>xs. stop xs \<Longrightarrow> length (filter (\<lambda>tid. sameAddr (own tid) address) [1..<cap + 1]) \<le> length xs"
    and batch: "0 < batch"
  shows "1 \<le> i \<Longrightarrow>
    scan_rounds look address stop batch cap i (filter (\<lambda>tid. sameAddr (own tid) address) [1..<min i (cap + 1)], 0) =
      (filter (\<lambda>tid. sameAddr (own tid) address) [1..<cap + 1], 0)"
proof (induction "cap + 1 - i" arbitrary: i rule: less_induct)
  case less
  let ?P = "\<lambda>tid. sameAddr (own tid) address"
  let ?j = "min (i + batch) (cap + 1)"
  show ?case
  proof (cases "i \<le> cap")
    case True
    have "[1..<min i (cap + 1)] @ [i..<?j] = [1..<?j]"
      using True less.prems batch upt_add_eq_append [of 1 i "?j - i"] by (simp add: min_def)
    then have acc: "fold (\<lambda>tid. scan_count address (look tid)) (scan_chunk batch cap i) (filter ?P [1..<min i (cap + 1)], 0)
        = (filter ?P [1..<?j], 0)"
      unfolding scan_chunk_def by (subst fold_scan_count [OF look]) (simp only: filter_append [symmetric])
    have "[1..<cap + 1] = [1..<?j] @ [?j..<cap + 1]"
      using less.prems upt_add_eq_append [of 1 ?j "cap + 1 - ?j"] by simp
    then have rest: "filter ?P [1..<cap + 1] = filter ?P [1..<?j] @ filter ?P [?j..<cap + 1]"
      by (simp only: filter_append)
    show ?thesis
    proof (cases "stop (filter ?P [1..<?j])")
      case True
      from stop [OF this] rest have "filter ?P [?j..<cap + 1] = []" by simp
      with rest have "filter ?P [1..<cap + 1] = filter ?P [1..<?j]" by simp
      with True \<open>i \<le> cap\<close> batch show ?thesis
        by (subst scan_rounds.simps) (simp only: Let_def acc if_True simp_thms fst_conv)
    next
      case False
      have "scan_rounds look address stop batch cap (i + batch) (filter ?P [1..<?j], 0) = (filter ?P [1..<cap + 1], 0)"
        using less.hyps [of "i + batch"] True batch less.prems by simp
      with False True batch show ?thesis
        by (subst scan_rounds.simps) (simp only: Let_def acc if_True if_False simp_thms fst_conv)
    qed
  next
    case False
    then show ?thesis by (subst scan_rounds.simps) simp
  qed
qed

text \<open>The chain names the account as the owner of a token.\<close>

definition owns :: "(nat \<Rightarrow> nat \<Rightarrow> string \<Rightarrow> string option option) \<Rightarrow> string \<Rightarrow> nat \<Rightarrow> bool" where
  "owns call a i \<longleftrightarrow> sameAddr (ownerOf (call i 0) i) (Some a)"

lemma scan_from_1:
  assumes "\<And>xs. stop xs \<Longrightarrow> length (filter (owns call a) [1..<cap + 1]) \<le> length xs" "0 < batch"
  shows "scan_rounds (\<lambda>i. ownerOfWithRetry (call i) i) (Some a) stop batch cap 1 ([], 0) =
    (filter (owns call a) [1..<cap + 1], 0)"
proof -
  have "[1..<min 1 (cap + 1)] = []" by simp
  then show ?thesis
    using scan_rounds_exact [of "\<lambda>i. ownerOfWithRetry (call i) i" "\<lambda>i. ownerOf (call i 0) i" stop "Some a" cap batch 1]
      owner_retry_ok assms
    unfolding owns_def by (simp only: filter.simps order_refl)
qed

lemma scan_owned_exact:
  assumes "a \<noteq> []" "0 < n"
  shows "scanOwned call bal_call (Some a) (Some n) =
    Some \<lparr> ls_owned = filter (owns call a) [1..<min n COLLECTION_SIZE + 1], ls_bal = balanceOf bal_call a,
           ls_failed = 0, ls_cap = min n COLLECTION_SIZE \<rparr>"
proof -
  have "scan_rounds (\<lambda>i. ownerOfWithRetry (call i) i) (Some a) (\<lambda>_. False) 20 (min n COLLECTION_SIZE) 1 ([], 0) =
      (filter (owns call a) [1..<min n COLLECTION_SIZE + 1], 0)"
    by (rule scan_from_1) simp_all
  moreover have "min n COLLECTION_SIZE \<noteq> 0" using assms(2) by (simp add: COLLECTION_SIZE_def)
  ultimately show ?thesis using assms(1) by (simp only: scanOwned_def option.case Let_def if_False simp_thms prod.case)
qed



text \<open>
  The picker stops early, as soon as the balance is reached, and still finds every
  token of the account, unless the balance is below the number of tokens the scan would
  find (or reads zero).
\<close>

theorem picker_complete:
  assumes "bal \<noteq> Some 0" "\<And>b. bal = Some b \<Longrightarrow> int (length (filter (owns call a) [1..<min n COLLECTION_SIZE + 1])) \<le> b"
  shows "pickerOwned call bal a n = (filter (owns call a) [1..<min n COLLECTION_SIZE + 1], 0)"
proof -
  have "length (filter (owns call a) [1..<min n COLLECTION_SIZE + 1]) \<le> length xs" if "enough bal xs" for xs
  proof (cases bal)
    case (Some b)
    with that have "b \<le> int (length xs)" by (simp add: enough_def)
    with assms(2) [OF Some] show ?thesis by linarith
  qed (use that in \<open>simp add: enough_def\<close>)
  then have "scan_rounds (\<lambda>i. ownerOfWithRetry (call i) i) (Some a) (enough bal) 25 (min n COLLECTION_SIZE) 1 ([], 0) =
      (filter (owns call a) [1..<min n COLLECTION_SIZE + 1], 0)"
    by (rule scan_from_1) simp_all
  with assms(1) show ?thesis by (simp only: pickerOwned_def if_False)
qed

definition third_owner :: string where "third_owner = ''0x'' @ replicate 40 (CHR ''a'')"

definition third_only :: "nat \<Rightarrow> nat \<Rightarrow> string \<Rightarrow> string option option" where
  "third_only i n d = (if i = 3 then Some (Some (''0x'' @ replicate 24 (CHR ''0'') @ replicate 40 (CHR ''A''))) else None)"

lemma third_owned: "filter (owns third_only third_owner) [1..<min 60 COLLECTION_SIZE + 1] = [3]"
  by code_simp

theorem picker_complete_witness: "pickerOwned third_only (Some 1) third_owner 60 = ([3], 0)"
  using picker_complete [of "Some 1" third_only third_owner 60] unfolding third_owned by simp

end
