(* ===== verification/Broker_Desk.thy ===== *)
theory Broker_Desk
  imports Broker_Rules Json "HOL-Library.Sublist"
begin

text \<open>
  The desk of a broker in site/brokers/assets/brokers.js: the public quote of its skill, the
  ticket drawn up from it and the blotter of the last quotes.  \<open>get\<close> is the outcome of
  \<open>jsonGet\<close> for an address: an error message or the parsed body.  What is shown: a quote is
  always a value some reply contains.
\<close>

section \<open>Quotes\<close>

record quote =
  q_value :: string
  q_label :: string
  q_source :: string
  q_kind :: string

text \<open>An error carries the message of the page, or stands for the engine's own type error.\<close>

datatype quote_error = Message string | Type_error

type_synonym fetcher = "string \<Rightarrow> string + json"

definition bind_get :: "string + json \<Rightarrow> (jval \<Rightarrow> quote_error + 'a) \<Rightarrow> quote_error + 'a" where
  "bind_get r k = (case r of Inl e \<Rightarrow> Inl (Message e) | Inr j \<Rightarrow> k (Some j))"

definition missing :: "jval \<Rightarrow> bool" where
  "missing v \<longleftrightarrow> nullish v \<or> v = Some (JStr [])"

definition usd_quote :: "jval \<Rightarrow> string \<Rightarrow> quote" where
  "usd_quote v source =
     \<lparr> q_value = to_string v, q_label = CHR ''$'' # to_string v, q_source = source, q_kind = ''usd'' \<rparr>"

definition KRAKEN_TICKER :: string where "KRAKEN_TICKER = ''https://api.kraken.com/0/public/Ticker?pair=''"
definition KRAKEN_FUT :: string where "KRAKEN_FUT = ''https://futures.kraken.com/derivatives/api/v3/tickers''"
definition JUP_PRICE :: string where "JUP_PRICE = ''https://lite-api.jup.ag/price/v3?ids=''"
definition IRE_STATUS :: string where "IRE_STATUS = ''/rpc/status''"
definition IRE_MEMPOOL :: string where "IRE_MEMPOOL = ''/rpc/unconfirmed_txs''"
definition VOLT_BANK :: string where
  "VOLT_BANK = ''/api/cosmos/bank/v1beta1/balances/ire1jv65s3grqf6v6jl3dp4t6c9t9rk99cd8nanfuy''"
definition VOLT_DIST :: string where "VOLT_DIST = ''/api/cosmos/distribution/v1beta1/params''"
definition BLOCKSCOUT_TOKEN :: string where
  "BLOCKSCOUT_TOKEN = ''https://robinhoodchain.blockscout.com/api/v2/tokens/0x9F7A3ADbF611cBeeC95Ce40e0259bbF96b8Df041''"
definition BLOCKSCOUT_NINJA :: string where
  "BLOCKSCOUT_NINJA = ''https://robinhoodchain.blockscout.com/api/v2/tokens/0x5Ce837Cf242e763F9b0E9A87AA7907C3F5DD083C''"
definition DEXSCREENER :: string where "DEXSCREENER = ''https://api.dexscreener.com/latest/dex/search?q=''"

text \<open>
  \<open>Object.keys(v)[0]\<close> with its value.  Property names that are array indices would come
  first in an object; ticker names are not.
\<close>

definition first_entry :: "json \<Rightarrow> (string \<times> jval) option" where
  "first_entry v =
     (case v of
        JObj kvs \<Rightarrow> (case kvs of [] \<Rightarrow> None | (k, _) # _ \<Rightarrow> Some (k, fld (Some v) k))
      | JArr js \<Rightarrow> (case js of [] \<Rightarrow> None | j # _ \<Rightarrow> Some (''0'', Some j))
      | JStr s \<Rightarrow> (case s of [] \<Rightarrow> None | c # _ \<Rightarrow> Some (''0'', Some (JStr [c])))
      | _ \<Rightarrow> None)"

text \<open>\<open>v[0]\<close>.\<close>

definition at_0 :: "jval \<Rightarrow> jval" where
  "at_0 v =
     (case v of
        Some (JArr (j # _)) \<Rightarrow> Some j
      | Some (JStr (c # _)) \<Rightarrow> Some (JStr [c])
      | _ \<Rightarrow> fld v ''0'')"

definition elems :: "jval \<Rightarrow> json list" where
  "elems v = (case v of Some (JArr js) \<Rightarrow> js | _ \<Rightarrow> [])"

definition kraken_error :: "jval \<Rightarrow> quote_error option" where
  "kraken_error data =
     (case fld data ''error'' of
        Some (JArr (e # es)) \<Rightarrow> Some (Message (join '', '' (map (\<lambda>j. if j = JNull then [] else json_str j) (e # es))))
      | Some (JStr (c # cs)) \<Rightarrow> Some Type_error
      | Some (JObj kvs) \<Rightarrow> if truthy (fld (Some (JObj kvs)) ''length'') then Some Type_error else None
      | _ \<Rightarrow> None)"

definition quoteKrakenSpot :: "fetcher \<Rightarrow> string \<Rightarrow> quote_error + quote" where
  "quoteKrakenSpot get p =
     bind_get (get (KRAKEN_TICKER @ encodeURIComponent p)) (\<lambda>data.
       case kraken_error data of
         Some e \<Rightarrow> Inl e
       | None \<Rightarrow>
           let result = (if truthy (fld data ''result'') then fld data ''result'' else Some (JObj [])) in
           (case Option.bind result first_entry of
              None \<Rightarrow> Inl (Message ''no ticker'')
            | Some (k, row) \<Rightarrow>
                let c = fld row ''c''; latest = and_then c (at_0 c) in
                if missing latest then Inl (Message ''no last'')
                else Inr (usd_quote latest (''kraken-public-ticker:'' @ k))))"

definition quoteKrakenFut :: "fetcher \<Rightarrow> string \<Rightarrow> quote_error + quote" where
  "quoteKrakenFut get p =
     bind_get (get KRAKEN_FUT) (\<lambda>data.
       case find (\<lambda>t. fld (Some t) ''symbol'' = Some (JStr p)) (elems (fld data ''tickers'')) of
         None \<Rightarrow> Inl (Message ''no futures ticker'')
       | Some row \<Rightarrow>
           let latest = (if nullish (fld (Some row) ''last'') then fld (Some row) ''markPrice'' else fld (Some row) ''last'') in
           if missing latest then Inl (Message ''no last'')
           else Inr (usd_quote latest (''kraken-futures:'' @ p)))"

definition quoteJupiter :: "fetcher \<Rightarrow> skill \<Rightarrow> quote_error + quote" where
  "quoteJupiter get s =
     (case sk_ticker s of
        Plain mint \<Rightarrow>
          if mint = [] then Inl (Message ''no mint'')
          else bind_get (get (JUP_PRICE @ encodeURIComponent mint)) (\<lambda>data.
            let row = (if truthy (fld data mint) then fld data mint
                       else if truthy (fld data ''data'') \<and> truthy (fld (fld data ''data'') mint)
                       then fld (fld data ''data'') mint else None);
                price = (if nullish (fld row ''usdPrice'') then fld row ''price'' else fld row ''usdPrice'')
            in if missing price then Inl (Message ''no price'')
               else Inr (usd_quote price (''jup-lite-v3:'' @ sk_pair s)))
      | _ \<Rightarrow> Inl (Message ''no mint''))"

definition count_or_txs :: "jval \<Rightarrow> jval" where
  "count_or_txs mem =
     (let result = fld mem ''result'' in
      if \<not> nullish (fld result ''n_txs'') then fld result ''n_txs''
      else if truthy (fld result ''txs'')
      then (case fld result ''txs'' of
              Some (JArr js) \<Rightarrow> Some (JNum (fin_int (int (length js))))
            | Some (JStr t) \<Rightarrow> Some (JNum (fin_int (int (length t))))
            | v \<Rightarrow> fld v ''length'')
      else None)"

definition quoteIreRpc :: "fetcher \<Rightarrow> skill \<Rightarrow> quote_error + quote" where
  "quoteIreRpc get s =
     (if sk_action s = ''mempool-watch'' \<or> sk_pair s = ''unconfirmed-txs'' \<or> sk_pair s = ''ire-1-mempool''
      then bind_get (get IRE_MEMPOOL) (\<lambda>mem.
        let n = count_or_txs mem in
        if nullish n then Inl (Message ''no mempool'')
        else Inr \<lparr> q_value = to_string n, q_label = to_string n @ '' unconfirmed txs (ire-1 testnet)'',
               q_source = ''ire-rpc/unconfirmed_txs'', q_kind = ''count'' \<rparr>)
      else bind_get (get IRE_STATUS) (\<lambda>data.
        let result = fld data ''result''; sync = fld result ''sync_info'';
            height = and_then data (and_then result (and_then sync (fld sync ''latest_block_height''))) in
        if missing height then Inl (Message ''no height'')
        else Inr \<lparr> q_value = to_string height, q_label = ''ire-1 height '' @ to_string height @ '' (testnet)'',
               q_source = ''ire-rpc/status'', q_kind = ''height'' \<rparr>))"

definition CODEX_KRAKEN :: "(string \<times> string) list" where
  "CODEX_KRAKEN =
     [(''ETH'', ''ETHUSD''), (''BTC'', ''XBTUSD''), (''SOL'', ''SOLUSD''), (''UNI'', ''UNIUSD''), (''LINK'', ''LINKUSD''),
      (''AAVE'', ''AAVEUSD''), (''ARB'', ''ARBUSD''), (''OP'', ''OPUSD''), (''SUI'', ''SUIUSD''), (''APT'', ''APTUSD''),
      (''AVAX'', ''AVAXUSD''), (''DOT'', ''DOTUSD''), (''ATOM'', ''ATOMUSD''), (''NEAR'', ''NEARUSD''), (''FIL'', ''FILUSD'')]"

definition first_priced :: "jval \<Rightarrow> json option" where
  "first_priced data = find (\<lambda>p. truthy (fld (Some p) ''priceUsd'')) (elems (fld data ''pairs''))"

definition quoteCodex :: "fetcher \<Rightarrow> string \<Rightarrow> quote_error + quote" where
  "quoteCodex get p =
     (case map_of CODEX_KRAKEN (to_upper p) of
        Some k \<Rightarrow>
          map_sum (\<lambda>e. e) (\<lambda>q. q\<lparr> q_source := ''kraken-public-fallback:'' @ p @ '' (codex desk)'' \<rparr>) (quoteKrakenSpot get k)
      | None \<Rightarrow>
          bind_get (get (DEXSCREENER @ encodeURIComponent p)) (\<lambda>data.
            case first_priced data of
              None \<Rightarrow> Inl (Message ''no public mark for codex desk pair'')
            | Some row \<Rightarrow>
                let sym = fld (fld (Some row) ''baseToken'') ''symbol'' in
                Inr (usd_quote (fld (Some row) ''priceUsd'')
                  (''dexscreener-fallback:'' @ (if truthy sym then to_string sym else p)))))"

definition quoteBlockscout :: "fetcher \<Rightarrow> string \<Rightarrow> string \<Rightarrow> quote_error + quote" where
  "quoteBlockscout get p url =
     (case get url of
        Inl err \<Rightarrow>
          bind_get (get (DEXSCREENER @ encodeURIComponent (or_str p ''ETH''))) (\<lambda>dex.
            case first_priced dex of
              None \<Rightarrow> Inl (Message (or_str err ''blockscout unavailable'' @ ''; no dexscreener fallback''))
            | Some row \<Rightarrow> Inr (usd_quote (fld (Some row) ''priceUsd'') (''dexscreener-fallback:'' @ p)))
      | Inr j \<Rightarrow>
          let data = Some j; rate = fld data ''exchange_rate'';
              holders = (if nullish (fld data ''holders_count'') then fld data ''holders'' else fld data ''holders_count'');
              supply = fld data ''total_supply''
          in if \<not> missing rate \<and> (case to_number rate of Fin r \<Rightarrow> r > 0 | _ \<Rightarrow> False)
             then Inr \<lparr> q_value = to_string rate,
               q_label = CHR ''$'' # to_string rate @ '' Blockscout exchange_rate (public quote, not a claimed NFT floor)'',
               q_source = ''blockscout:'' @ p, q_kind = ''usd'' \<rparr>
             else if \<not> missing holders
             then Inr \<lparr> q_value = to_string holders,
               q_label = to_string holders @ '' holders on Robinhood Chain Blockscout (public, not a USD quote)'',
               q_source = ''blockscout-holders:'' @ p, q_kind = ''count'' \<rparr>
             else if \<not> missing supply
             then Inr \<lparr> q_value = to_string supply,
               q_label = ''total_supply '' @ to_string supply @ '' (Blockscout public)'',
               q_source = ''blockscout-supply:'' @ p, q_kind = ''count'' \<rparr>
             else Inl (Message ''no exchange_rate / holders / supply''))"

definition find_coin :: "json list \<Rightarrow> jval" where
  "find_coin coins =
     (case find (\<lambda>c. fld (Some c) ''denom'' = Some (JStr ''uire'')) coins of
        Some c \<Rightarrow> fld (Some c) ''amount'' | None \<Rightarrow> None)"

definition quoteVolt :: "fetcher \<Rightarrow> string \<Rightarrow> quote_error + quote" where
  "quoteVolt get p =
     (if p = ''community_tax'' \<or> p = ''fee-split'' \<or> p = ''genesis-tax''
      then bind_get (get VOLT_DIST) (\<lambda>dist.
        let tax = and_then dist (fld (or_else (fld dist ''params'') dist) ''community_tax'') in
        if missing tax then Inl (Message ''no community_tax'')
        else Inr \<lparr> q_value = to_string tax, q_label = ''community_tax '' @ to_string tax @ '' (ire-1 testnet)'',
               q_source = ''ire-lcd/distribution/params'', q_kind = ''ratio'' \<rparr>)
      else bind_get (get VOLT_BANK) (\<lambda>bank.
        let uire = find_coin (elems (fld bank ''balances'')) in
        if nullish uire then Inl (Message ''no uire'')
        else Inr \<lparr> q_value = to_string uire, q_label = to_string uire @ '' uire at Volt (ire-1 testnet, not USD)'',
               q_source = ''ire-lcd/bank/volt'', q_kind = ''balance'' \<rparr>))"

definition fetchSkillQuote :: "fetcher \<Rightarrow> skill \<Rightarrow> quote_error + quote" where
  "fetchSkillQuote get s =
     (let d = sk_deskId s; p = sk_pair s in
      if d = ''kraken-spot'' then quoteKrakenSpot get p
      else if d = ''kraken-fut'' then quoteKrakenFut get p
      else if d = ''phantom-sol'' then quoteJupiter get s
      else if d = ''ire-rpc'' then quoteIreRpc get s
      else if d = ''codex-read'' then quoteCodex get p
      else if d = ''rh-blockscout'' then quoteBlockscout get p BLOCKSCOUT_TOKEN
      else if d = ''combat-dea'' then quoteBlockscout get p BLOCKSCOUT_NINJA
      else if d = ''ire-volt'' then quoteVolt get p
      else Inl (Message ''unknown desk''))"

section \<open>Tickets\<close>

definition round8 :: "rat \<Rightarrow> string" where
  "round8 x = num_str (Fin (of_int \<lfloor>x * 100000000 + 1 / 2\<rfloor> / 100000000))"

definition gridLevels :: "string \<Rightarrow> string list option" where
  "gridLevels price =
     (case str_number price of
        Fin p \<Rightarrow>
          if p \<le> 0 then None
          else Some [round8 (p * (98 / 100)), round8 (p * (99 / 100)), round8 p, round8 (p * (101 / 100)),
            round8 (p * (102 / 100))]
      | _ \<Rightarrow> None)"

record blot =
  b_ts :: string
  b_pair :: string
  b_value :: string
  b_label :: string
  b_source :: string
  b_kind :: string
  b_skillId :: string

record ticket =
  t_tokenId :: nat
  t_skill :: skill
  t_mark :: quote
  recommendation :: "string list"
  grid :: "string list option"
  changePct :: "jsnum option"
  t_ts :: string

definition usd_value :: "quote \<Rightarrow> rat option" where
  "usd_value q =
     (case str_number (q_value q) of Fin v \<Rightarrow> if q_kind q = ''usd'' \<and> v > 0 then Some v else None | _ \<Rightarrow> None)"

text \<open>The move of the mark against an earlier one, in percent, and how it is shown.\<close>

definition positive :: "jsnum \<Rightarrow> bool" where
  "positive n = (case n of Fin r \<Rightarrow> r > 0 | PosInf \<Rightarrow> True | _ \<Rightarrow> False)"

definition move_pct :: "rat \<Rightarrow> jsnum \<Rightarrow> jsnum" where
  "move_pct v n = (case n of Fin u \<Rightarrow> dbl ((v - u) / u * 100) | _ \<Rightarrow> NaN)"

definition at_most :: "jsnum \<Rightarrow> rat \<Rightarrow> bool" where
  "at_most n k = (case n of Fin r \<Rightarrow> r \<le> k | NegInf \<Rightarrow> True | _ \<Rightarrow> False)"

definition fixed_num :: "nat \<Rightarrow> jsnum \<Rightarrow> string" where
  "fixed_num k n = (case n of Fin r \<Rightarrow> to_fixed k r | _ \<Rightarrow> num_str n)"

definition NEED_SECOND :: string where
  "NEED_SECOND = ''Need a second public quote in the blotter before drawdown % is available.''"

definition bar_list :: "string list \<Rightarrow> string" where "bar_list = join ('' '' @ mid_dot @ '' '')"

definition buildBrokerTicket :: "nat \<Rightarrow> skill \<Rightarrow> quote \<Rightarrow> blot list \<Rightarrow> string \<Rightarrow> ticket" where
  "buildBrokerTicket i s q quotes now =
     (let label = or_str (q_label q) (q_value q);
          t = \<lparr> t_tokenId = i, t_skill = s, t_mark = q\<lparr> q_label := label \<rparr>, recommendation = [],
                grid = None, changePct = None, t_ts = now \<rparr>;
          usd = usd_value q; a = sk_action s
      in if a = ''grid-plan'' \<and> usd \<noteq> None then
           t\<lparr> recommendation :=
                [''Grid plan from live public mark '' @ label,
                 ''Levels: '' @ (case gridLevels (q_value q) of Some g \<Rightarrow> bar_list g | None \<Rightarrow> ''n/a''),
                 ''Owner may place these as limit ideas on their own venue '' @ em_dash @ '' this page does not place them.''],
              grid := gridLevels (q_value q) \<rparr>
         else if a = ''dca-plan'' \<and> usd \<noteq> None then
           t\<lparr> recommendation :=
                [''DCA plan anchored to live mark '' @ label,
                 ''Suggested slices: 4 buys over '' @ sk_timeframe s @ '' (idea only)'',
                 ''Size each slice yourself '' @ em_dash @ '' broker ticket has no notional authority.''] \<rparr>
         else if a = ''drawdown-check'' then
           (case (usd, quotes) of
              (Some v, _ # prev # _) \<Rightarrow>
                let u = str_number (b_value prev); pct = move_pct v u in
                if positive u then
                  t\<lparr> recommendation :=
                       [''Mark move vs last stored public quote: '' @ fixed_num 2 pct @ ''%'',
                        (if at_most pct (- 3) then ''Desk flag: mark is soft vs prior quote '' @ em_dash @ '' review risk before signing size.''
                         else ''Desk flag: no hard drawdown vs prior stored quote.''),
                        ''This is quote-to-quote change, not realized PnL.''],
                     changePct := Some pct \<rparr>
                else t\<lparr> recommendation := [NEED_SECOND] \<rparr>
            | _ \<Rightarrow> t\<lparr> recommendation := [NEED_SECOND] \<rparr>)
         else if a = ''funding-scan'' then
           t\<lparr> recommendation :=
                [''Funding / stats read: '' @ label @ '' from '' @ q_source q,
                 ''Watch '' @ sk_pair s @ '' on '' @ sk_venue s @ '' for the next '' @ sk_timeframe s,
                 ''No invented funding rate '' @ em_dash @ '' only what the public API returned.''] \<rparr>
         else if a = ''mempool-watch'' \<or> a = ''snapshot'' then
           t\<lparr> recommendation :=
                [''Desk snapshot: '' @ label, ''Source '' @ q_source q,
                 ''Log this mark and re-run the desk before any owner-signed live intent.''] \<rparr>
         else if a = ''clock-in-helper'' then
           t\<lparr> recommendation :=
                [''Clock-in helper mark: '' @ label,
                 ''Use this public reading when you prepare an owner-signed clock-in / intent.'',
                 ''Broker does not broadcast the clock-in for you.''] \<rparr>
         else if a = ''scan'' then
           t\<lparr> recommendation :=
                [''Market scan mark: '' @ sk_pair s @ '' = '' @ label,
                 ''Risk band: '' @ sk_risk s @ '' '' @ mid_dot @ '' timeframe '' @ sk_timeframe s,
                 ''Scan complete '' @ em_dash @ '' sign the ticket to stamp this desk run on-record.''] \<rparr>
         else
           t\<lparr> recommendation :=
                [sk_role s @ '' complete for '' @ sk_pair s @ '': '' @ label, sk_does s,
                 ''Sign the ticket to authorize this desk run (not a swap).''] \<rparr>)"

section \<open>The blotter and a desk run\<close>

text \<open>
  What a broker keeps: the stored quotes, latest first, the stored and the shown ticket, and
  the line of its mark.
\<close>

record desk_state =
  d_quotes :: "blot list"
  d_ticket :: "ticket option"
  d_shown :: "ticket option"
  d_mark :: string
  d_extra :: string
  d_offline :: "string option"

definition error_text :: "quote_error \<Rightarrow> string" where
  "error_text e = (case e of Message m \<Rightarrow> m | Type_error \<Rightarrow> [])"

definition quote_extra :: "skill \<Rightarrow> quote \<Rightarrow> blot list \<Rightarrow> string" where
  "quote_extra s q quotes =
     (if sk_action s = ''grid-plan'' \<and> q_kind q = ''usd'' then
        (case gridLevels (q_value q) of
           Some g \<Rightarrow> ''Grid from live public quote (not orders): '' @ bar_list g
         | None \<Rightarrow> [])
      else if sk_action s = ''drawdown-check'' then
        (case quotes of
           _ # prev # _ \<Rightarrow>
             let u = str_number (b_value prev) in
             (case str_number (q_value q) of
                Fin v \<Rightarrow>
                  if q_kind q = ''usd'' \<and> positive u
                  then ''Change vs last stored public quote: '' @ fixed_num 2 (move_pct v u) @ ''% (from published quotes, not PnL).''
                  else ''Prior quote is not a USD mark '' @ em_dash @ '' no drawdown %.''
              | _ \<Rightarrow> ''Prior quote is not a USD mark '' @ em_dash @ '' no drawdown %.'')
         | _ \<Rightarrow> ''No prior public quote stored '' @ em_dash @ '' no drawdown number.'')
      else if sk_action s = ''dca-plan'' then
        ''DCA plan uses this public quote as the mark. This page does not buy and does not invent fills.''
      else [])"

definition stored_quote :: "skill \<Rightarrow> string \<Rightarrow> quote \<Rightarrow> blot" where
  "stored_quote s now q =
     \<lparr> b_ts = now, b_pair = sk_pair s, b_value = q_value q, b_label = or_str (q_label q) (q_value q),
       b_source = q_source q, b_kind = q_kind q, b_skillId = skillId s \<rparr>"

definition onPaper :: "fetcher \<Rightarrow> nat \<Rightarrow> skill \<Rightarrow> string \<Rightarrow> desk_state \<Rightarrow> desk_state" where
  "onPaper get i s now st =
     (case fetchSkillQuote get s of
        Inl e \<Rightarrow> st\<lparr> d_mark := ''quote unavailable'',
          d_offline := Some (''quote unavailable for '' @ sk_pair s @ '' @ '' @ sk_venue s @
            ''. This page will not invent a number. '' @ error_text e) \<rparr>
      | Inr q \<Rightarrow>
          let entry = stored_quote s now q;
              quotes = take 40 (entry # d_quotes st);
              t = buildBrokerTicket i s q quotes now
          in \<lparr> d_quotes = quotes, d_ticket = Some t, d_shown = Some t,
               d_mark = ''Public quote '' @ sk_pair s @ '' @ '' @ sk_venue s @ '' = '' @ b_label entry @ '' '' @ mid_dot @ '' '' @
                 q_source q @ '' '' @ mid_dot @ '' not a fill'',
               d_extra = quote_extra s q quotes, d_offline = None \<rparr>)"

definition reread :: "blot \<Rightarrow> quote" where
  "reread b = \<lparr> q_value = b_value b, q_label = b_label b, q_source = b_source b, q_kind = b_kind b \<rparr>"

definition runBrokerDesk :: "fetcher \<Rightarrow> nat \<Rightarrow> skill \<Rightarrow> string \<Rightarrow> string \<Rightarrow> desk_state \<Rightarrow> desk_state" where
  "runBrokerDesk get i s now later st0 =
     (let st = onPaper get i s now (st0\<lparr> d_offline := None, d_extra := [] \<rparr>) in
      case d_quotes st of
        [] \<Rightarrow> st\<lparr> d_shown := None \<rparr>
      | b # _ \<Rightarrow>
          let t = buildBrokerTicket i s (reread b) (d_quotes st) later
          in st\<lparr> d_ticket := Some t, d_shown := Some t \<rparr>)"

text \<open>A first visit, and what a sequence of runs leaves: by hand or by the heartbeat, each with its replies and times.\<close>

definition desk_start :: desk_state where
  "desk_start = \<lparr> d_quotes = [], d_ticket = None, d_shown = None, d_mark = [], d_extra = [], d_offline = None \<rparr>"

fun desk_runs :: "nat \<Rightarrow> skill \<Rightarrow> (fetcher \<times> string \<times> string) list \<Rightarrow> desk_state \<Rightarrow> desk_state" where
  "desk_runs i s [] st = st"
| "desk_runs i s ((get, now, later) # rs) st = desk_runs i s rs (runBrokerDesk get i s now later st)"

section \<open>Quotes are published values\<close>

text \<open>The parts of a parsed body: its elements, members and characters.\<close>

inductive inside :: "json \<Rightarrow> json \<Rightarrow> bool" where
  self: "inside v v"
| elem: "inside v j \<Longrightarrow> j \<in> set js \<Longrightarrow> inside v (JArr js)"
| member: "inside v j \<Longrightarrow> (k, j) \<in> set kvs \<Longrightarrow> inside v (JObj kvs)"
| char: "c \<in> set s \<Longrightarrow> inside (JStr [c]) (JStr s)"

inductive_cases inside_StrE: "inside v (JStr s)"

lemma inside_trans: "inside w j \<Longrightarrow> inside v w \<Longrightarrow> inside v j"
proof (induction rule: inside.induct)
  case (char c s)
  then show ?case by (auto elim!: inside_StrE intro: inside.char)
qed (auto intro: inside.elem inside.member)

lemma inside_parts:
  "inside (JArr js) j \<Longrightarrow> c \<in> set js \<Longrightarrow> inside c j"
  "inside (JObj kvs) j \<Longrightarrow> (k, c) \<in> set kvs \<Longrightarrow> inside c j"
  "inside (JStr s) j \<Longrightarrow> x \<in> set s \<Longrightarrow> inside (JStr [x]) j"
  by (erule inside_trans; blast intro: inside.intros)+

lemma inside_hd:
  "inside (JArr (c # js)) j \<Longrightarrow> inside c j"
  "inside (JStr (x # s)) j \<Longrightarrow> inside (JStr [x]) j"
  by (rule inside_parts, assumption, simp)+

definition part_of :: "json \<Rightarrow> jval \<Rightarrow> bool" where
  "part_of j v \<longleftrightarrow> (case v of None \<Rightarrow> True | Some w \<Rightarrow> inside w j)"

named_theorems part_rules \<open>ways of reading that stay inside a body\<close>

lemma part_Some [part_rules]: "inside w j \<Longrightarrow> part_of j (Some w)"
  by (simp add: part_of_def)

lemma part_None [part_rules]: "part_of j None"
  by (simp add: part_of_def)

lemma part_fld [part_rules]: "part_of j v \<Longrightarrow> part_of j (fld v k)"
proof (cases "(v, k)" rule: fld.cases)
  case (1 kvs k')
  assume "part_of j v"
  then have o: "inside (JObj kvs) j" using 1 by (simp add: part_of_def)
  show ?thesis
  proof (cases "map_of (rev kvs) k")
    case (Some w)
    then have "(k, w) \<in> set kvs" by (auto dest: map_of_SomeD)
    then have "inside w (JObj kvs)" by (auto intro: inside.intros)
    then show ?thesis using 1 Some o by (auto simp: part_of_def intro: inside_trans)
  qed (use 1 in \<open>simp add: part_of_def\<close>)
qed (simp_all add: part_of_def)

lemma part_at_0 [part_rules]: "part_of j v \<Longrightarrow> part_of j (at_0 v)"
proof (cases v)
  case (Some w)
  assume v: "part_of j v"
  then have w: "inside w j" using Some by (simp add: part_of_def)
  have f: "part_of j (fld v ''0'')" using v by (rule part_fld)
  show ?thesis
  proof (cases w)
    case (JArr js)
    with w f Some show ?thesis by (cases js) (auto simp: at_0_def part_of_def intro: inside_parts)
  next
    case (JStr s)
    with w f Some show ?thesis by (cases s) (auto simp: at_0_def part_of_def intro: inside_parts)
  qed (use f Some in \<open>simp_all add: at_0_def\<close>)
qed (simp add: at_0_def part_of_def)

lemma part_and_then [part_rules]: "part_of j v \<Longrightarrow> part_of j w \<Longrightarrow> part_of j (and_then v w)"
  by (simp add: and_then_def)

lemma part_or_else [part_rules]: "part_of j v \<Longrightarrow> part_of j w \<Longrightarrow> part_of j (or_else v w)"
  by (simp add: or_else_def)

lemma part_if [part_rules]: "part_of j v \<Longrightarrow> part_of j w \<Longrightarrow> part_of j (if b then v else w)"
  by simp

lemma part_elem: "part_of j v \<Longrightarrow> c \<in> set (elems v) \<Longrightarrow> inside c j"
  by (auto simp: elems_def part_of_def intro: inside_parts split: option.splits json.splits)

lemma part_found: "part_of j v \<Longrightarrow> find P (elems v) = Some c \<Longrightarrow> inside c j"
  by (rule part_elem) (auto simp: find_Some_iff)

lemma part_first_entry:
  "part_of j v \<Longrightarrow> Option.bind v first_entry = Some (k, row) \<Longrightarrow> part_of j row"
proof (cases v)
  case (Some w)
  assume v: "part_of j v" and e: "Option.bind v first_entry = Some (k, row)"
  then have w: "inside w j" using Some by (simp add: part_of_def)
  have f: "part_of j (fld v k)" using v by (rule part_fld)
  show ?thesis
    using e w f Some
    by (cases w) (auto simp: first_entry_def part_of_def intro: inside_hd split: list.splits prod.splits)
qed simp

text \<open>
  A quoted text: a value inside the reply of some address, or the length of a list or a
  text inside it, printed as JavaScript prints it.
\<close>

definition sized :: "json \<Rightarrow> nat \<Rightarrow> bool" where
  "sized v n \<longleftrightarrow> (case v of JArr js \<Rightarrow> n = length js | JStr s \<Rightarrow> n = length s | _ \<Rightarrow> False)"

definition published :: "fetcher \<Rightarrow> string \<Rightarrow> bool" where
  "published get t \<longleftrightarrow> (\<exists>url j v. get url = Inr j \<and> inside v j \<and>
     (t = json_str v \<or> (\<exists>n. sized v n \<and> t = json_str (JNum (fin_int (int n))))))"

lemma publishedI: "get url = Inr j \<Longrightarrow> part_of j v \<Longrightarrow> v \<noteq> None \<Longrightarrow> published get (to_string v)"
  by (auto simp: published_def part_of_def to_string_def split: option.splits)

lemma not_missing: "\<not> missing v \<Longrightarrow> v \<noteq> None" "\<not> nullish v \<Longrightarrow> v \<noteq> None" "truthy v \<Longrightarrow> v \<noteq> None"
  by (cases v; auto simp: missing_def)+

lemma bind_get_Inr: "bind_get r k = Inr q \<Longrightarrow> \<exists>j. r = Inr j \<and> k (Some j) = Inr q"
  by (simp add: bind_get_def split: sum.splits)

lemma part_body [part_rules]: "part_of j (Some j)"
  by (simp add: part_of_def inside.self)

lemma usd_quote_value [simp]: "q_value (usd_quote v s) = to_string v"
  by (simp add: usd_quote_def)

lemma spot_published: "quoteKrakenSpot get p = Inr q \<Longrightarrow> published get (q_value q)"
proof -
  assume "quoteKrakenSpot get p = Inr q"
  then obtain j where j: "get (KRAKEN_TICKER @ encodeURIComponent p) = Inr j"
    and q: "(case kraken_error (Some j) of Some e \<Rightarrow> Inl e | None \<Rightarrow>
           let result = (if truthy (fld (Some j) ''result'') then fld (Some j) ''result'' else Some (JObj [])) in
           (case Option.bind result first_entry of
              None \<Rightarrow> Inl (Message ''no ticker'')
            | Some (k, row) \<Rightarrow>
                let c = fld row ''c''; latest = and_then c (at_0 c) in
                if missing latest then Inl (Message ''no last'')
                else Inr (usd_quote latest (''kraken-public-ticker:'' @ k)))) = Inr q"
    unfolding quoteKrakenSpot_def by (auto dest: bind_get_Inr)
  let ?r = "if truthy (fld (Some j) ''result'') then fld (Some j) ''result'' else Some (JObj [])"
  from q obtain k row where e: "Option.bind ?r first_entry = Some (k, row)"
    and nm: "\<not> missing (and_then (fld row ''c'') (at_0 (fld row ''c'')))"
    and v: "q_value q = to_string (and_then (fld row ''c'') (at_0 (fld row ''c'')))"
    by (auto simp: Let_def split: option.splits prod.splits if_splits)
  have "truthy (fld (Some j) ''result'')"
    using e by (rule contrapos_pp) (simp add: first_entry_def)
  then have "part_of j ?r" by (simp add: part_rules)
  then have "part_of j row" using e by (rule part_first_entry)
  then show ?thesis
    unfolding v by (intro publishedI [where get = get, OF j] part_rules not_missing(1) nm)
qed

lemma found_part: "part_of j v \<Longrightarrow> find P (elems v) = Some c \<Longrightarrow> part_of j (Some c)"
  by (simp add: part_Some part_found)

lemma fut_published: "quoteKrakenFut get p = Inr q \<Longrightarrow> published get (q_value q)"
proof -
  assume "quoteKrakenFut get p = Inr q"
  then obtain j row where j: "get KRAKEN_FUT = Inr j"
    and row: "find (\<lambda>t. fld (Some t) ''symbol'' = Some (JStr p)) (elems (fld (Some j) ''tickers'')) = Some row"
    and nm: "\<not> missing (if nullish (fld (Some row) ''last'') then fld (Some row) ''markPrice'' else fld (Some row) ''last'')"
    and v: "q_value q = to_string (if nullish (fld (Some row) ''last'') then fld (Some row) ''markPrice'' else fld (Some row) ''last'')"
    unfolding quoteKrakenFut_def by (auto dest!: bind_get_Inr split: option.splits if_splits simp: Let_def)
  have r: "part_of j (Some row)" by (rule found_part [OF _ row]) (intro part_rules)
  show ?thesis unfolding v by (intro publishedI [where get = get, OF j] r part_rules not_missing(1) nm)
qed

lemma jupiter_published: "quoteJupiter get s = Inr q \<Longrightarrow> published get (q_value q)"
proof -
  assume q: "quoteJupiter get s = Inr q"
  then obtain mint where "sk_ticker s = Plain mint" "mint \<noteq> []"
    by (auto simp: quoteJupiter_def split: ticker.splits if_splits)
  with q obtain j row where j: "get (JUP_PRICE @ encodeURIComponent mint) = Inr j"
    and row: "row = (if truthy (fld (Some j) mint) then fld (Some j) mint
                       else if truthy (fld (Some j) ''data'') \<and> truthy (fld (fld (Some j) ''data'') mint)
                       then fld (fld (Some j) ''data'') mint else None)"
    and nm: "\<not> missing (if nullish (fld row ''usdPrice'') then fld row ''price'' else fld row ''usdPrice'')"
    and v: "q_value q = to_string (if nullish (fld row ''usdPrice'') then fld row ''price'' else fld row ''usdPrice'')"
    unfolding quoteJupiter_def by (auto dest!: bind_get_Inr split: if_splits simp: Let_def)
  have r: "part_of j row" unfolding row by (intro part_rules)
  show ?thesis unfolding v by (intro publishedI [where get = get, OF j] r part_rules not_missing(1) nm)
qed

lemma sized_count:
  "inside w j \<Longrightarrow> sized w n \<Longrightarrow> \<exists>w. inside w j \<and> (\<exists>m. sized w m \<and> Some (JNum (fin_int (int n))) = Some (JNum (fin_int (int m))))"
  by blast

lemma count_part: "part_of j v \<Longrightarrow>
    part_of j (count_or_txs v) \<or>
    (\<exists>w. inside w j \<and> (\<exists>n. sized w n \<and> count_or_txs v = Some (JNum (fin_int (int n)))))"
proof -
  assume v: "part_of j v"
  have r: "part_of j (fld v ''result'')" by (rule part_fld [OF v])
  have n: "part_of j (fld (fld v ''result'') ''n_txs'')" by (rule part_fld [OF r])
  have l: "part_of j (fld (fld (fld v ''result'') ''txs'') ''length'')" by (intro part_fld r)
  show ?thesis
  proof (cases "fld (fld v ''result'') ''txs''")
    case (Some w)
    with part_fld [OF r, of "''txs''"] have w: "inside w j" by (simp add: part_of_def)
    show ?thesis
    proof (cases w)
      case (JArr js)
      then show ?thesis using n w Some part_None sized_count [OF w, of "length js"]
        by (simp add: count_or_txs_def Let_def sized_def)
    next
      case (JStr t)
      then show ?thesis using n w Some part_None sized_count [OF w, of "length t"]
        by (simp add: count_or_txs_def Let_def sized_def)
    qed (use n l Some part_None in \<open>simp_all add: count_or_txs_def Let_def\<close>)
  qed (use n part_None in \<open>simp add: count_or_txs_def Let_def\<close>)
qed

lemma to_string_Some [simp]: "to_string (Some v) = json_str v"
  by (simp add: to_string_def)

lemma published_size:
  "get url = Inr j \<Longrightarrow> inside w j \<Longrightarrow> sized w n \<Longrightarrow> published get (num_str (fin_int (int n)))"
  by (auto simp: published_def)

lemma rpc_published: "quoteIreRpc get s = Inr q \<Longrightarrow> published get (q_value q)"
proof (cases "sk_action s = ''mempool-watch'' \<or> sk_pair s = ''unconfirmed-txs'' \<or> sk_pair s = ''ire-1-mempool''")
  case True
  assume "quoteIreRpc get s = Inr q"
  then obtain j where j: "get IRE_MEMPOOL = Inr j" and nn: "\<not> nullish (count_or_txs (Some j))"
    and v: "q_value q = to_string (count_or_txs (Some j))"
    using True unfolding quoteIreRpc_def by (auto dest!: bind_get_Inr split: if_splits simp: Let_def)
  from count_part [OF part_body] show ?thesis
  proof
    assume "part_of j (count_or_txs (Some j))"
    then show ?thesis unfolding v by (intro publishedI [where get = get, OF j] not_missing(2) nn)
  next
    assume "\<exists>w. inside w j \<and> (\<exists>n. sized w n \<and> count_or_txs (Some j) = Some (JNum (fin_int (int n))))"
    then show ?thesis unfolding v by (auto intro: published_size [where get = get, OF j])
  qed
next
  case False
  assume "quoteIreRpc get s = Inr q"
  then obtain j h where j: "get IRE_STATUS = Inr j"
    and h: "h = and_then (Some j) (and_then (fld (Some j) ''result'') (and_then (fld (fld (Some j) ''result'') ''sync_info'')
      (fld (fld (fld (Some j) ''result'') ''sync_info'') ''latest_block_height'')))"
    and nm: "\<not> missing h" and v: "q_value q = to_string h"
    using False unfolding quoteIreRpc_def by (auto dest!: bind_get_Inr split: if_splits simp: Let_def)
  show ?thesis unfolding v
    by (rule publishedI [where get = get, OF j _ not_missing(1) [OF nm]]) (unfold h, intro part_rules)
qed

lemma priced_published:
  "get url = Inr j \<Longrightarrow> first_priced (Some j) = Some row \<Longrightarrow> published get (to_string (fld (Some row) ''priceUsd''))"
proof -
  assume j: "get url = Inr j" and row: "first_priced (Some j) = Some row"
  then have t: "truthy (fld (Some row) ''priceUsd'')" by (auto simp: first_priced_def find_Some_iff)
  have r: "part_of j (Some row)" by (rule found_part [OF _ row [unfolded first_priced_def]]) (intro part_rules)
  show ?thesis by (rule publishedI [where get = get, OF j part_fld [OF r] not_missing(3) [OF t]])
qed

lemma codex_published: "quoteCodex get p = Inr q \<Longrightarrow> published get (q_value q)"
proof (cases "map_of CODEX_KRAKEN (to_upper p)")
  case None
  assume "quoteCodex get p = Inr q"
  with None obtain j row where "get (DEXSCREENER @ encodeURIComponent p) = Inr j" "first_priced (Some j) = Some row"
    and v: "q_value q = to_string (fld (Some row) ''priceUsd'')"
    unfolding quoteCodex_def by (auto dest!: bind_get_Inr split: option.splits simp: Let_def)
  then show ?thesis unfolding v by (intro priced_published)
next
  case (Some k)
  assume "quoteCodex get p = Inr q"
  then show ?thesis using Some spot_published [of get k] unfolding quoteCodex_def
    by (cases "quoteKrakenSpot get k") auto
qed

lemma blockscout_published: "quoteBlockscout get p url = Inr q \<Longrightarrow> published get (q_value q)"
proof (cases "get url")
  case (Inl e)
  assume "quoteBlockscout get p url = Inr q"
  with Inl obtain j row where "get (DEXSCREENER @ encodeURIComponent (or_str p ''ETH'')) = Inr j"
      "first_priced (Some j) = Some row"
    and v: "q_value q = to_string (fld (Some row) ''priceUsd'')"
    unfolding quoteBlockscout_def by (auto dest!: bind_get_Inr split: option.splits)
  then show ?thesis unfolding v by (intro priced_published)
next
  case (Inr j)
  have f: "part_of j (fld (Some j) k)" for k by (intro part_rules)
  have m: "\<not> missing (fld (Some j) k) \<Longrightarrow> published get (to_string (fld (Some j) k))" for k
    by (rule publishedI [where get = get, OF Inr f not_missing(1)])
  assume "quoteBlockscout get p url = Inr q"
  then show ?thesis using Inr m unfolding quoteBlockscout_def
    by (auto simp: Let_def split: if_splits)
qed

lemma volt_published: "quoteVolt get p = Inr q \<Longrightarrow> published get (q_value q)"
proof (cases "p = ''community_tax'' \<or> p = ''fee-split'' \<or> p = ''genesis-tax''")
  case True
  assume "quoteVolt get p = Inr q"
  then obtain j t where j: "get VOLT_DIST = Inr j"
    and t: "t = and_then (Some j) (fld (or_else (fld (Some j) ''params'') (Some j)) ''community_tax'')"
    and nm: "\<not> missing t" and v: "q_value q = to_string t"
    using True unfolding quoteVolt_def by (auto dest!: bind_get_Inr split: if_splits simp: Let_def)
  show ?thesis unfolding v
    by (rule publishedI [where get = get, OF j _ not_missing(1) [OF nm]]) (unfold t, intro part_rules)
next
  case False
  assume "quoteVolt get p = Inr q"
  then obtain j where j: "get VOLT_BANK = Inr j"
    and nn: "\<not> nullish (find_coin (elems (fld (Some j) ''balances'')))"
    and v: "q_value q = to_string (find_coin (elems (fld (Some j) ''balances'')))"
    using False unfolding quoteVolt_def by (auto dest!: bind_get_Inr split: if_splits simp: Let_def)
  from nn obtain c where c: "find (\<lambda>c. fld (Some c) ''denom'' = Some (JStr ''uire'')) (elems (fld (Some j) ''balances'')) = Some c"
    and fc: "find_coin (elems (fld (Some j) ''balances'')) = fld (Some c) ''amount''"
    by (auto simp: find_coin_def split: option.splits)
  have r: "part_of j (Some c)" by (rule found_part [OF _ c]) (intro part_rules)
  show ?thesis using nn unfolding v fc
    by (intro publishedI [where get = get, OF j part_fld [OF r]] not_missing(2))
qed

lemma fetched_published: "fetchSkillQuote get s = Inr q \<Longrightarrow> published get (q_value q)"
  unfolding fetchSkillQuote_def Let_def
  by (simp split: if_splits
      add: spot_published fut_published jupiter_published rpc_published codex_published
           blockscout_published volt_published)

section \<open>What a desk keeps\<close>

text \<open>The quotes a sequence of runs fetched, in order.\<close>

fun quotes_of :: "skill \<Rightarrow> (fetcher \<times> string \<times> string) list \<Rightarrow> blot list" where
  "quotes_of s [] = []"
| "quotes_of s ((get, now, _) # rs) =
     (case fetchSkillQuote get s of Inl _ \<Rightarrow> [] | Inr q \<Rightarrow> [stored_quote s now q]) @ quotes_of s rs"

lemma onPaper_quotes:
  "d_quotes (onPaper get i s now st) =
     (case fetchSkillQuote get s of Inl _ \<Rightarrow> d_quotes st | Inr q \<Rightarrow> take 40 (stored_quote s now q # d_quotes st))"
  by (simp add: onPaper_def Let_def split: sum.splits)

lemma run_quotes: "d_quotes (runBrokerDesk get i s now later st) = d_quotes (onPaper get i s now st)"
  by (simp add: runBrokerDesk_def Let_def onPaper_quotes split: list.splits sum.splits)

lemma runs_quotes: "length (d_quotes st) \<le> 40 \<Longrightarrow>
    d_quotes (desk_runs i s rs st) = take 40 (rev (quotes_of s rs) @ d_quotes st)"
proof (induction i s rs st rule: desk_runs.induct)
  case (2 i s get now later rs st)
  have e: "take 40 (xs @ take 40 ys) = take 40 (xs @ ys)" for xs ys :: "blot list"
    by (simp add: min_def)
  have IH: "d_quotes (desk_runs i s ((get, now, later) # rs) st) =
      take 40 (rev (quotes_of s rs) @ d_quotes (runBrokerDesk get i s now later st))"
    using 2 by (simp add: run_quotes onPaper_quotes split: sum.split)
  show ?case
  proof (cases "fetchSkillQuote get s")
    case (Inr q)
    then show ?thesis
      unfolding IH by (simp only: run_quotes onPaper_quotes sum.case e quotes_of.simps rev_append rev.simps append_assoc append.simps)
  qed (unfold IH, simp add: run_quotes onPaper_quotes)
qed simp

lemma run_ticket:
  "d_ticket (runBrokerDesk get i s now later st) =
     (case d_quotes (runBrokerDesk get i s now later st) of
        [] \<Rightarrow> d_ticket st
      | b # bs \<Rightarrow> Some (buildBrokerTicket i s (reread b) (b # bs) later))"
  by (auto simp: runBrokerDesk_def onPaper_def Let_def split: list.splits sum.splits)

lemma runs_snoc: "desk_runs i s (rs @ [(get, now, later)]) st = runBrokerDesk get i s now later (desk_runs i s rs st)"
  by (induction i s rs st rule: desk_runs.induct) auto

lemma ticket_mark: "t_mark (buildBrokerTicket i s q quotes t) = q\<lparr> q_label := or_str (q_label q) (q_value q) \<rparr>"
  by (simp add: buildBrokerTicket_def Let_def split: list.split option.split)

lemma quotes_of_fetched: "b \<in> set (quotes_of s rs) \<Longrightarrow>
    \<exists>get now later q. (get, now, later) \<in> set rs \<and> fetchSkillQuote get s = Inr q \<and> b = stored_quote s now q"
proof (induction s rs rule: quotes_of.induct)
  case (2 s get now later rs)
  show ?case
  proof (cases "b \<in> set (quotes_of s rs)")
    case True
    from 2(1) [OF True] obtain g n l q where "(g, n, l) \<in> set rs"
      "fetchSkillQuote g s = Inr q" "b = stored_quote s n q" by blast
    moreover from this(1) have "(g, n, l) \<in> set ((get, now, later) # rs)" by simp
    ultimately show ?thesis by blast
  next
    case False
    obtain q where "fetchSkillQuote get s = Inr q" "b = stored_quote s now q"
      using 2(2) False by (cases "fetchSkillQuote get s") auto
    moreover have "(get, now, later) \<in> set ((get, now, later) # rs)" by simp
    ultimately show ?thesis by blast
  qed
qed simp

text \<open>The label of a quote is its value with a wording around it.\<close>

lemma sublist_here: "sublist v v" "sublist v (v @ after)" "sublist v l \<Longrightarrow> sublist v (c # l)"
  by (simp_all add: sublist_Cons_right)

lemma fetched_wraps: "fetchSkillQuote get s = Inr q \<Longrightarrow> sublist (q_value q) (q_label q)"
proof -
  have spot: "quoteKrakenSpot get p = Inr q' \<Longrightarrow> sublist (q_value q') (q_label q')" for p q'
    by (auto simp: quoteKrakenSpot_def usd_quote_def Let_def intro!: sublist_here dest!: bind_get_Inr split: option.splits if_splits)
  have codex: "quoteCodex get p = Inr q' \<Longrightarrow> sublist (q_value q') (q_label q')" for p q'
  proof (cases "map_of CODEX_KRAKEN (to_upper p)")
    case (Some k)
    assume "quoteCodex get p = Inr q'"
    then obtain r where "quoteKrakenSpot get k = Inr r" "q' = r\<lparr> q_source := q_source q' \<rparr>"
      using Some unfolding quoteCodex_def by (cases "quoteKrakenSpot get k") auto
    with spot [of k r] show ?thesis by (cases r; cases q') simp
  qed (auto simp: quoteCodex_def usd_quote_def Let_def intro!: sublist_here dest!: bind_get_Inr split: option.splits)
  have rest: "quoteKrakenFut get p = Inr q \<Longrightarrow> sublist (q_value q) (q_label q)" "quoteJupiter get s = Inr q \<Longrightarrow> sublist (q_value q) (q_label q)"
    "quoteIreRpc get s = Inr q \<Longrightarrow> sublist (q_value q) (q_label q)" "quoteVolt get p = Inr q \<Longrightarrow> sublist (q_value q) (q_label q)"
    "quoteBlockscout get p url = Inr q \<Longrightarrow> sublist (q_value q) (q_label q)" for p url
    by (auto simp: quoteKrakenFut_def quoteJupiter_def quoteIreRpc_def quoteVolt_def quoteBlockscout_def usd_quote_def Let_def
        intro!: sublist_here dest!: bind_get_Inr split: option.splits ticker.splits sum.splits if_splits)
  assume "fetchSkillQuote get s = Inr q"
  then show ?thesis unfolding fetchSkillQuote_def Let_def
    by (simp split: if_splits add: spot codex rest)
qed

lemma no_quote_no_ticket: "quotes_of s rs = [] \<Longrightarrow> d_ticket (desk_runs i s rs st) = d_ticket st \<or> d_quotes st \<noteq> []"
proof (induction i s rs st rule: desk_runs.induct)
  case (2 i s get now later rs st)
  then obtain e where "fetchSkillQuote get s = Inl e" by (auto split: sum.splits)
  then show ?case using 2 by (auto simp: run_ticket run_quotes onPaper_quotes split: list.splits)
qed simp

lemma desk_start_sel [simp]: "d_quotes desk_start = []" "d_ticket desk_start = None"
  by (simp_all add: desk_start_def)

lemma history: "d_quotes (desk_runs i s rs desk_start) = take 40 (rev (quotes_of s rs))"
  using runs_quotes [of desk_start i s rs] by simp

lemma history_ticket:
  "d_ticket (desk_runs i s (rs @ [(get, now, later)]) desk_start) =
     (case take 40 (rev (quotes_of s (rs @ [(get, now, later)]))) of
        [] \<Rightarrow> None
      | b # bs \<Rightarrow> Some (buildBrokerTicket i s (reread b) (b # bs) later))"
proof (cases "quotes_of s (rs @ [(get, now, later)])")
  case Nil
  then show ?thesis
    using no_quote_no_ticket [of s "rs @ [(get, now, later)]" i desk_start] by simp
next
  case (Cons b bs)
  then have "take 40 (rev (quotes_of s (rs @ [(get, now, later)]))) \<noteq> []" by simp
  then obtain c cs where c: "take 40 (rev (quotes_of s (rs @ [(get, now, later)]))) = c # cs"
    by (meson neq_Nil_conv)
  then show ?thesis
    using history [of i s "rs @ [(get, now, later)]"] run_ticket [of get i s now later "desk_runs i s rs desk_start"]
    unfolding runs_snoc by simp
qed

text \<open>
  Property C8:  No desk makes up a number: whatever the services answer, a quote that is
  returned is a value some reply contains (or the length of a list in it), printed as it
  is, and its label is that same value with a wording around it.
\<close>

theorem quotes_published:
  assumes "fetchSkillQuote get s = Inr q"
  shows "published get (q_value q) \<and> sublist (q_value q) (q_label q)"
  using fetched_published [OF assms] fetched_wraps [OF assms] by simp

definition rpc_skill :: skill where
  "rpc_skill = skill_row 7 ''CBK-S-0'' \<lparr> deskI = 3, roleI = 3, pairI = 2, tfI = 0, riskI = 0 \<rparr>"

definition rpc_status :: fetcher where
  "rpc_status url =
     (if url = IRE_STATUS
      then Inr (JObj [(''result'', JObj [(''sync_info'', JObj [(''latest_block_height'', JStr ''4242'')])])])
      else Inl ''quote HTTP 404'')"

definition rpc_down :: fetcher where "rpc_down url = Inl ''quote HTTP 502''"

lemma rpc_quote: "fetchSkillQuote rpc_status rpc_skill =
    Inr \<lparr> q_value = ''4242'', q_label = ''ire-1 height 4242 (testnet)'', q_source = ''ire-rpc/status'', q_kind = ''height'' \<rparr>"
  by code_simp

theorem quotes_published_witness: "published rpc_status ''4242'' \<and> sublist ''4242'' ''ire-1 height 4242 (testnet)''"
  using quotes_published [OF rpc_quote] by simp

text \<open>
  Property C9:  What a desk shows after any sequence of runs from a first visit: the blotter
  holds exactly the last forty quotes that were fetched, latest first; every value in it
  was published to the run that stored it; and the ticket is drawn from the latest of them,
  at the time of the last run.
\<close>

theorem desk_history:
  "d_quotes (desk_runs i s rs desk_start) = take 40 (rev (quotes_of s rs)) \<and>
   b_value ` set (d_quotes (desk_runs i s rs desk_start)) \<subseteq> {v. \<exists>get \<in> fst ` set rs. published get v} \<and>
   d_ticket (desk_runs i s (rs @ [(get, now, later)]) desk_start) =
     (case take 40 (rev (quotes_of s (rs @ [(get, now, later)]))) of
        [] \<Rightarrow> None
      | b # bs \<Rightarrow> Some (buildBrokerTicket i s (reread b) (b # bs) later))"
proof (intro conjI history history_ticket subsetI)
  fix v assume "v \<in> b_value ` set (d_quotes (desk_runs i s rs desk_start))"
  then obtain b where "b \<in> set (quotes_of s rs)" "v = b_value b"
    by (auto simp: history dest: in_set_takeD)
  from quotes_of_fetched [OF this(1)] this(2) obtain g n l q
    where "(g, n, l) \<in> set rs" "fetchSkillQuote g s = Inr q" "v = q_value q"
    by (auto simp: stored_quote_def)
  then show "v \<in> {v. \<exists>get \<in> fst ` set rs. published get v}"
    by (force intro: fetched_published)
qed

text \<open>
  A run whose fetch failed says so and stores no quote, and then draws and
  stores a new ticket all the same, dated now, from the last quote of an earlier run; here
  a snapshot of a height of the first run, dated by the second.
\<close>

theorem stale_ticket:
  "(let st = desk_runs 7 rpc_skill [(rpc_status, ''t1'', ''t2''), (rpc_down, ''t3'', ''t4'')] desk_start in
    map b_ts (d_quotes st) = [''t1''] \<and> d_mark st = ''quote unavailable'' \<and>
    (case d_ticket st of
       None \<Rightarrow> False
     | Some t \<Rightarrow> t_ts t = ''t4'' \<and> q_value (t_mark t) = ''4242'' \<and>
         hd (recommendation t) = ''Desk snapshot: ire-1 height 4242 (testnet)''))"
  by code_simp

end
