(* ===== verification/Broker_Pages.thy ===== *)
theory Broker_Pages
  imports Broker_Catalog Activation Broker_Desk
begin

text \<open>
  What the brokers' pages write into the document (site/brokers/assets/brokers.js): the cards
  of the catalogue, the facts and the skill of a broker, its blotter, its signed intents and
  its ticket, the lines on supply, wallet and waitlist.  Every text is the HTML the page
  assigns.  \<open>img\<close> is \<open>imageUrlFor\<close> of reveal-meta.js for the id.
\<close>

section \<open>Supply and wallet\<close>

record mint_ui =
  mint_label :: string
  mint_live :: string
  mint_facts :: string

definition updateMintUi :: "nat option \<Rightarrow> bool \<Rightarrow> mint_ui" where
  "updateMintUi minted fetched =
     (case minted of
        Some n \<Rightarrow>
          if n \<ge> 5000
          then \<lparr> mint_label = ''<strong>'' @ dec n @ '' / 5000</strong> minted on-chain'',
                 mint_live = ''ids 1'' @ en_dash @ dec n @ '' minted '' @ mid_dot @ '' sold out '' @ mid_dot @ '' revealed'',
                 mint_facts = dec n @ '' / 5000 '' @ mid_dot @ '' sold out '' @ mid_dot @ '' revealed'' \<rparr>
          else \<lparr> mint_label = ''<strong>'' @ dec n @ '' / 5000</strong> minted on-chain'',
                 mint_live = ''ids 1'' @ en_dash @ dec n @ '' minted '' @ mid_dot @ '' reveal metadata live on IPFS'',
                 mint_facts = dec n @ '' / 5000 '' @ mid_dot @ '' reveal live'' \<rparr>
      | None \<Rightarrow>
          if \<not> fetched
          then \<lparr> mint_label = ''Loading on-chain totalSupply'' @ ellipsis,
                 mint_live = ''Fetching totalSupply (0x18160ddd)'' @ ellipsis, mint_facts = ''on-chain totalSupply'' \<rparr>
          else \<lparr> mint_label = ''On-chain totalSupply unavailable'',
                 mint_live = ''Could not read totalSupply (0x18160ddd). Collection size 5000.'',
                 mint_facts = ''on-chain totalSupply unavailable / 5000 max'' \<rparr>)"

text \<open>
  \<open>refreshMinted\<close>: the supply from the contract (\<open>None\<close>: the call threw), else from the
  explorer's service; a number that is not one leaves the old supply.
\<close>

definition refreshMinted :: "string option option \<Rightarrow> json option \<Rightarrow> nat option \<Rightarrow> nat option" where
  "refreshMinted supply_call scout old =
     (let n = (case supply_call of
                 Some r \<Rightarrow> Option.bind r decodeUint
               | None \<Rightarrow>
                   (case scout of
                      None \<Rightarrow> None
                    | Some j \<Rightarrow> if truthy (fld (Some j) ''total_supply'')
                                then parse_int (to_string (fld (Some j) ''total_supply'')) else None))
      in case n of Some k \<Rightarrow> if 0 \<le> k then Some (nat k) else old | None \<Rightarrow> old)"

definition setWalletUi :: "bool \<Rightarrow> string option \<Rightarrow> int option \<Rightarrow> string \<times> string" where
  "setWalletUi has_eth address chain =
     ((if \<not> has_eth then ''No <code>window.ethereum</code>. Install MetaMask or Rabby to activate.''
       else case address of
              None \<Rightarrow> ''Wallet not connected.''
            | Some a \<Rightarrow> ''Connected <strong>'' @ short_addr a @ ''</strong>''),
      (if \<not> has_eth then []
       else case chain of
              Some c \<Rightarrow>
                if c = int CHAIN_ID
                then ''Robinhood Chain '' @ mid_dot @ '' ETH '' @ mid_dot @ '' chainId '' @ dec CHAIN_ID
                else if c \<noteq> 0
                then ''Wrong chain '' @ int_str c @ '' '' @ em_dash @ '' switch to Robinhood Chain ETH ('' @ dec CHAIN_ID @ '')''
                else ''Chain unknown '' @ em_dash @ '' switch to Robinhood Chain ETH ('' @ dec CHAIN_ID @ '')''
            | None \<Rightarrow> ''Chain unknown '' @ em_dash @ '' switch to Robinhood Chain ETH ('' @ dec CHAIN_ID @ '')''))"

section \<open>Cards\<close>

definition HEAD_SHOT :: "(string \<times> string) list" where
  "HEAD_SHOT = [(''Gold Skull'', ''gold-skull.jpg''), (''Chrome Skull'', ''chrome-skull.jpg''),
     (''Matte Helm'', ''matte-helm.jpg''), (''Violet Slit'', ''violet-slit.jpg''),
     (''Ember Mask'', ''ember-mask.jpg''), (''Paper Visor'', ''paper-visor.jpg'')]"

definition HEAD_TRADE :: "(string \<times> string) list" where
  "HEAD_TRADE = [(''Gold Skull'', ''trade-gold-skull.mp4''), (''Chrome Skull'', ''trade-chrome-skull.mp4''),
     (''Matte Helm'', ''trade-matte-helm.mp4''), (''Violet Slit'', ''trade-violet-slit.mp4''),
     (''Ember Mask'', ''trade-ember-mask.mp4''), (''Paper Visor'', ''trade-paper-visor.mp4'')]"

definition or_else_text :: "string option \<Rightarrow> string \<Rightarrow> string" where
  "or_else_text v d = (case v of Some s \<Rightarrow> s | None \<Rightarrow> d)"

definition shotUrl :: "string option \<Rightarrow> mandate \<Rightarrow> string" where
  "shotUrl img m =
     or_opt img (''/brokers/assets/agents3d/'' @ or_else_text (map_of HEAD_SHOT (head (m_traits m))) ''gold-skull.jpg'')"

definition tradeUrl :: "mandate \<Rightarrow> string" where
  "tradeUrl m =
     ''/brokers/assets/agents3d/'' @ or_else_text (map_of HEAD_TRADE (head (m_traits m))) ''trade-gold-skull.mp4''"

definition dotted :: string where "dotted = ''  '' @ mid_dot @ ''  ''"

definition tapeText :: "mandate \<Rightarrow> skill option \<Rightarrow> string" where
  "tapeText m s =
     (case s of
        Some s \<Rightarrow> ''CRYPTO BROKER #'' @ dec (m_id m) @ dotted @ sk_name s @ dotted @ sk_desk s @ dotted @ sk_pair s @ dotted @
          ''OWNER SIGNS LIVE'' @ dotted @ ''PAPER = PUBLIC QUOTE ONLY'' @ dotted
      | None \<Rightarrow> ''CRYPTO BROKER #'' @ dec (m_id m) @ dotted @ primaryAsset m @ dotted @ strategy (m_traits m) @ dotted @
          ''OWNER SIGNS LIVE'' @ dotted @ ''PAPER = PUBLIC QUOTE ONLY'' @ dotted)"

definition shot_frame :: "string \<Rightarrow> mandate \<Rightarrow> skill option \<Rightarrow> string" where
  "shot_frame media m s =
     (let t = tapeText m s in
      ''<div'' @ attr ''class'' ''bk-shot'' @ ''>'' @ media @
      ''<span'' @ attr ''class'' ''bk-pulse'' @ ''><i></i>agent</span>'' @
      ''<div'' @ attr ''class'' ''bk-tape'' @ ''><span>'' @ t @ t @ ''</span></div>'' @ ''</div>'')"

definition shotHtml :: "string option \<Rightarrow> mandate \<Rightarrow> skill option \<Rightarrow> string" where
  "shotHtml img m s =
     (let u = (case img of Some u \<Rightarrow> u | None \<Rightarrow> []) in
      if u \<noteq> [] then
        shot_frame (''<img'' @ attr ''class'' ''bk-reveal-img'' @ attr ''src'' u @
          attr ''alt'' (bk_escapeHtml (or_str (m_name m) (''Crypto Broker #'' @ dec (m_id m)))) @
          attr ''loading'' ''lazy'' @ attr ''width'' ''768'' @ attr ''height'' ''768'' @ ''>'') m s
      else
        shot_frame (''<video autoplay muted loop playsinline'' @ attr ''poster'' (shotUrl img m) @
          attr ''src'' (tradeUrl m) @ ''></video>'') m s)"

definition bk_tag :: "string \<Rightarrow> string \<Rightarrow> string" where
  "bk_tag cls label = '' <span'' @ attr ''class'' cls @ ''>'' @ label @ ''</span>''"

definition cardHtml ::
  "string option \<Rightarrow> mandate \<Rightarrow> skill option \<Rightarrow> bool \<Rightarrow> bool \<Rightarrow> bool \<Rightarrow> nat \<Rightarrow> string \<Rightarrow> string"
where
  "cardHtml img m s on minted working i href =
     (let tags = (if minted then bk_tag ''bk-tag'' ''minted'' else []) @
            (if on then bk_tag ''bk-tag'' ''activated'' else []) @
            (if on \<and> working then bk_tag ''bk-tag bk-tag-live'' ''working''
             else if on then bk_tag ''bk-tag'' ''ready'' else []);
          job = (case s of
                   Some s \<Rightarrow> bk_escapeHtml (sk_role s) @ '' '' @ mid_dot @ '' '' @ bk_escapeHtml (sk_pair s)
                 | None \<Rightarrow> bk_escapeHtml (primaryAsset m) @ '' '' @ mid_dot @ '' '' @ bk_escapeHtml (strategy (m_traits m)))
      in ''<a'' @ attr ''href'' href @ attr ''data-id'' (dec i) @
         attr ''data-activated'' (if on then ''1'' else ''0'') @ attr ''data-minted'' (if minted then ''1'' else ''0'') @ ''>'' @
         shotHtml img m s @
         ''<p'' @ attr ''class'' ''bk-card-meta'' @ ''><strong>#'' @ dec i @ tags @ ''</strong>'' @ job @ ''</p></a>'')"

text \<open>\<open>String.prototype.replace\<close> with a text: the first occurrence.\<close>

definition replace_first :: "string \<Rightarrow> string \<Rightarrow> string \<Rightarrow> string" where
  "replace_first p r s =
     (case index_of p s of None \<Rightarrow> s | Some i \<Rightarrow> take i s @ r @ drop (i + length p) s)"

definition my_card :: "string \<Rightarrow> skill option \<Rightarrow> string" where
  "my_card html_of s =
     (case s of
        None \<Rightarrow> html_of
      | Some s \<Rightarrow> replace_first ''</p></a>''
          (''</p><p'' @ attr ''class'' ''bk-card-skill'' @ ''>'' @ bk_escapeHtml (sk_name s) @ ''</p></a>'') html_of)"

definition grid_html :: "(nat \<Rightarrow> string) \<Rightarrow> nat list \<Rightarrow> string" where
  "grid_html html_of ids =
     (let html = concat (map html_of ids) in
      if html = [] then ''<p'' @ attr ''class'' ''bk-empty'' @ ''>No agents match that search.</p>'' else html)"

section \<open>Facts\<close>

definition fact :: "string \<Rightarrow> string \<Rightarrow> string" where
  "fact name html = ''<div><dt>'' @ name @ ''</dt><dd>'' @ html @ ''</dd></div>''"

definition code_text :: "string \<Rightarrow> string" where "code_text s = ''<code>'' @ bk_escapeHtml s @ ''</code>''"

definition kind_text :: "akind \<Rightarrow> string" where
  "kind_text k = (case k of Stock \<Rightarrow> ''stock'' | Token \<Rightarrow> ''token'')"

record reveal =
  rv_name :: string
  rv_tokenURI :: string
  rv_file :: string
  rv_attributes :: "(string \<times> string) list"

definition factsHtml :: "reveal option \<Rightarrow> mandate \<Rightarrow> string" where
  "factsHtml rv m =
     (case rv of
        None \<Rightarrow> []
      | Some r \<Rightarrow> fact ''Reveal name'' (bk_escapeHtml (rv_name r)) @ fact ''tokenURI'' (code_text (rv_tokenURI r)) @
          fact ''file_name'' (code_text (rv_file r)) @
          concat (map (\<lambda>(k, v). fact (bk_escapeHtml k) (bk_escapeHtml v)) (rv_attributes r))) @
     fact ''Primary asset'' (bk_escapeHtml (primaryAsset m) @ '' '' @ mid_dot @ '' '' @ bk_escapeHtml (kind_text (primaryKind m))) @
     fact ''Secondary'' (bk_escapeHtml (secondary m)) @
     fact ''Strategy'' (bk_escapeHtml (strategy (m_traits m))) @
     fact ''Universe'' (bk_escapeHtml (universe (m_traits m))) @
     fact ''Venue'' (bk_escapeHtml (m_venue m)) @
     fact ''Timeframe'' (bk_escapeHtml (timeframe m)) @
     fact ''Max notional'' (''$'' @ group (dec (maxNotionalUsd m))) @
     fact ''Min mcap filter'' (''$'' @ group (dec (minMcapUsd m)) @ '' (mandate, not a floor)'') @
     fact ''Mode'' (bk_escapeHtml (m_mode m)) @
     fact ''Inscription'' (code_text (inscription_name m))"

definition skill_chip :: "string \<Rightarrow> string" where
  "skill_chip html = ''<span'' @ attr ''class'' ''bk-skill-chip'' @ ''>'' @ html @ ''</span>''"

record skill_ui =
  su_chips :: string
  su_facts :: string
  su_job :: string

definition renderSkill :: "skill \<Rightarrow> skill_ui" where
  "renderSkill s =
     \<lparr> su_chips = skill_chip (bk_escapeHtml (sk_role s)) @ skill_chip (bk_escapeHtml (sk_desk s)) @
         skill_chip (bk_escapeHtml (sk_pair s)) @ skill_chip (bk_escapeHtml (sk_timeframe s)) @
         skill_chip (bk_escapeHtml (sk_risk s)) @ skill_chip ''owner-signed'',
       su_facts = fact ''Skill'' (bk_escapeHtml (sk_name s)) @ fact ''skillId'' (code_text (skillId s)) @
         fact ''Desk'' (bk_escapeHtml (sk_desk s)) @ fact ''Role'' (bk_escapeHtml (sk_role s)) @
         fact ''Pair'' (bk_escapeHtml (sk_pair s)) @ fact ''Venue'' (bk_escapeHtml (sk_venue s)) @
         fact ''Timeframe'' (bk_escapeHtml (sk_timeframe s)) @ fact ''Risk'' (bk_escapeHtml (sk_risk s)) @
         fact ''Execution'' ''owner-signed'' @ fact ''Data source'' (code_text (sk_dataSource s)),
       su_job = ''This is the agent'' @ [apos] @ ''s job. '' @ sk_does s @ '' Paper: '' @ sk_paperBehavior s @
         '' Live: owner signs a personal_sign intent JSON that includes skillId. Not a licensed broker.'' \<rparr>"

section \<open>The desk\<close>

definition cell :: "string \<Rightarrow> string" where "cell s = ''<td>'' @ bk_escapeHtml s @ ''</td>''"
definition table_row :: "string list \<Rightarrow> string" where "table_row cells = ''<tr>'' @ concat (map cell cells) @ ''</tr>''"
definition note_row :: "string \<Rightarrow> string \<Rightarrow> string" where
  "note_row n line = ''<tr><td'' @ attr ''colspan'' n @ ''>'' @ line @ ''</td></tr>''"

definition renderPaperRows :: "blot list \<Rightarrow> string" where
  "renderPaperRows quotes =
     (if quotes = []
      then note_row ''4''
        (''No public quotes yet. Fetch the live feed for this skill'' @ [apos] @
         ''s pair. This table is not a fill tape and will not invent PnL.'')
      else concat (map (\<lambda>b. table_row [b_ts b, b_pair b,
        or_str (b_label b) (or_str (b_value b) ''quote unavailable''), b_source b]) quotes))"

record signed_intent =
  si_ts :: string
  si_action :: string
  si_pair :: string
  si_skillId :: string
  si_signature :: string

definition renderLiveRows :: "signed_intent list \<Rightarrow> string" where
  "renderLiveRows intents =
     (if intents = [] then note_row ''3'' ''No owner-signed skill intents.''
      else concat (map (\<lambda>x. table_row [si_ts x,
        or_str (si_action x) ''skill'' @ '' '' @ si_pair x @ '' '' @ si_skillId x, short_addr (si_signature x)]) intents))"

definition NEXT_STEP :: string where
  "NEXT_STEP = ''Owner personal_sign of this ticket. Broker does not send swap tx or take custody.''"

text \<open>The box and the status line; no box is changed when the status is the idle one.\<close>

definition renderBrokerTicket :: "ticket option \<Rightarrow> bool \<Rightarrow> string \<times> string" where
  "renderBrokerTicket t activated =
     (case t of
        None \<Rightarrow>
          (''<p'' @ attr ''class'' ''micro'' @ ''>No ticket yet.</p>'',
           ''Desk idle '' @ em_dash @ '' activate or click Run broker desk.'')
      | Some t \<Rightarrow>
          (''<h3>'' @ bk_escapeHtml (sk_role (t_skill t)) @ '' '' @ mid_dot @ '' '' @ bk_escapeHtml (sk_pair (t_skill t)) @ ''</h3>'' @
           ''<p><strong>Mark:</strong> '' @ bk_escapeHtml (q_label (t_mark t)) @ '' <span'' @ attr ''class'' ''micro'' @ ''>('' @
           bk_escapeHtml (q_source (t_mark t)) @ '')</span></p>'' @
           ''<p><strong>Job:</strong> '' @ bk_escapeHtml (sk_does (t_skill t)) @ ''</p>'' @
           ''<ul>'' @ concat (map (\<lambda>x. ''<li>'' @ bk_escapeHtml x @ ''</li>'') (recommendation t)) @ ''</ul>'' @
           ''<p'' @ attr ''class'' ''micro'' @ ''>'' @ bk_escapeHtml NEXT_STEP @ ''</p>'',
           ''Desk <strong>WORKING</strong> '' @ mid_dot @ '' last run '' @ bk_escapeHtml (t_ts t) @
           (if activated then '' '' @ mid_dot @ '' activated'' else '' '' @ mid_dot @ '' activate to unlock live sign'')))"

section \<open>Waitlist\<close>

record waitlist =
  wl_address :: string
  wl_id :: nat
  wl_signature :: string
  wl_cli :: string

definition refreshValidator :: "string option \<Rightarrow> waitlist option \<Rightarrow> string \<times> string option" where
  "refreshValidator address rec =
     (case address of
        None \<Rightarrow> (''Connect a wallet, then sign to join the IRE validator waitlist.'', None)
      | Some _ \<Rightarrow>
          (case rec of
             Some r \<Rightarrow>
               if wl_signature r \<noteq> []
               then (''WAITLIST signed for <code>'' @ short_addr (wl_address r) @ ''</code> (broker #'' @ dec (wl_id r) @
                     ''). <strong>Not a consensus seat</strong> '' @ em_dash @
                     '' live <code>ire-1</code> still has 1 bonded validator. 25 testnet points only after you broadcast <code>IREVAL1</code> from an IRE key that holds <code>uire</code>.'',
                     Some (or_str (wl_cli r) (validatorCli (wl_address r) (wl_id r))))
               else (''Not on the IRE waitlist yet. This signup is waitlist + points only '' @ em_dash @
                     '' it will not add you to the live 1-validator consensus set.'', None)
           | None \<Rightarrow> (''Not on the IRE waitlist yet. This signup is waitlist + points only '' @ em_dash @
                     '' it will not add you to the live 1-validator consensus set.'', None)))"

section \<open>Activated agents\<close>

definition activated_empty :: "string option \<Rightarrow> string" where
  "activated_empty address =
     (case address of
        None \<Rightarrow> ''Connect a wallet to see agents you have activated on this device.''
      | Some a \<Rightarrow> ''No confirmed activations for <code>'' @ short_addr a @ ''</code> yet. Open <a'' @
          attr ''href'' ''/brokers/activate.html'' @
          ''>Activate</a>, verify ownership, and confirm the 0.001 ETH fee.'')"

text \<open>\<open>html_of i href\<close> is \<open>cardHtml\<close>; the second part is the line of an empty page.\<close>

definition renderActivated ::
  "string option \<Rightarrow> store \<Rightarrow> (nat \<Rightarrow> string \<Rightarrow> string) \<Rightarrow> string \<times> string option"
where
  "renderActivated address st html_of =
     (if address = None \<or> listActivations address st = [] then ([], Some (activated_empty address))
      else (concat (map (\<lambda>r. html_of (a_id r) (''/brokers/activate.html?id='' @ dec (a_id r))) (listActivations address st)), None))"

section \<open>What the pages promise\<close>

lemma tags_parts [tag_count]:
  "tags (cell t) = 2" "tags (fact n h) = 6 + tags n + tags h" "tags (code_text t) = 2"
  "tags (skill_chip h) = 2 + tags h" "tags (note_row n l) = 4 + tags n + tags l"
  by (simp_all add: cell_def fact_def code_text_def skill_chip_def note_row_def)

lemma tags_row [tag_count]: "tags (table_row cells) = 2 + 2 * length cells"
  by (induction cells) (simp_all add: table_row_def tags_parts)

lemma sum_const: "sum_list (map (\<lambda>x. c) xs) = c * length xs"
  by (induction xs) simp_all

lemma tags_paper: "tags (renderPaperRows quotes) = (if quotes = [] then 4 else 10 * length quotes)"
  by (cases "quotes = []") (simp_all add: renderPaperRows_def apos_def tags_concat comp_def sum_const tags_row tags_parts)

lemma tags_live: "tags (renderLiveRows intents) = (if intents = [] then 4 else 8 * length intents)"
  by (cases "intents = []") (simp_all add: renderLiveRows_def tags_concat comp_def sum_const tags_row tags_parts)

lemma tags_ticket:
  "tags (fst (renderBrokerTicket (Some t) on)) = 16 + 2 * length (recommendation t)"
  "tags (snd (renderBrokerTicket (Some t) on)) = 2"
  by (simp_all add: renderBrokerTicket_def tags_concat comp_def sum_const)

lemma tags_skill: "tags (su_chips (renderSkill s)) = 12" "tags (su_facts (renderSkill s)) = 64"
  by (simp_all add: renderSkill_def tags_parts)

lemma listed_iff:
  "r \<in> set (listActivations (Some (c # a)) st) \<longleftrightarrow>
    (\<exists>k. starts_with (''crypto-brokers:activation:'' @ to_lower (c # a) @ '':'') k \<and> read_act st k = Some r \<and>
       activationRecordIsConfirmed (Some r))" (is "?l \<longleftrightarrow> ?r")
proof -
  define p where "p = ''crypto-brokers:activation:'' @ to_lower (c # a) @ '':''"
  define g :: "string \<times> stored \<Rightarrow> activation list" where
    "g = (\<lambda>(k, _). if starts_with p k
                   then (case read_act st k of
                           Some r \<Rightarrow> if activationRecordIsConfirmed (Some r) then [r] else []
                         | None \<Rightarrow> [])
                   else [])"
  have key: "\<exists>v. (k, v) \<in> set st" if "read_act st k = Some r" for k
    using that by (auto simp: read_act_def split: option.splits stored.splits dest!: map_of_SomeD)
  have g: "r \<in> set (g (k, v)) \<longleftrightarrow> starts_with p k \<and> read_act st k = Some r \<and> activationRecordIsConfirmed (Some r)"
    for k v by (cases "read_act st k"; cases "starts_with p k") (simp_all only: g_def prod.case if_True if_False option.case
      list.set empty_iff insert_iff simp_thms option.inject, auto)
  have "listActivations (Some (c # a)) st = rev (sort_key a_ts (rev (concat (map g st))))"
    by (simp only: listActivations_def option.case list.distinct if_False Let_def g_def p_def)
  then have "?l \<longleftrightarrow> (\<exists>k v. (k, v) \<in> set st \<and> r \<in> set (g (k, v)))" by (simp add: Bex_def)
  also have "\<dots> \<longleftrightarrow> (\<exists>k v. (k, v) \<in> set st \<and> starts_with p k \<and> read_act st k = Some r \<and>
      activationRecordIsConfirmed (Some r))"
    by (simp only: g)
  also have "\<dots> \<longleftrightarrow> ?r" unfolding p_def [symmetric] by (metis key)
  finally show ?thesis .
qed

lemma listed_sorted: "sorted_wrt (\<lambda>x y. a_ts y \<le> a_ts x) (listActivations address st)"
proof -
  have "sorted_wrt (\<lambda>x y. a_ts y \<le> a_ts x) (rev (sort_key a_ts xs))" for xs
    using sorted_sort_key [of a_ts xs] by (simp add: sorted_wrt_rev sorted_map)
  then show ?thesis by (auto simp: listActivations_def Let_def split: option.splits)
qed

end
