(* ===== verification/Activated_List.thy ===== *)
theory Activated_List
  imports Broker_Pages
begin

text \<open>
  The list of activated agents against the activation handlers (site/brokers/assets/brokers.js,
  listActivations and renderActivated): what the list holds in a state the page can reach.
  The storage keeps its keys apart, a key names the account and the token of its record,
  and so the list is the set of tokens activated for the connected account.
\<close>

section \<open>Keys stay apart\<close>

lemma write_keys: "distinct (map fst (w_store w)) \<Longrightarrow> distinct (map fst (w_store (writeJSON k v w)))"
  by (simp add: writeJSON_def distinct_update)

lemma keep_keys: "w_store (log_ev e w) = w_store w" "w_store (add_job j w) = w_store w"
  "w_store (set_address a w) = w_store w" "w_store (refreshActivation w) = w_store w"
  "w_store (fst (ensure_chain ans w)) = w_store w" 
  by (auto simp: log_ev_def add_job_def set_address_def refreshActivation_def ensure_chain_def Let_def
      split: option.split prod.split sum.split if_splits)

lemma keep_ensure: "ensure_chain ans w = (w', ok) \<Longrightarrow> w_store w' = w_store w"
  using keep_keys(5) [of ans w] by simp

lemma keep_connect: "connectWallet ans w = (w', ok) \<Longrightarrow> w_store w' = w_store w"
  by (auto simp: connectWallet_def keep_keys keep_ensure split: option.splits prod.splits if_splits)

lemma resume_keys: "distinct (map fst (w_store w)) \<Longrightarrow> distinct (map fst (w_store (resume j ans w)))"
  by (cases j) (auto simp: start_after_connect_def act_chain_def act_owner_def act_accounts_def act_send_def
      act_receipt_def act_verify_def refresh_verified_def rec_chain_def rec_owner_def rec_verify_def Let_def
      keep_keys write_keys distinct_update dest: keep_ensure keep_connect
      split: option.splits prod.splits sum.splits if_splits bool.splits)

lemma reach_keys: "reach w \<Longrightarrow> distinct (map fst (w_store w))"
proof (induction rule: reach.induct)
  case (act w x)
  then show ?case
    by (cases x) (auto simp: keep_keys write_keys resume_keys split: option.split)
qed (simp add: fresh_def)


text \<open>What a stored key says of its account and token, when the account holds no colon.\<close>

definition colons :: "string \<Rightarrow> nat" where "colons k = count_list k (CHR '':'')"

lemma colons_append: "colons (a @ b) = colons a + colons b"
  by (simp add: colons_def)

lemma dec_no_colon: "CHR '':'' \<notin> set (dec n)"
  using dec_digits [of "CHR '':''" n] by (auto simp: is_digit_def in_range_def)

lemma split_at_colon:
  assumes "CHR '':'' \<notin> set x" "x @ CHR '':'' # u = y @ CHR '':'' # v" "CHR '':'' \<notin> set u"
  shows "x = y \<and> u = v"
proof -
  have "count_list (x @ CHR '':'' # u) (CHR '':'') = 1" using assms(1,3) by (simp add: count_notin)
  then have "count_list y (CHR '':'') = 0" unfolding assms(2) by simp
  then have "CHR '':'' \<notin> set y" by (simp add: count_list_0_iff)
  with assms show ?thesis using append_Cons_eq_iff [of "CHR '':''" x u y v] by blast
qed


lemma key_shape:
  assumes "colons (activationStorageKey x i) \<le> 3"
    and "starts_with (''crypto-brokers:activation:'' @ to_lower (c # a) @ '':'') (activationStorageKey x i)"
  shows "activationStorageKey x i = activationStorageKey (Some (c # a)) i"
    and "activationStorageKey x i = activationStorageKey (Some (c # a)) j \<Longrightarrow> i = j"
proof -
  define l where "l = to_lower (case x of Some a \<Rightarrow> or_str a ''unsigned'' | None \<Rightarrow> ''unsigned'')"
  have key: "activationStorageKey x i = ''crypto-brokers:activation:'' @ l @ CHR '':'' # dec i"
    by (simp add: activationStorageKey_def l_def)
  then have "colons l = 0" using assms(1) by (simp add: colons_def)
  then have l: "CHR '':'' \<notin> set l" by (simp add: colons_def count_list_0_iff)
  obtain v where "l @ CHR '':'' # dec i = to_lower (c # a) @ CHR '':'' # v"
    using assms(2) unfolding key starts_with_iff by auto
  from split_at_colon [OF l this dec_no_colon] have "to_lower (c # a) = l" by blast
  then show k: "activationStorageKey x i = activationStorageKey (Some (c # a)) i"
    unfolding key by (simp add: activationStorageKey_def or_str_def)
  show "i = j" if "activationStorageKey x i = activationStorageKey (Some (c # a)) j"
    using that unfolding k by (simp add: activationStorageKey_def)
qed

lemma distinct_ids:
  assumes "distinct (map fst xs)" "\<And>k v r. (k, v) \<in> set xs \<Longrightarrow> r \<in> set (g (k, v)) \<Longrightarrow> k = key (f r)"
    and "\<And>kv. length (g kv) \<le> 1"
  shows "distinct (map f (concat (map g xs)))"
  using assms(1,2)
proof (induction xs)
  case (Cons kv xs)
  obtain k v where kv: "kv = (k, v)" by force
  have IH: "distinct (map f (concat (map g xs)))" using Cons.IH Cons.prems by auto
  show ?case
  proof (cases "g kv")
    case (Cons r rs)
    with assms(3) [of kv] have r: "g kv = [r]" by simp
    then have k: "k = key (f r)" using Cons.prems(2) [of k v r] kv by simp
    have "f r \<notin> f ` set (concat (map g xs))"
    proof
      assume "f r \<in> f ` set (concat (map g xs))"
      then obtain k' v' r' where "(k', v') \<in> set xs" "r' \<in> set (g (k', v'))" "f r = f r'" by auto
      then have "k \<in> fst ` set xs" using Cons.prems(2) [of k' v' r'] k by force
      then show False using Cons.prems(1) kv by simp
    qed
    then show ?thesis using IH r by simp
  qed (use IH in simp)
qed simp


lemma listed_picks:
  fixes c :: char and a :: string and st :: store
  defines "p \<equiv> ''crypto-brokers:activation:'' @ to_lower (c # a) @ '':''"
  obtains g where "mset (listActivations (Some (c # a)) st) = mset (concat (map g st))"
    "\<And>kv. length (g kv) \<le> 1"
    "\<And>k v r. r \<in> set (g (k, v)) \<Longrightarrow> starts_with p k \<and> read_act st k = Some r"
proof
  let ?g = "\<lambda>(k, _). if starts_with p k
                   then (case read_act st k of
                           Some r \<Rightarrow> if activationRecordIsConfirmed (Some r) then [r] else []
                         | None \<Rightarrow> [])
                   else []"
  show "mset (listActivations (Some (c # a)) st) = mset (concat (map ?g st))"
    by (simp only: listActivations_def option.case list.distinct if_False Let_def p_def mset_rev mset_sort)
  show "length (?g kv) \<le> 1" for kv by (simp split: prod.split option.split)
  show "starts_with p k \<and> read_act st k = Some r" if "r \<in> set (?g (k, v))" for k v r
    using that by (cases "read_act st k"; cases "starts_with p k"; cases "activationRecordIsConfirmed (read_act st k)")
      (simp_all only: prod.case if_True if_False option.case list.set empty_iff insert_iff simp_thms)
qed

lemma stored_shape:
  assumes "reach w" "read_act (w_store w) k = Some r"
  shows "\<exists>x. k = activationStorageKey x (a_id r)"
proof -
  have "local_storage.holds (entry_ok (w_trace w)) (w_store w)"
    using reach_inv [OF assms(1)] by (simp add: inv_def)
  moreover have "map_of (w_store w) k = Some (SAct r)"
    using assms(2) by (simp add: read_act_def split: option.splits stored.splits)
  ultimately show ?thesis by (auto simp: entry_ok_def dest: local_storage.holds_get)
qed

text \<open>
  Property C5: In every reachable state, provided no account name holds a colon (stored keys
  have at most three), the list of activated agents shows exactly the tokens that are
  activated for the connected account, each once, with the latest record first - and
  nothing at all without an account.
\<close>

theorem activated_list:
  assumes "reach w" "w_address w = Some (c # a)"
    and "\<And>k r. read_act (w_store w) k = Some r \<Longrightarrow> colons k \<le> 3"
  shows "set (map a_id (listActivations (w_address w) (w_store w))) = {i. isActivated (w_address w) (w_store w) i} \<and>
    distinct (map a_id (listActivations (w_address w) (w_store w))) \<and>
    sorted_wrt (\<lambda>x y. a_ts y \<le> a_ts x) (listActivations (w_address w) (w_store w))"
proof (intro conjI)
  let ?st = "w_store w" and ?A = "Some (c # a)"
  let ?p = "''crypto-brokers:activation:'' @ to_lower (c # a) @ '':''"
  have own: "k = activationStorageKey ?A (a_id r)" "\<And>j. k = activationStorageKey ?A j \<Longrightarrow> a_id r = j"
    if sw: "starts_with ?p k" and rd: "read_act ?st k = Some r" for k r
  proof -
    obtain x where x: "k = activationStorageKey x (a_id r)" using stored_shape [OF assms(1) rd] by blast
    from key_shape [of x "a_id r" c a] assms(3) [OF rd] sw
    show "k = activationStorageKey ?A (a_id r)" "\<And>j. k = activationStorageKey ?A j \<Longrightarrow> a_id r = j"
      unfolding x by blast+
  qed
  have start: "starts_with ?p (activationStorageKey ?A i)" for i
    by (auto simp: activationStorageKey_def or_str_def starts_with_iff)
  show "set (map a_id (listActivations (w_address w) ?st)) = {i. isActivated (w_address w) ?st i}"
  proof (intro equalityI subsetI)
    fix i assume "i \<in> set (map a_id (listActivations (w_address w) ?st))"
    then obtain r k where r: "i = a_id r" "starts_with ?p k" "read_act ?st k = Some r" "activationRecordIsConfirmed (Some r)"
      unfolding assms(2) set_map image_iff Bex_def listed_iff by blast
    then show "i \<in> {i. isActivated (w_address w) ?st i}"
      using own(1) [OF r(2,3)] by (simp add: isActivated_def assms(2) activation_key)
  next
    fix i assume "i \<in> {i. isActivated (w_address w) ?st i}"
    then have conf: "activationRecordIsConfirmed (read_act ?st (activationStorageKey ?A i))"
      by (simp add: isActivated_def assms(2) activation_key)
    then obtain r where r: "read_act ?st (activationStorageKey ?A i) = Some r"
      by (auto simp: activationRecordIsConfirmed_def split: option.splits)
    have "a_id r = i" using own(2) [OF start r refl] .
    then show "i \<in> set (map a_id (listActivations (w_address w) ?st))"
      unfolding assms(2) set_map image_iff Bex_def listed_iff using start r conf by metis
  qed
  obtain g where g: "mset (listActivations ?A ?st) = mset (concat (map g ?st))" "\<And>kv. length (g kv) \<le> 1"
    "\<And>k v r. r \<in> set (g (k, v)) \<Longrightarrow> starts_with ?p k \<and> read_act ?st k = Some r"
    by (rule listed_picks) blast
  have "distinct (map a_id (concat (map g ?st)))"
    by (rule distinct_ids [where key = "activationStorageKey ?A", OF reach_keys [OF assms(1)]]) (use g own in blast)+
  moreover have "mset (map a_id (listActivations ?A ?st)) = mset (map a_id (concat (map g ?st)))"
    using g(1) by (metis mset_map)
  ultimately show "distinct (map a_id (listActivations (w_address w) ?st))"
    unfolding assms(2) by (metis mset_eq_imp_distinct_iff)
  show "sorted_wrt (\<lambda>x y. a_ts y \<le> a_ts x) (listActivations (w_address w) ?st)" by (rule listed_sorted)
qed

theorem activated_list_witness:
  "set (map a_id (listActivations (w_address activated_world) (w_store activated_world))) =
     {i. isActivated (w_address activated_world) (w_store activated_world) i}"
proof -
  have "w_address activated_world = Some ''0xA1''" by code_simp
  moreover have "map fst (w_store activated_world) = [activationStorageKey (Some ''0xA1'') 7]" by code_simp
  then have "k = activationStorageKey (Some ''0xA1'') 7" if "read_act (w_store activated_world) k = Some r" for k r
    using that by (auto simp: read_act_def split: option.splits stored.splits dest!: map_of_SomeD)
  moreover have "colons (activationStorageKey (Some ''0xA1'') 7) \<le> 3" by code_simp
  ultimately show ?thesis
    using activated_list [OF activated_world_reach] by metis
qed

end
