(* ===== verification/Broker_Live.thy ===== *)
theory Broker_Live
  imports Activation Broker_Desk
begin

text \<open>
  Live intents and the validator waitlist in site/brokers/assets/brokers.js, as a state machine
  in the manner of Activation: a handler waiting for a reply is a job, run on the state it
  finds when the reply arrives.  A desk run is a job too, because it reads the current id
  again after its quote has arrived.  \<open>S\<close> is \<open>skillFor\<close>.  Activation records do not change
  here; what changes them is Activation.
\<close>

section \<open>State\<close>

record intent =
  in_tokenId :: nat
  in_skill :: skill
  in_nonce :: string
  in_deadline :: int
  in_owner :: "string option"
  in_ticket :: "ticket option"
  in_ts :: string

record live_row =
  lr_order :: intent
  lr_signature :: string

record waiting =
  wt_address :: string
  wt_id :: nat
  wt_message :: string
  wt_signature :: string
  wt_memo :: string
  wt_cli :: string

datatype live_job =
    LiveConnect nat
  | LiveOwner nat
  | LiveDesk nat "nat option"
  | LiveChain intent
  | LiveSign intent
  | LiveRetry intent
  | Desk nat
  | WaitConnect
  | WaitChain string nat string
  | WaitSign string nat string
  | WaitRetry string nat string

datatype live_event =
    Swapped "string option"
  | Owner_read nat "string option" "string option"
  | Allowed nat "string option"
  | Sign_intent "string option" intent
  | Sign_message "string option" string

record live =
  l_address :: "string option"
  l_chain :: "int option"
  l_id :: "nat option"
  l_minted :: "nat option"
  l_ticket :: "ticket option"
  l_acts :: store
  l_tickets :: "(string \<times> ticket) list"
  l_papers :: "(string \<times> blot list) list"
  l_rows :: "(string \<times> live_row list) list"
  l_waits :: "(string \<times> waiting) list"
  l_jobs :: "live_job list"
  l_trace :: "live_event list"

record live_answers =
  la_wallet :: bool
  la_accounts :: "string option option"
  la_dialogue :: chain_dialogue
  la_owner :: "string option"
  la_quote :: "quote_error + quote"
  la_signature :: "string option"
  la_nonce :: string
  la_seconds :: int
  la_now :: string

definition log_live :: "live_event \<Rightarrow> live \<Rightarrow> live" where "log_live e w = w\<lparr> l_trace := e # l_trace w \<rparr>"
definition await :: "live_job \<Rightarrow> live \<Rightarrow> live" where "await j w = w\<lparr> l_jobs := l_jobs w @ [j] \<rparr>"

definition swap_address :: "string option \<Rightarrow> live \<Rightarrow> live" where
  "swap_address a w =
     (if l_address w = None \<or> l_address w = a then w else log_live (Swapped a) w)\<lparr> l_address := a \<rparr>"

section \<open>Wallet\<close>

definition live_chain :: "live_answers \<Rightarrow> live \<Rightarrow> live \<times> bool" where
  "live_chain ans w =
     (case ensureChain (la_wallet ans) (la_dialogue ans) of
        (c, r) \<Rightarrow> ((case c of None \<Rightarrow> w | Some x \<Rightarrow> w\<lparr> l_chain := x \<rparr>), (case r of Inl _ \<Rightarrow> False | Inr _ \<Rightarrow> True)))"

definition live_connect :: "live_answers \<Rightarrow> live \<Rightarrow> live \<times> bool" where
  "live_connect ans w =
     (if \<not> la_wallet ans then (w, True)
      else case la_accounts ans of
        None \<Rightarrow> (w, False)
      | Some acc \<Rightarrow> live_chain ans (swap_address (first_account acc) w))"

section \<open>Desk runs\<close>

text \<open>
  The reply to a run started for broker \<open>d\<close>: the blotter and the ticket are kept for \<open>d\<close>, but
  the ticket carries the id open now (0 stands for none).  A blocked run clears the ticket.
\<close>

definition desk_reply :: "(nat \<Rightarrow> skill option) \<Rightarrow> nat \<Rightarrow> live_answers \<Rightarrow> live \<Rightarrow> live" where
  "desk_reply S d ans w =
     (case S d of
        None \<Rightarrow> w
      | Some s \<Rightarrow>
          let kp = storageKey (l_address w) ''paper'' d; kt = storageKey (l_address w) ''ticket'' d;
              old = (case map_of (l_papers w) kp of Some qs \<Rightarrow> qs | None \<Rightarrow> []);
              quotes = (case la_quote ans of Inl _ \<Rightarrow> old | Inr q \<Rightarrow> take 40 (stored_quote s (la_now ans) q # old));
              w1 = (case la_quote ans of Inl _ \<Rightarrow> w | Inr _ \<Rightarrow> w\<lparr> l_papers := AList.update kp quotes (l_papers w) \<rparr>)
          in case quotes of
               [] \<Rightarrow> w1\<lparr> l_ticket := None \<rparr>
             | b # _ \<Rightarrow>
                 let t = buildBrokerTicket (case l_id w of Some i \<Rightarrow> i | None \<Rightarrow> 0) s (reread b) quotes (la_now ans)
                 in w1\<lparr> l_tickets := AList.update kt t (l_tickets w1), l_ticket := Some t \<rparr>)"

section \<open>Live intents\<close>

definition buildSkillIntent :: "skill \<Rightarrow> nat \<Rightarrow> live_answers \<Rightarrow> live \<Rightarrow> intent" where
  "buildSkillIntent s i ans w =
     \<lparr> in_tokenId = i, in_skill = s, in_nonce = la_nonce ans, in_deadline = la_seconds ans + 900,
       in_owner = l_address w,
       in_ticket = (case l_ticket w of
          Some t \<Rightarrow> Some t | None \<Rightarrow> map_of (l_tickets w) (storageKey (l_address w) ''ticket'' i)),
       in_ts = la_now ans \<rparr>"

definition start_sign :: "(nat \<Rightarrow> skill option) \<Rightarrow> nat \<Rightarrow> live_answers \<Rightarrow> live \<Rightarrow> live" where
  "start_sign S i ans w =
     (case S i of
        None \<Rightarrow> w
      | Some s \<Rightarrow>
          if \<not> la_wallet ans \<or> l_address w = None then w
          else await (LiveChain (buildSkillIntent s i ans w)) w)"

definition live_owner :: "(nat \<Rightarrow> skill option) \<Rightarrow> nat \<Rightarrow> live_answers \<Rightarrow> live \<Rightarrow> live" where
  "live_owner S i ans w0 =
     (let w = log_live (Owner_read i (la_owner ans) (l_address w0)) w0 in
      case requireOwner (l_minted w) i (la_owner ans) (l_address w) of
        Inl _ \<Rightarrow> w
      | Inr _ \<Rightarrow>
          if \<not> isActivated (l_address w) (l_acts w) i then w
          else let w' = log_live (Allowed i (l_address w)) w in
            (case l_ticket w' of
               Some _ \<Rightarrow> start_sign S i ans w'
             | None \<Rightarrow> await (LiveDesk i (l_id w')) w'))"

definition live_desk :: "(nat \<Rightarrow> skill option) \<Rightarrow> nat \<Rightarrow> nat option \<Rightarrow> live_answers \<Rightarrow> live \<Rightarrow> live" where
  "live_desk S i d ans w =
     start_sign S i ans (case d of None \<Rightarrow> w | Some d \<Rightarrow> desk_reply S d ans w)"

definition live_sign_chain :: "intent \<Rightarrow> live_answers \<Rightarrow> live \<Rightarrow> live" where
  "live_sign_chain x ans w =
     (case live_chain ans w of (w', ok) \<Rightarrow>
        if ok then await (LiveSign x) (log_live (Sign_intent (l_address w') x) w') else w')"

definition keep_intent :: "intent \<Rightarrow> string \<Rightarrow> live \<Rightarrow> live" where
  "keep_intent x sig w =
     (let k = storageKey (l_address w) ''live'' (in_tokenId x);
          rows = (case map_of (l_rows w) k of Some r \<Rightarrow> r | None \<Rightarrow> [])
      in w\<lparr> l_rows := AList.update k (\<lparr> lr_order = x, lr_signature = sig \<rparr> # rows) (l_rows w) \<rparr>)"

definition live_signed :: "intent \<Rightarrow> bool \<Rightarrow> live_answers \<Rightarrow> live \<Rightarrow> live" where
  "live_signed x retry ans w =
     (case la_signature ans of
        Some sig \<Rightarrow> keep_intent x sig w
      | None \<Rightarrow> if retry then await (LiveRetry x) (log_live (Sign_intent (l_address w) x) w) else w)"

section \<open>The waitlist\<close>

definition start_wait :: "live_answers \<Rightarrow> live \<Rightarrow> live" where
  "start_wait ans w =
     (case l_address w of
        None \<Rightarrow> w
      | Some a \<Rightarrow>
          let i = (case l_id w of Some i \<Rightarrow> i | None \<Rightarrow> 1) in
          case map_of (l_waits w) (validatorKey a) of
            Some r \<Rightarrow> if wt_signature r \<noteq> [] then w else await (WaitChain a i (validatorMessage a i)) w
          | None \<Rightarrow> await (WaitChain a i (validatorMessage a i)) w)"

definition keep_wait :: "nat \<Rightarrow> string \<Rightarrow> string \<Rightarrow> live \<Rightarrow> live" where
  "keep_wait i msg sig w =
     (let a = (case l_address w of Some a \<Rightarrow> a | None \<Rightarrow> []) in
      w\<lparr> l_waits := AList.update (validatorKey a)
           \<lparr> wt_address = a, wt_id = i, wt_message = msg, wt_signature = sig,
             wt_memo = validatorMemo a i, wt_cli = validatorCli a i \<rparr> (l_waits w) \<rparr>)"

definition wait_chain :: "string \<Rightarrow> nat \<Rightarrow> string \<Rightarrow> live_answers \<Rightarrow> live \<Rightarrow> live" where
  "wait_chain a i msg ans w =
     (case live_chain ans w of (w', ok) \<Rightarrow>
        if ok then await (WaitSign a i msg) (log_live (Sign_message (l_address w') msg) w') else w')"

definition wait_signed :: "string \<Rightarrow> nat \<Rightarrow> string \<Rightarrow> bool \<Rightarrow> live_answers \<Rightarrow> live \<Rightarrow> live" where
  "wait_signed a i msg retry ans w =
     (case la_signature ans of
        Some sig \<Rightarrow> keep_wait i msg sig w
      | None \<Rightarrow> if retry then await (WaitRetry a i msg) (log_live (Sign_message (l_address w) msg) w) else w)"

section \<open>Runs\<close>

fun live_resume :: "(nat \<Rightarrow> skill option) \<Rightarrow> live_job \<Rightarrow> live_answers \<Rightarrow> live \<Rightarrow> live" where
  "live_resume S (LiveConnect i) ans w =
     (case live_connect ans w of (w', ok) \<Rightarrow> if ok \<and> l_address w' \<noteq> None then await (LiveOwner i) w' else w')"
| "live_resume S (LiveOwner i) ans w = live_owner S i ans w"
| "live_resume S (LiveDesk i d) ans w = live_desk S i d ans w"
| "live_resume S (LiveChain x) ans w = live_sign_chain x ans w"
| "live_resume S (LiveSign x) ans w = live_signed x True ans w"
| "live_resume S (LiveRetry x) ans w = live_signed x False ans w"
| "live_resume S (Desk d) ans w = desk_reply S d ans w"
| "live_resume S WaitConnect ans w =
     (case live_connect ans w of (w', ok) \<Rightarrow> if ok then start_wait ans w' else w')"
| "live_resume S (WaitChain a i msg) ans w = wait_chain a i msg ans w"
| "live_resume S (WaitSign a i msg) ans w = wait_signed a i msg True ans w"
| "live_resume S (WaitRetry a i msg) ans w = wait_signed a i msg False ans w"

datatype live_action =
    Switch_account "string option"
  | Open_broker nat
  | Landing
  | Run_desk
  | Click_live
  | Click_waitlist live_answers
  | Answer nat live_answers

text \<open>\<open>openConsole\<close> shows the stored ticket of the broker, and starts its desk when it is activated.\<close>

fun live_step :: "(nat \<Rightarrow> skill option) \<Rightarrow> live_action \<Rightarrow> live \<Rightarrow> live" where
  "live_step S (Switch_account a) w = swap_address (first_account a) w"
| "live_step S (Open_broker i) w =
     (let w' = w\<lparr> l_id := Some i, l_ticket := map_of (l_tickets w) (storageKey (l_address w) ''ticket'' i) \<rparr>
      in if isActivated (l_address w') (l_acts w') i then await (Desk i) w' else w')"
| "live_step S Landing w = w\<lparr> l_id := None \<rparr>"
| "live_step S Run_desk w = (case l_id w of None \<Rightarrow> w | Some i \<Rightarrow> if S i = None then w else await (Desk i) w)"
| "live_step S Click_live w =
     (case l_id w of
        None \<Rightarrow> w
      | Some i \<Rightarrow>
          if S i = None then w
          else await (if l_address w = None then LiveConnect i else LiveOwner i) w)"
| "live_step S (Click_waitlist ans) w = (if l_address w = None then await WaitConnect w else start_wait ans w)"
| "live_step S (Answer n ans) w =
     (if n < length (l_jobs w)
      then live_resume S (l_jobs w ! n) ans (w\<lparr> l_jobs := take n (l_jobs w) @ drop (Suc n) (l_jobs w) \<rparr>)
      else w)"

text \<open>A page just loaded, with whatever the storage holds.\<close>

definition loaded :: "live \<Rightarrow> bool" where
  "loaded w \<longleftrightarrow> l_jobs w = [] \<and> l_trace w = [] \<and> l_id w = None \<and> l_ticket w = None \<and> l_rows w = []"

inductive live_reach :: "(nat \<Rightarrow> skill option) \<Rightarrow> store \<Rightarrow> live \<Rightarrow> bool" for S acts where
  loaded: "loaded w \<Longrightarrow> l_acts w = acts \<Longrightarrow> live_reach S acts w"
| step: "live_reach S acts w \<Longrightarrow> live_reach S acts (live_step S x w)"

section \<open>The invariant\<close>

definition swapped :: "live_event list \<Rightarrow> bool" where
  "swapped tr \<longleftrightarrow> (\<exists>x. Swapped x \<in> set tr)"

definition passed :: "store \<Rightarrow> live_event list \<Rightarrow> nat \<Rightarrow> string option \<Rightarrow> bool" where
  "passed acts tr i c \<longleftrightarrow>
     (\<exists>own. Owner_read i own c \<in> set tr \<and> sameAddr own c) \<and> Allowed i c \<in> set tr \<and> isActivated c acts i"

text \<open>The account that passed the checks is the one named, unless accounts were switched.\<close>

definition vetted :: "store \<Rightarrow> live_event list \<Rightarrow> nat \<Rightarrow> string option \<Rightarrow> bool" where
  "vetted acts tr i a \<longleftrightarrow> (\<exists>c. passed acts tr i c \<and> (c = a \<or> swapped tr))"

definition asked :: "live_event list \<Rightarrow> intent \<Rightarrow> bool" where
  "asked tr x \<longleftrightarrow> (\<exists>b. Sign_intent b x \<in> set tr)"

definition own_intent :: "live_event list \<Rightarrow> string option \<Rightarrow> intent \<Rightarrow> bool" where
  "own_intent tr a x \<longleftrightarrow> in_owner x = a \<or> swapped tr"

fun live_job_ok :: "store \<Rightarrow> live_event list \<Rightarrow> string option \<Rightarrow> live_job \<Rightarrow> bool" where
  "live_job_ok acts tr ad (LiveDesk i d) \<longleftrightarrow> vetted acts tr i ad"
| "live_job_ok acts tr ad (LiveChain x) \<longleftrightarrow> vetted acts tr (in_tokenId x) ad \<and> own_intent tr ad x"
| "live_job_ok acts tr ad (LiveSign x) \<longleftrightarrow> vetted acts tr (in_tokenId x) ad \<and> own_intent tr ad x \<and> asked tr x"
| "live_job_ok acts tr ad (LiveRetry x) \<longleftrightarrow> vetted acts tr (in_tokenId x) ad \<and> own_intent tr ad x \<and> asked tr x"
| "live_job_ok acts tr ad _ \<longleftrightarrow> True"

fun signs_ok :: "store \<Rightarrow> live_event list \<Rightarrow> bool" where
  "signs_ok acts [] = True"
| "signs_ok acts (Sign_intent b x # tr) = (vetted acts tr (in_tokenId x) b \<and> own_intent tr b x \<and> signs_ok acts tr)"
| "signs_ok acts (_ # tr) = signs_ok acts tr"

definition rows_asked :: "live_event list \<Rightarrow> string \<Rightarrow> live_row list \<Rightarrow> bool" where
  "rows_asked tr k rs \<longleftrightarrow> list_all (\<lambda>r. asked tr (lr_order r)) rs"

definition live_inv :: "store \<Rightarrow> live \<Rightarrow> bool" where
  "live_inv acts w \<longleftrightarrow> l_acts w = acts \<and> signs_ok acts (l_trace w) \<and>
     list_all (live_job_ok acts (l_trace w) (l_address w)) (l_jobs w) \<and>
     local_storage.holds (rows_asked (l_trace w)) (l_rows w)"

lemma live_mono:
  "vetted acts tr i a \<Longrightarrow> vetted acts (e # tr) i a" "own_intent tr a x \<Longrightarrow> own_intent (e # tr) a x"
  "asked tr x \<Longrightarrow> asked (e # tr) x" "swapped tr \<Longrightarrow> swapped (e # tr)"
  by (auto simp: vetted_def passed_def own_intent_def asked_def swapped_def)

lemma live_job_mono: "live_job_ok acts tr ad j \<Longrightarrow> live_job_ok acts (e # tr) ad j"
  by (cases j) (simp_all add: live_mono)

lemma live_jobs_mono: "list_all (live_job_ok acts tr ad) js \<Longrightarrow> list_all (live_job_ok acts (e # tr) ad) js"
  by (simp add: list_all_iff live_job_mono)

lemma rows_mono: "local_storage.holds (rows_asked tr) rs \<Longrightarrow> local_storage.holds (rows_asked (e # tr)) rs"
  by (erule local_storage.holds_mono) (simp add: rows_asked_def list_all_iff live_mono)

fun plain :: "live_event \<Rightarrow> bool" where
  "plain (Sign_intent _ _) = False"
| "plain _ = True"

lemma live_log: "live_inv acts w \<Longrightarrow> plain e \<Longrightarrow> live_inv acts (log_live e w)"
  by (cases e) (simp_all add: live_inv_def log_live_def live_jobs_mono rows_mono)

lemma live_log_sign:
  "live_inv acts w \<Longrightarrow> vetted acts (l_trace w) (in_tokenId x) b \<Longrightarrow> own_intent (l_trace w) b x \<Longrightarrow>
   live_inv acts (log_live (Sign_intent b x) w)"
  by (simp add: live_inv_def log_live_def live_jobs_mono rows_mono)

lemma live_await: "live_inv acts w \<Longrightarrow> live_job_ok acts (l_trace w) (l_address w) j \<Longrightarrow> live_inv acts (await j w)"
  by (simp add: live_inv_def await_def)

lemma live_sel [simp]:
  "l_trace (await j w) = l_trace w" "l_trace (log_live e w) = e # l_trace w"
  "l_address (await j w) = l_address w" "l_address (log_live e w) = l_address w"
  "l_acts (await j w) = l_acts w" "l_acts (log_live e w) = l_acts w"
  "l_ticket (log_live e w) = l_ticket w" "l_id (log_live e w) = l_id w" "l_minted (log_live e w) = l_minted w"
  by (simp_all add: await_def log_live_def)

lemma live_updates [simp]:
  "live_inv acts (w\<lparr> l_chain := c \<rparr>) = live_inv acts w" "live_inv acts (w\<lparr> l_id := i \<rparr>) = live_inv acts w"
  "live_inv acts (w\<lparr> l_ticket := t \<rparr>) = live_inv acts w" "live_inv acts (w\<lparr> l_tickets := ts \<rparr>) = live_inv acts w"
  "live_inv acts (w\<lparr> l_papers := ps \<rparr>) = live_inv acts w" "live_inv acts (w\<lparr> l_waits := ws \<rparr>) = live_inv acts w"
  by (simp_all add: live_inv_def)

lemma passed_None: "\<not> passed acts tr i None"
  by (simp add: passed_def isActivated_def)

lemma live_job_address:
  "live_job_ok acts tr ad j \<Longrightarrow> ad = None \<or> ad = ad' \<or> swapped tr \<Longrightarrow> live_job_ok acts tr ad' j"
  using passed_None by (cases j) (auto simp: vetted_def own_intent_def)

lemma live_swap: "live_inv acts w \<Longrightarrow> live_inv acts (swap_address a w)"
proof -
  assume w: "live_inv acts w"
  let ?w = "if l_address w = None \<or> l_address w = a then w else log_live (Swapped a) w"
  have i: "live_inv acts ?w" using w by (simp add: live_log)
  have "l_address ?w = None \<or> l_address ?w = a \<or> swapped (l_trace ?w)" by (auto simp: swapped_def)
  then have "list_all (live_job_ok acts (l_trace ?w) a) (l_jobs ?w)"
    using i unfolding live_inv_def list_all_iff by (blast intro: live_job_address)
  then have "live_inv acts (?w\<lparr> l_address := a \<rparr>)" using i by (simp add: live_inv_def)
  then show ?thesis by (simp add: swap_address_def)
qed

lemma live_chain_inv:
  assumes "live_chain ans w = (w', ok)" "live_inv acts w"
  shows "live_inv acts w'" "l_trace w' = l_trace w" "l_address w' = l_address w"
  using assms by (auto simp: live_chain_def split: prod.splits option.splits)

lemma live_connect_inv: "live_connect ans w = (w', ok) \<Longrightarrow> live_inv acts w \<Longrightarrow> live_inv acts w'"
  by (auto simp: live_connect_def split: if_splits option.splits dest: live_chain_inv(1) intro: live_swap)

lemma desk_reply_sel [simp]:
  "l_trace (desk_reply S d ans w) = l_trace w" "l_address (desk_reply S d ans w) = l_address w"
  "live_inv acts (desk_reply S d ans w) = live_inv acts w"
  by (auto simp: desk_reply_def Let_def split: option.split list.split sum.split)

lemma start_sign_inv: "live_inv acts w \<Longrightarrow> vetted acts (l_trace w) i (l_address w) \<Longrightarrow> live_inv acts (start_sign S i ans w)"
  by (auto simp: start_sign_def buildSkillIntent_def own_intent_def intro!: live_await split: option.split)

lemma live_owner_inv:
  assumes "live_inv acts w"
  shows "live_inv acts (live_owner S i ans w)"
proof (cases "requireOwner (l_minted w) i (la_owner ans) (l_address w)")
  case (Inr o')
  let ?a = "l_address w" let ?w = "log_live (Owner_read i (la_owner ans) ?a) w"
  have acts: "l_acts w = acts" using assms by (simp add: live_inv_def)
  from Inr have same: "sameAddr (la_owner ans) ?a" by (auto simp: requireOwner_def split: option.splits if_splits)
  show ?thesis
  proof (cases "isActivated ?a acts i")
    case True
    let ?w' = "log_live (Allowed i ?a) ?w"
    have "passed acts (l_trace ?w') i ?a" using same True by (auto simp: passed_def)
    then have v: "vetted acts (l_trace ?w') i ?a" by (auto simp: vetted_def)
    have i: "live_inv acts ?w'" using assms by (simp add: live_log)
    show ?thesis
      using start_sign_inv [OF i, of i S ans] live_await [OF i, of "LiveDesk i (l_id w)"] v Inr True
      by (simp add: live_owner_def acts Let_def split: option.split)
  qed (use Inr acts assms in \<open>simp add: live_owner_def live_log Let_def\<close>)
qed (use assms in \<open>simp add: live_owner_def live_log Let_def\<close>)

lemma live_sign_chain_inv:
  assumes "live_inv acts w" "live_job_ok acts (l_trace w) (l_address w) (LiveChain x)"
  shows "live_inv acts (live_sign_chain x ans w)"
proof -
  obtain w' ok where c: "live_chain ans w = (w', ok)" by (cases "live_chain ans w")
  note w' = live_chain_inv [OF c assms(1)]
  from assms(2) have "live_inv acts (log_live (Sign_intent (l_address w') x) w')"
    by (intro live_log_sign w'(1)) (simp_all add: w')
  then show ?thesis using assms(2) w' c
    by (auto simp: live_sign_chain_def asked_def live_mono intro!: live_await)
qed

lemma keep_intent_inv: "live_inv acts w \<Longrightarrow> asked (l_trace w) x \<Longrightarrow> live_inv acts (keep_intent x sig w)"
  unfolding live_inv_def keep_intent_def Let_def
  by (auto intro!: local_storage.holds_put simp: rows_asked_def split: option.split dest: local_storage.holds_get)

lemma live_signed_inv:
  assumes "live_inv acts w" "live_job_ok acts (l_trace w) (l_address w) (LiveSign x)"
  shows "live_inv acts (live_signed x retry ans w)"
proof -
  have "live_inv acts (log_live (Sign_intent (l_address w) x) w)"
    using assms by (simp add: live_log_sign)
  then show ?thesis using assms keep_intent_inv [OF assms(1)]
    by (auto simp: live_signed_def live_mono intro!: live_await split: option.split)
qed

lemma wait_inv:
  "live_inv acts w \<Longrightarrow> live_inv acts (start_wait ans w)"
  "live_inv acts w \<Longrightarrow> live_inv acts (keep_wait i msg sig w)"
  "live_inv acts w \<Longrightarrow> live_inv acts (wait_chain a i msg ans w)"
  "live_inv acts w \<Longrightarrow> live_inv acts (wait_signed a i msg retry ans w)"
  by (auto simp: start_wait_def keep_wait_def wait_chain_def wait_signed_def Let_def intro!: live_await live_log
      split: option.split prod.split dest: live_chain_inv(1))

lemma live_resume_inv:
  "live_inv acts w \<Longrightarrow> live_job_ok acts (l_trace w) (l_address w) j \<Longrightarrow> live_inv acts (live_resume S j ans w)"
  by (cases j)
    (auto simp: live_owner_inv live_sign_chain_inv live_signed_inv wait_inv live_desk_def
      intro!: live_await start_sign_inv split: prod.split option.split dest: live_connect_inv)

lemma live_drop_job:
  assumes "live_inv acts w" "n < length (l_jobs w)"
  shows "live_inv acts (w\<lparr> l_jobs := take n (l_jobs w) @ drop (Suc n) (l_jobs w) \<rparr>)"
    "live_job_ok acts (l_trace w) (l_address w) (l_jobs w ! n)"
  using assms by (auto simp: live_inv_def list_all_iff dest: in_set_takeD in_set_dropD)

lemma live_step_inv: "live_inv acts w \<Longrightarrow> live_inv acts (live_step S x w)"
proof (cases x)
  case (Answer n ans)
  assume w: "live_inv acts w"
  show ?thesis using live_drop_job [OF w] w Answer by (simp add: live_resume_inv)
qed (auto simp: Let_def wait_inv live_swap intro!: live_await split: option.split)

lemma live_reach_inv: "live_reach S acts w \<Longrightarrow> live_inv acts w"
proof (induction rule: live_reach.induct)
  case (loaded w)
  then show ?case by (auto simp: loaded_def live_inv_def local_storage.holds_def)
qed (rule live_step_inv)

section \<open>What a run guarantees\<close>

lemma signs_ok_suffix: "signs_ok acts (later @ Sign_intent b x # earlier) \<Longrightarrow>
    vetted acts earlier (in_tokenId x) b \<and> own_intent earlier b x"
proof (induction later)
  case (Cons e later)
  then show ?case by (cases e) auto
qed simp

fun live_runs :: "(nat \<Rightarrow> skill option) \<Rightarrow> live_action list \<Rightarrow> live \<Rightarrow> live" where
  "live_runs S [] w = w"
| "live_runs S (x # xs) w = live_runs S xs (live_step S x w)"

lemma live_runs_reach: "live_reach S acts w \<Longrightarrow> live_reach S acts (live_runs S xs w)"
  by (induction xs arbitrary: w) (auto intro: live_reach.step)

text \<open>A page of account A1, which has activated broker 8; brokers 7 and 8 have a skill.\<close>

definition two_skills :: "nat \<Rightarrow> skill option" where
  "two_skills i =
     (if i = 7 then Some rpc_skill
      else if i = 8 then Some (skill_row 8 ''CBK-S-1'' \<lparr> deskI = 3, roleI = 3, pairI = 2, tfI = 0, riskI = 0 \<rparr>)
      else None)"

definition acts_8 :: store where
  "acts_8 = [(activationStorageKey (Some ''0xA1'') 8,
     SAct (activation_record (Some ''0xA1'') 8 ''0xbeef'' ''0x'' (Some 4663) True ''t''))]"

definition page_A1 :: live where
  "page_A1 = \<lparr> l_address = Some ''0xA1'', l_chain = None, l_id = None, l_minted = Some 5000, l_ticket = None,
     l_acts = acts_8, l_tickets = [], l_papers = [], l_rows = [], l_waits = [], l_jobs = [], l_trace = [] \<rparr>"

lemma page_A1_reach: "live_reach two_skills acts_8 page_A1"
  by (rule live_reach.loaded) (simp_all add: page_A1_def loaded_def)

definition agreeable :: live_answers where
  "agreeable = \<lparr> la_wallet = True, la_accounts = Some (Some ''0xA1''),
     la_dialogue = \<lparr> first_chain = Inr ''0x1237'', switch_reply = Inr (), add_reply = Inr (), second_chain = Inr ''0x1237'' \<rparr>,
     la_owner = Some ''0xa1'',
     la_quote = Inr \<lparr> q_value = ''4242'', q_label = ''ire-1 height 4242 (testnet)'', q_source = ''ire-rpc/status'', q_kind = ''height'' \<rparr>,
     la_signature = Some ''0x51'', la_nonce = ''00'', la_seconds = 1000, la_now = ''t'' \<rparr>"

definition run_to_sign :: "live_action list" where
  "run_to_sign = [Open_broker 8, Answer 0 agreeable, Click_live, Answer 0 agreeable, Answer 0 agreeable]"

definition signing_page :: live where "signing_page = live_runs two_skills run_to_sign page_A1"

lemma signing_trace: "l_trace signing_page =
    [] @ Sign_intent (Some ''0xA1'')
      \<lparr> in_tokenId = 8, in_skill = the (two_skills 8), in_nonce = ''00'', in_deadline = 1900,
        in_owner = Some ''0xA1'', in_ticket = l_ticket signing_page, in_ts = ''t'' \<rparr> #
    [Allowed 8 (Some ''0xA1''), Owner_read 8 (Some ''0xa1'') (Some ''0xA1'')]"
  by code_simp

text \<open>
  Property C3: Whatever happens meanwhile, the wallet is asked to sign a live intent only after
  the owner on the chain was read to be the connected account and this account had
  activated the broker; that account is the one asked and the one named in the intent,
  unless the user switched accounts in between.
\<close>

theorem live_guarded:
  assumes "live_reach S acts w" "l_trace w = later @ Sign_intent b x # earlier"
  shows "\<exists>own c. Owner_read (in_tokenId x) own c \<in> set earlier \<and> sameAddr own c \<and>
    isActivated c acts (in_tokenId x) \<and> (c = b \<and> in_owner x = b \<or> (\<exists>a. Swapped a \<in> set earlier))"
proof -
  have "signs_ok acts (later @ Sign_intent b x # earlier)"
    using live_reach_inv [OF assms(1)] assms(2) by (simp add: live_inv_def)
  from signs_ok_suffix [OF this] show ?thesis
    unfolding vetted_def passed_def own_intent_def swapped_def by blast
qed

theorem live_guarded_witness:
  "\<exists>own c. Owner_read 8 own c \<in> set [Allowed 8 (Some ''0xA1''), Owner_read 8 (Some ''0xa1'') (Some ''0xA1'')] \<and>
     sameAddr own c \<and> isActivated c acts_8 8"
  using live_guarded [OF live_runs_reach [OF page_A1_reach, of run_to_sign, folded signing_page_def] signing_trace] by auto


end
