(* ===== verification/Broker_Console.thy ===== *)
theory Broker_Console
  imports Broker_Live Broker_Pages
begin

text \<open>
  The brokers' page as a whole (site/brokers/assets/brokers.js): which section \<open>route\<close> shows,
  \<open>openConsole\<close>, the agent's desk that starts after an activation (\<open>startAgentDesk\<close>) and its
  heartbeat, on top of the machine of Broker_Live; and the texts the console, the picker and
  the list of one's own brokers show.  \<open>S\<close> is \<open>skillFor\<close>; an agent's desk waits for its quote,
  and meanwhile the user and the other handlers go on.
\<close>

section \<open>State\<close>

record sections =
  sec_landing :: bool
  sec_console :: bool
  sec_picker :: bool
  sec_activated :: bool
  sec_my :: bool

record working =
  wk_status :: string
  wk_id :: nat
  wk_skill :: "skill option"
  wk_label :: "string option"
  wk_source :: "string option"
  wk_ts :: string

record agent_run =
  ag_id :: nat
  ag_prev :: "nat option"

text \<open>\<open>k_shown\<close> is the broker whose console was drawn last, \<open>k_timer\<close> that of the heartbeat.\<close>

record console =
  k_live :: live
  k_sections :: sections
  k_shown :: "nat option"
  k_timer :: "nat option"
  k_working :: "(string \<times> working) list"
  k_agents :: "agent_run list"

definition console_activated :: "console \<Rightarrow> nat \<Rightarrow> bool" where
  "console_activated k i = isActivated (l_address (k_live k)) (l_acts (k_live k)) i"

definition set_open :: "nat option \<Rightarrow> console \<Rightarrow> console" where
  "set_open i k = k\<lparr> k_live := (k_live k)\<lparr> l_id := i \<rparr> \<rparr>"

section \<open>The agent's desk\<close>

text \<open>\<open>startAgentDesk\<close> up to its first \<open>await\<close>: it makes its broker the open one.\<close>

definition start_agent :: "nat \<Rightarrow> console \<Rightarrow> console" where
  "start_agent i k =
     (if i = 0 \<or> \<not> console_activated k i then k
      else set_open (Some i) (k\<lparr> k_agents := k_agents k @ [\<lparr> ag_id = i, ag_prev = l_id (k_live k) \<rparr>] \<rparr>))"

definition markAgentWorking :: "nat \<Rightarrow> blot \<Rightarrow> skill option \<Rightarrow> string \<Rightarrow> working" where
  "markAgentWorking i b s stamp =
     \<lparr> wk_status = ''WORKING'', wk_id = i, wk_skill = s,
       wk_label = Some (or_str (b_label b) (b_value b)), wk_source = Some (b_source b), wk_ts = stamp \<rparr>"

definition ready_record :: "nat \<Rightarrow> skill \<Rightarrow> string \<Rightarrow> working" where
  "ready_record i s stamp =
     \<lparr> wk_status = ''READY'', wk_id = i, wk_skill = Some s, wk_label = None, wk_source = None, wk_ts = stamp \<rparr>"

definition latest_quote :: "live \<Rightarrow> nat \<Rightarrow> blot option" where
  "latest_quote w i =
     (case map_of (l_papers w) (storageKey (l_address w) ''paper'' i) of Some (b # _) \<Rightarrow> Some b | _ \<Rightarrow> None)"

definition startDeskHeartbeat :: "nat \<Rightarrow> console \<Rightarrow> console" where
  "startDeskHeartbeat i k = k\<lparr> k_timer := (if i \<noteq> 0 \<and> console_activated k i then Some i else None) \<rparr>"

text \<open>
  The rest of it, when the quote has arrived or failed: the record of the agent, the
  heartbeat, and the broker that was open before, if that was another one.
\<close>

definition finish_agent :: "(nat \<Rightarrow> skill option) \<Rightarrow> agent_run \<Rightarrow> live_answers \<Rightarrow> console \<Rightarrow> console" where
  "finish_agent S run ans k =
     (let i = ag_id run; w = desk_reply S i ans (k_live k);
          key = storageKey (l_address w) ''working'' i;
          k1 = k\<lparr> k_live := w \<rparr>;
          k2 = (case (latest_quote w i, S i) of
                  (Some b, s) \<Rightarrow> k1\<lparr> k_working := AList.update key (markAgentWorking i b s (la_now ans)) (k_working k1) \<rparr>
                | (None, Some s) \<Rightarrow> k1\<lparr> k_working := AList.update key (ready_record i s (la_now ans)) (k_working k1) \<rparr>
                | _ \<Rightarrow> k1);
          k3 = startDeskHeartbeat i k2
      in case ag_prev run of
           Some p \<Rightarrow> if p \<noteq> i then set_open (Some p) k3 else k3
         | None \<Rightarrow> k3)"

section \<open>Navigation\<close>

definition openConsole :: "nat \<Rightarrow> console \<Rightarrow> console" where
  "openConsole i k =
     (let w = k_live k;
          k' = k\<lparr> k_live := w\<lparr> l_id := Some i,
                     l_ticket := map_of (l_tickets w) (storageKey (l_address w) ''ticket'' i) \<rparr>,
                  k_sections := (k_sections k)\<lparr> sec_landing := False, sec_console := True \<rparr>,
                  k_shown := Some i, k_timer := None \<rparr>
      in if console_activated k' i then start_agent i k' else k')"

definition openLanding :: "console \<Rightarrow> console" where
  "openLanding k = set_open None (k\<lparr> k_sections := (k_sections k)\<lparr> sec_landing := True, sec_console := False \<rparr> \<rparr>)"

definition route :: "nat option \<Rightarrow> string \<Rightarrow> console \<Rightarrow> console" where
  "route i page k =
     (let s = (k_sections k)\<lparr> sec_activated := page = ''activated'' \<and> i = None, sec_my := page = ''my'' \<and> i = None \<rparr> in
      case i of
        Some i \<Rightarrow> openConsole i (k\<lparr> k_sections := s\<lparr> sec_picker := False, sec_landing := False, sec_my := False \<rparr> \<rparr>)
      | None \<Rightarrow>
          if page = ''activate''
          then k\<lparr> k_sections := s\<lparr> sec_landing := False, sec_console := False, sec_picker := True \<rparr> \<rparr>
          else if page = ''activated'' \<or> page = ''my''
          then k\<lparr> k_sections := s\<lparr> sec_landing := False, sec_console := False, sec_picker := False \<rparr> \<rparr>
          else openLanding (k\<lparr> k_sections := s\<lparr> sec_picker := False \<rparr> \<rparr>))"

definition heartbeat :: "(nat \<Rightarrow> skill option) \<Rightarrow> console \<Rightarrow> console" where
  "heartbeat S k =
     (case k_timer k of
        None \<Rightarrow> k
      | Some i \<Rightarrow>
          if l_id (k_live k) \<noteq> Some i \<or> \<not> console_activated k i then k\<lparr> k_timer := None \<rparr>
          else k\<lparr> k_live := live_step S Run_desk (k_live k) \<rparr>)"

text \<open>
  What can happen: navigation, an activation of a token confirmed (\<open>onActivate\<close> starts the
  agent of the token it was clicked for), one recovered from a transaction (which opens its
  token first), the reply to an agent's desk, a beat, and the other actions of Broker_Live.
\<close>

datatype console_action =
    Go "nat option" string
  | Activation_done nat
  | Recovered nat
  | Agent_reply nat live_answers
  | Beat
  | Act live_action

fun navigates :: "live_action \<Rightarrow> bool" where
  "navigates (Open_broker _) = True"
| "navigates Landing = True"
| "navigates _ = False"

fun console_step :: "(nat \<Rightarrow> skill option) \<Rightarrow> console_action \<Rightarrow> console \<Rightarrow> console" where
  "console_step S (Go i page) k = route i page k"
| "console_step S (Activation_done i) k = start_agent i k"
| "console_step S (Recovered i) k = start_agent i (set_open (Some i) k)"
| "console_step S (Agent_reply n ans) k =
     (if n < length (k_agents k)
      then finish_agent S (k_agents k ! n) ans (k\<lparr> k_agents := take n (k_agents k) @ drop (Suc n) (k_agents k) \<rparr>)
      else k)"
| "console_step S Beat k = heartbeat S k"
| "console_step S (Act x) k = (if navigates x then k else k\<lparr> k_live := live_step S x (k_live k) \<rparr>)"

text \<open>The page after its first \<open>route\<close>.\<close>

inductive console_reach :: "(nat \<Rightarrow> skill option) \<Rightarrow> (console \<Rightarrow> console_action \<Rightarrow> bool) \<Rightarrow> console \<Rightarrow> bool" for S ok where
  loaded: "k_agents k = [] \<Longrightarrow> k_timer k = None \<Longrightarrow> loaded (k_live k) \<Longrightarrow> console_reach S ok (route i page k)"
| step: "console_reach S ok k \<Longrightarrow> ok k x \<Longrightarrow> console_reach S ok (console_step S x k)"

section \<open>Sections\<close>

definition visible :: "sections \<Rightarrow> nat" where
  "visible s = length (filter id [sec_landing s, sec_console s, sec_picker s, sec_activated s, sec_my s])"

lemma open_frame [simp]:
  "k_sections (set_open i k) = k_sections k" "k_shown (set_open i k) = k_shown k"
  "k_sections (start_agent j k) = k_sections k" "k_shown (start_agent j k) = k_shown k"
  "k_sections (heartbeat S k) = k_sections k" "k_shown (heartbeat S k) = k_shown k"
  "k_sections (finish_agent S r ans k) = k_sections k" "k_shown (finish_agent S r ans k) = k_shown k"
  "k_agents (set_open i k) = k_agents k"
  "k_agents (finish_agent S r ans k) = k_agents k" "k_agents (heartbeat S k) = k_agents k"
  by (simp_all add: set_open_def start_agent_def heartbeat_def finish_agent_def startDeskHeartbeat_def Let_def
      split: option.split)

lemma route_visible: "visible (k_sections (route i page k)) = 1"
proof (cases i)
  case (Some j)
  then show ?thesis by (simp add: route_def openConsole_def Let_def visible_def)
next
  case None
  have pages: "''activate'' \<noteq> ''activated''" "''activate'' \<noteq> ''my''" "''activated'' \<noteq> ''my''" by simp_all
  consider "page = ''activate''" | "page = ''activated''" | "page = ''my''"
    | "page \<noteq> ''activate''" "page \<noteq> ''activated''" "page \<noteq> ''my''" by blast
  then show ?thesis
    by cases (use None pages in \<open>simp_all only: route_def openLanding_def Let_def option.case if_True if_False simp_thms\<close>,
        simp_all add: visible_def)
qed

lemma step_visible: "visible (k_sections k) = 1 \<Longrightarrow> visible (k_sections (console_step S x k)) = 1"
  by (cases x) (simp_all add: route_visible)


section \<open>The open broker and the one on show\<close>

text \<open>No handler of Broker_Live but navigation changes the open broker.\<close>

lemma live_connect_id: "live_connect ans w = (w', ok) \<Longrightarrow> l_id w' = l_id w"
  by (auto simp: live_connect_def live_chain_def swap_address_def log_live_def
      split: if_splits option.splits prod.splits sum.splits)

lemma live_chain_id: "live_chain ans w = (w', ok) \<Longrightarrow> l_id w' = l_id w"
  by (auto simp: live_chain_def split: option.splits prod.splits)

lemma desk_reply_id [simp]: "l_id (desk_reply S d ans w) = l_id w"
  by (simp add: desk_reply_def Let_def split: option.split list.split sum.split)

lemma live_frame [simp]:
  "l_id (await j w) = l_id w" "l_id (log_live e w) = l_id w" "l_id (swap_address a w) = l_id w"
  "l_id (start_sign S i ans w) = l_id w" "l_id (keep_intent x sig w) = l_id w" "l_id (keep_wait i msg sig w) = l_id w"
  "l_id (start_wait ans w) = l_id w"
  by (simp_all add: await_def log_live_def swap_address_def start_sign_def keep_intent_def keep_wait_def start_wait_def
      Let_def split: option.split)

lemma live_resume_id: "l_id (live_resume S j ans w) = l_id w"
  by (cases j)
    (auto simp: live_owner_def live_desk_def live_sign_chain_def live_signed_def wait_chain_def wait_signed_def Let_def
      split: option.split prod.split sum.split dest: live_connect_id live_chain_id)

lemma live_step_id: "\<not> navigates x \<Longrightarrow> l_id (live_step S x w) = l_id w"
  by (cases x) (simp_all add: live_resume_id split: option.split)

text \<open>Activations confirmed or recovered for the broker that is open.\<close>

fun aligned :: "console \<Rightarrow> console_action \<Rightarrow> bool" where
  "aligned k (Activation_done i) = (l_id (k_live k) = Some i)"
| "aligned k (Recovered i) = (l_id (k_live k) = Some i)"
| "aligned k _ = True"

definition in_step :: "console \<Rightarrow> bool" where
  "in_step k \<longleftrightarrow> (sec_console (k_sections k) \<longrightarrow> l_id (k_live k) = k_shown k) \<and>
     list_all (\<lambda>r. ag_prev r = Some (ag_id r)) (k_agents k)"

lemma in_step_start: "in_step k \<Longrightarrow> l_id (k_live k) = Some i \<Longrightarrow> in_step (start_agent i k)"
  by (auto simp: in_step_def start_agent_def set_open_def)

lemma in_step_finish:
  "in_step k \<Longrightarrow> ag_prev r = Some (ag_id r) \<Longrightarrow> in_step (finish_agent S r ans k)"
  by (simp add: in_step_def) (simp add: finish_agent_def startDeskHeartbeat_def Let_def split: option.split)

definition own_runs :: "console \<Rightarrow> bool" where
  "own_runs k \<longleftrightarrow> list_all (\<lambda>r. ag_prev r = Some (ag_id r)) (k_agents k)"

lemma in_step_own: "in_step k \<Longrightarrow> own_runs k"
  by (simp add: in_step_def own_runs_def)

lemma in_step_open: "own_runs k \<Longrightarrow> in_step (openConsole i k)"
  by (auto simp: openConsole_def Let_def intro!: in_step_start) (auto simp: in_step_def own_runs_def)

lemma in_step_route: "own_runs k \<Longrightarrow> in_step (route i page k)"
proof (cases i)
  case None
  assume "own_runs k"
  with None show ?thesis by (simp add: route_def openLanding_def Let_def set_open_def in_step_def own_runs_def)
next
  case (Some j)
  assume "own_runs k"
  then show ?thesis unfolding route_def Let_def Some option.case by (intro in_step_open) (simp add: own_runs_def)
qed

lemma in_step_beat: "in_step k \<Longrightarrow> in_step (heartbeat S k)"
proof -
  have "l_id (k_live (heartbeat S k)) = l_id (k_live k)"
    by (simp add: heartbeat_def live_step_id del: live_step.simps split: option.split)
  then show "in_step k \<Longrightarrow> in_step (heartbeat S k)" by (simp add: in_step_def)
qed

lemma in_step_step: "in_step k \<Longrightarrow> aligned k x \<Longrightarrow> in_step (console_step S x k)"
proof (cases x)
  case (Recovered i)
  assume k: "in_step k" and al: "aligned k x"
  have "set_open (Some i) k = k" using al Recovered by (simp add: set_open_def)
  then show ?thesis using k al Recovered by (simp add: in_step_start)
next
  case (Agent_reply n ans)
  assume k: "in_step k"
  have "in_step (k\<lparr> k_agents := take n (k_agents k) @ drop (Suc n) (k_agents k) \<rparr>)"
    using k by (auto simp: in_step_def list_all_iff dest: in_set_takeD in_set_dropD)
  moreover have "ag_prev (k_agents k ! n) = Some (ag_id (k_agents k ! n))" if "n < length (k_agents k)"
    using k that by (simp add: in_step_def list_all_length)
  ultimately show ?thesis using Agent_reply k by (simp add: in_step_finish)
next
  case (Act y)
  assume "in_step k"
  then show ?thesis using Act by (simp add: in_step_def live_step_id del: live_step.simps)
qed (simp_all add: in_step_start in_step_route in_step_own in_step_beat)

text \<open>
  Property C6: After every sequence of page visits, activations, desk runs, heartbeats and
  clicks exactly one section of the page is visible; and while activations are confirmed
  and recovered for the open broker only, the broker whose console is visible is the one
  the buttons act on.
\<close>

theorem console_sections:
  assumes "console_reach S ok k"
  shows "visible (k_sections k) = 1 \<and>
    ((\<forall>k x. ok k x = aligned k x) \<longrightarrow> sec_console (k_sections k) \<longrightarrow> l_id (k_live k) = k_shown k)"
proof -
  have "visible (k_sections k) = 1"
    using assms by (induction rule: console_reach.induct) (simp_all add: route_visible step_visible)
  moreover have "in_step k" if "\<forall>k x. ok k x = aligned k x"
    using assms that
    by (induction rule: console_reach.induct) (auto intro: in_step_route in_step_step simp: own_runs_def)
  ultimately show ?thesis by (simp add: in_step_def)
qed

definition page_7_8 :: live where
  "page_7_8 = page_A1\<lparr> l_acts := map (\<lambda>i. (activationStorageKey (Some ''0xA1'') i,
     SAct (activation_record (Some ''0xA1'') i ''0xbeef'' ''0x'' (Some 4663) True ''t''))) [7, 8] \<rparr>"

definition before_route :: console where
  "before_route = \<lparr> k_live = page_7_8,
     k_sections = \<lparr> sec_landing = True, sec_console = False, sec_picker = False, sec_activated = False, sec_my = False \<rparr>,
     k_shown = None, k_timer = None, k_working = [], k_agents = [] \<rparr>"

lemma before_route_reach: "console_reach S ok (route i page before_route)"
  by (rule console_reach.loaded) (simp_all add: before_route_def page_7_8_def page_A1_def loaded_def)

theorem console_sections_witness:
  "l_id (k_live (console_step two_skills Beat (route (Some 8) ''activate'' before_route))) = Some 8"
proof -
  let ?k = "console_step two_skills Beat (route (Some 8) ''activate'' before_route)"
  have "console_reach two_skills aligned ?k"
    by (rule console_reach.step [OF before_route_reach]) simp
  from console_sections [OF this] have "sec_console (k_sections ?k) \<longrightarrow> l_id (k_live ?k) = k_shown ?k" by simp
  then show ?thesis by (simp add: route_def openConsole_def Let_def)
qed

fun console_runs :: "(nat \<Rightarrow> skill option) \<Rightarrow> console_action list \<Rightarrow> console \<Rightarrow> console" where
  "console_runs S [] k = k"
| "console_runs S (x # xs) k = console_runs S xs (console_step S x k)"

definition late_activation :: "console_action list" where
  "late_activation = [Activation_done 7, Go (Some 9) ''activate'', Agent_reply 1 agreeable]"


end
