(* ===== verification/Broker_Panels.thy ===== *)
theory Broker_Panels
  imports Broker_Console
begin

text \<open>
  Texts of the brokers' page (site/brokers/assets/brokers.js): what \<open>openConsole\<close> writes for a
  broker and for its on-chain owner, the picker of owned brokers (\<open>renderOwnedPicker\<close>), the
  progress of a scan (\<open>scanOwned\<close>) and the list of one's own brokers (\<open>renderMyBrokers\<close>).
  \<open>tile i href\<close> is \<open>cardHtml\<close>.
\<close>

section \<open>The console\<close>

record console_texts =
  ct_name :: string
  ct_asset :: string
  ct_art :: string
  ct_facts :: string
  ct_quote :: string
  ct_pill :: string
  ct_hint :: "string option"
  ct_mark :: string
  ct_link :: string

definition console_view ::
  "string option \<Rightarrow> reveal option \<Rightarrow> mandate \<Rightarrow> skill option \<Rightarrow> nat option \<Rightarrow> bool \<Rightarrow> nat \<Rightarrow> console_texts"
where
  "console_view img rv m s minted on i =
     \<lparr> ct_name = m_name m @ (case s of Some s \<Rightarrow> '' '' @ mid_dot @ '' '' @ sk_role s | None \<Rightarrow> []),
       ct_asset = (case s of Some s \<Rightarrow> sk_pair s @ '' '' @ mid_dot @ '' '' @ sk_desk s | None \<Rightarrow> primaryAsset m),
       ct_art = shotHtml img m s,
       ct_facts = factsHtml rv m,
       ct_quote = quote_line m,
       ct_pill = ''<i></i>ON-CHAIN'' @ (case minted of Some n \<Rightarrow> '' '' @ mid_dot @ '' '' @ dec n @ '' minted'' | None \<Rightarrow> []),
       ct_hint = (if on then None
         else Some (''Ready to activate #'' @ dec i @ '' on <strong>Robinhood Chain ETH (4663)</strong>. Click <strong>Activate '' @
           mid_dot @ '' 0.001 ETH</strong> below.'')),
       ct_mark = ''Public quote not fetched.'',
       ct_link = ''activate.html?id='' @ dec i \<rparr>"

definition OPENSEA_ITEM :: string where
  "OPENSEA_ITEM = ''https://opensea.io/item/robinhood/0x9f7a3adbf611cbeec95ce40e0259bbf96b8df041/''"

text \<open>The line on the owner, when the chain has answered; \<open>own\<close> is the answer of \<open>ownerOf\<close>.\<close>

definition owner_box :: "nat option \<Rightarrow> string option \<Rightarrow> string option \<Rightarrow> nat \<Rightarrow> string" where
  "owner_box minted address own i =
     (case own of
        None \<Rightarrow>
          (case minted of
             Some n \<Rightarrow>
               if i \<le> n then ''Minted; owner lookup failed.''
               else ''Not minted yet (supply '' @ dec n @ '' / '' @ dec 5000 @ '').''
           | None \<Rightarrow> ''Not minted yet.'')
      | Some a \<Rightarrow>
          (if \<exists>b. address = Some b \<and> to_lower a = to_lower b
           then ''You own this token on-chain. This is the agent'' @ [apos] @ ''s job. ''
           else ''On-chain owner <code>'' @ short_addr a @ ''</code>. Skill is public; live run requires ownerOf. '') @
          ''<a'' @ attr ''href'' (OPENSEA_ITEM @ dec i) @ ''>OpenSea</a>'')"

section \<open>The picker\<close>

text \<open>\<open>None\<close> for a part that is left as it was.\<close>

record picker_view =
  pv_status :: string
  pv_grid :: "string option"
  pv_actions :: "string option"

definition bal_text :: "string \<Rightarrow> int option \<Rightarrow> string" where
  "bal_text none b = (case b of Some n \<Rightarrow> int_str n | None \<Rightarrow> none)"

definition picker_base :: "string \<Rightarrow> string" where
  "picker_base path =
     (if index_of ''activate'' path \<noteq> None then takeWhile (\<lambda>c. c \<noteq> CHR ''?'') path else ''/brokers/activate.html'')"

definition activate_button :: "string \<Rightarrow> nat \<Rightarrow> string" where
  "activate_button href i =
     ''<a'' @ attr ''class'' ''bk-btn bk-btn-ember'' @ attr ''href'' (href @ ''?id='' @ dec i) @ ''>Activate #'' @ dec i @ ''</a>''"

definition renderOwnedPicker ::
  "(nat \<Rightarrow> nat \<Rightarrow> string \<Rightarrow> string option option) \<Rightarrow> (string \<Rightarrow> string option option) \<Rightarrow>
   (nat \<Rightarrow> string \<Rightarrow> string) \<Rightarrow> string \<Rightarrow> string option \<Rightarrow> nat option \<Rightarrow> picker_view"
where
  "renderOwnedPicker call bal_call tile path address minted =
     (case (address, minted) of
        (None, _) \<Rightarrow> \<lparr> pv_status = ''Connect wallet to list Crypto Brokers you own, then activate one.'',
                      pv_grid = Some [], pv_actions = Some [] \<rparr>
      | (Some a, None) \<Rightarrow> \<lparr> pv_status = ''Fetching totalSupply'' @ ellipsis, pv_grid = None, pv_actions = None \<rparr>
      | (Some a, Some n) \<Rightarrow>
          let bal = balanceOf bal_call a in
          if bal = Some 0
          then \<lparr> pv_status = ''On-chain <code>balanceOf</code> is 0 for <code>'' @ short_addr a @
                   ''</code>. Buy/transfer a Crypto Broker, then refresh.'', pv_grid = Some [], pv_actions = None \<rparr>
          else (case pickerOwned call bal a n of
            (owned, failed) \<Rightarrow>
              if owned = []
              then \<lparr> pv_status = ''balanceOf='' @ bal_text ''null'' bal @ '' but scan found 0 (rpc fails '' @ dec failed @
                       ''). Tap Scan again or open <a'' @ attr ''href'' ''/brokers/my.html'' @ ''>My Brokers</a>.'',
                     pv_grid = Some [], pv_actions = None \<rparr>
              else \<lparr> pv_status = ''You own <strong>'' @ dec (length owned) @
                       ''</strong> agent(s). Tap one to open console, then <strong>Activate '' @ mid_dot @ '' 0.001 ETH</strong>.'',
                     pv_grid = Some (concat (map (\<lambda>i. tile i (picker_base path @ ''?id='' @ dec i)) owned)),
                     pv_actions = Some (join '' '' (map (activate_button (picker_base path)) (take 8 owned))) \<rparr>))"

section \<open>My brokers\<close>

text \<open>The progress line after the batch that began at \<open>i\<close>, with what was found so far.\<close>

definition scan_progress :: "nat \<Rightarrow> nat \<Rightarrow> nat list \<times> nat \<Rightarrow> int option \<Rightarrow> string" where
  "scan_progress cap i acc bal =
     ''ownerOf scan '' @ dec (min (i + length (scan_chunk 20 cap i) - 1) cap) @ '' / '' @ dec cap @
     '' '' @ mid_dot @ '' owned '' @ dec (length (fst acc)) @
     (case bal of Some b \<Rightarrow> '' '' @ mid_dot @ '' balanceOf '' @ int_str b | None \<Rightarrow> []) @
     (if snd acc \<noteq> 0 then '' '' @ mid_dot @ '' rpc fails '' @ dec (snd acc) else [])"

definition scanning_text :: "int option \<Rightarrow> string" where
  "scanning_text bal =
     ''Scanning ownerOf via public Robinhood RPC (batch 20). balanceOf='' @ bal_text ''?'' bal @ ''.''"

definition unscanned_text :: "nat option \<Rightarrow> string" where
  "unscanned_text minted =
     (case minted of
        None \<Rightarrow> ''On-chain totalSupply unavailable. Will not invent a mint count or owned set.''
      | Some _ \<Rightarrow> ''On-chain totalSupply is 0. No tokens to scan.'')"

record my_view =
  my_grid :: "string option"
  my_empty :: "string option"

text \<open>
  \<open>bal\<close> and \<open>failed\<close> are those of the last scan there was (\<open>None\<close> before the first).  \<open>my_empty\<close>
  is \<open>None\<close> when the line is hidden.
\<close>

definition nothing_owned :: "string \<Rightarrow> (int option \<times> nat) option \<Rightarrow> string" where
  "nothing_owned a scan =
     (let bal = (case scan of Some (b, _) \<Rightarrow> b | None \<Rightarrow> None);
          failed = (case scan of Some (_, f) \<Rightarrow> f | None \<Rightarrow> 0)
      in case bal of
           Some b \<Rightarrow>
             if b > 0
             then ''Scan returned 0 ids but <code>balanceOf</code> is <strong>'' @ int_str b @ ''</strong> for <code>'' @
               short_addr a @ ''</code>'' @ (if failed \<noteq> 0 then '' ('' @ dec failed @ '' RPC fails)'' else []) @
               ''. Hit <strong>Scan ownerOf</strong> again '' @ em_dash @ '' reads use the public Robinhood RPC.''
             else ''No tokens in 1'' @ en_dash @ ''totalSupply currently ownerOf-match <code>'' @ short_addr a @ ''</code>'' @
               (if b = 0 then '' (balanceOf 0).'' else ''.'')
         | None \<Rightarrow> ''No tokens in 1'' @ en_dash @ ''totalSupply currently ownerOf-match <code>'' @ short_addr a @ ''</code>.'')"

definition renderMyBrokers ::
  "(nat \<Rightarrow> nat \<Rightarrow> string \<Rightarrow> string option option) \<Rightarrow> (string \<Rightarrow> string option option) \<Rightarrow>
   (nat \<Rightarrow> string \<Rightarrow> string) \<Rightarrow> (nat \<Rightarrow> skill option) \<Rightarrow> last_scan option \<Rightarrow>
   string option \<Rightarrow> nat option \<Rightarrow> bool \<Rightarrow> my_view \<times> last_scan option"
where
  "renderMyBrokers call bal_call tile S before address minted fetched =
     (case address of
        None \<Rightarrow> (\<lparr> my_grid = Some [], my_empty = Some (''Connect a wallet to list Crypto Brokers you own on-chain (ownerOf) and their skills.'') \<rparr>, before)
      | Some a \<Rightarrow>
          if \<not> fetched
          then (\<lparr> my_grid = None, my_empty = Some (''Fetching totalSupply (0x18160ddd)'' @ ellipsis) \<rparr>, before)
          else let found = scanOwned call bal_call address minted;
                   scan = (case found of Some r \<Rightarrow> Some r | None \<Rightarrow> before);
                   owned = (case found of Some r \<Rightarrow> ls_owned r | None \<Rightarrow> [])
            in (if owned = []
                then \<lparr> my_grid = Some [],
                       my_empty = Some (nothing_owned a (map_option (\<lambda>r. (ls_bal r, ls_failed r)) scan)) \<rparr>
                else \<lparr> my_grid = Some (concat (map (\<lambda>i. my_card (tile i (''/brokers/activate.html?id='' @ dec i)) (S i)) owned)),
                       my_empty = None \<rparr>, scan))"

section \<open>What the lists show\<close>

text \<open>
  Both lists show a card for every token of the account, in order, and for no other: the
  picker when it does not stop early, the list of one's own brokers always.
\<close>

lemma my_brokers_shown:
  assumes "a \<noteq> []" "0 < n" "filter (owns call a) [1..<min n COLLECTION_SIZE + 1] \<noteq> []"
  shows "my_grid (fst (renderMyBrokers call bal_call tile S before (Some a) (Some n) True)) =
    Some (concat (map (\<lambda>i. my_card (tile i (''/brokers/activate.html?id='' @ dec i)) (S i))
      (filter (owns call a) [1..<min n COLLECTION_SIZE + 1])))"
  using scan_owned_exact [OF assms(1,2), of call bal_call] assms(3) by (simp add: renderMyBrokers_def Let_def)

end
