(* ===== verification/Xml.thy ===== *)
theory Xml
  imports Html
begin

text \<open>
  Elements of SVG text and a checker for well-formed markup that reads the finished text:
  tags are balanced and nested, attribute names are distinct, every value is quoted and
  holds neither a quote nor an angle bracket.  Pieces that the checker passes without
  changing its stack can be put together freely (\<open>intact\<close>).
\<close>

section \<open>Writing\<close>

type_synonym attrs = "(string \<times> string) list"

definition attrs_text :: "attrs \<Rightarrow> string" where
  "attrs_text as = concat (map (\<lambda>(k, v). attr k v) as)"

definition el :: "string \<Rightarrow> attrs \<Rightarrow> string" where
  "el name as = ''<'' @ name @ attrs_text as @ ''/>''"

definition tag :: "string \<Rightarrow> attrs \<Rightarrow> string \<Rightarrow> string" where
  "tag name as inner = ''<'' @ name @ attrs_text as @ ''>'' @ inner @ ''</'' @ name @ ''>''"

section \<open>Checking\<close>

definition name_char :: "char \<Rightarrow> bool" where
  "name_char c \<longleftrightarrow> is_lower c \<or> is_upper c \<or> is_digit c \<or> c = CHR ''-'' \<or> c = CHR '':''"

definition value_char :: "char \<Rightarrow> bool" where
  "value_char c \<longleftrightarrow> c \<noteq> dq \<and> c \<noteq> CHR ''<'' \<and> c \<noteq> CHR ''>''"

text \<open>One attribute in front of a text: its name and the rest.\<close>

definition read_attr :: "string \<Rightarrow> (string \<times> string) option" where
  "read_attr s =
     (if \<not> starts_with '' '' s then None
      else let k = takeWhile name_char (tl s); r = dropWhile name_char (tl s) in
        if k = [] \<or> \<not> starts_with (''='' @ [dq]) r then None
        else let v = takeWhile value_char (drop 2 r); t = dropWhile value_char (drop 2 r) in
          if starts_with [dq] t then Some (k, tl t) else None)"

lemma read_attr_shorter: "read_attr s = Some (k, t) \<Longrightarrow> length t < length s"
proof -
  assume "read_attr s = Some (k, t)"
  then have s: "s \<noteq> []" and t: "t = tl (dropWhile value_char (drop 2 (dropWhile name_char (tl s))))"
    by (auto simp: read_attr_def Let_def split: if_splits)
  have "length t \<le> length (tl s)" unfolding t
    using length_dropWhile_le [of value_char "drop 2 (dropWhile name_char (tl s))"]
      length_dropWhile_le [of name_char "tl s"] by simp
  also have "\<dots> < length s" using s by (cases s) simp_all
  finally show ?thesis .
qed

function read_attrs :: "string list \<Rightarrow> string \<Rightarrow> bool" where
  "read_attrs seen s =
     (if s = [] \<or> s = '' '' then True
      else case read_attr s of
             None \<Rightarrow> False
           | Some (k, t) \<Rightarrow> k \<notin> set seen \<and> read_attrs (k # seen) t)"
  by pat_completeness auto
termination by (relation "measure (length \<circ> snd)") (auto dest: read_attr_shorter)

declare read_attrs.simps [simp del]

text \<open>The text between \<open><\<close> and \<open>>\<close>, or before \<open>/>\<close>: a name and attributes.\<close>

definition tag_ok :: "string \<Rightarrow> bool" where
  "tag_ok b \<longleftrightarrow> takeWhile name_char b \<noteq> [] \<and> read_attrs [] (dropWhile name_char b)"

definition not_gt :: "char \<Rightarrow> bool" where "not_gt c \<longleftrightarrow> c \<noteq> CHR ''>''"

definition one_tag :: "string list \<Rightarrow> string \<Rightarrow> string list option" where
  "one_tag st b =
     (if starts_with ''/'' b then (case st of n # st' \<Rightarrow> if n = tl b then Some st' else None | [] \<Rightarrow> None)
      else if b \<noteq> [] \<and> last b = CHR ''/'' then (if tag_ok (butlast b) then Some st else None)
      else if tag_ok b then Some (takeWhile name_char b # st) else None)"

function check_xml :: "string list \<Rightarrow> string \<Rightarrow> string list option" where
  "check_xml st s =
     (case s of
        [] \<Rightarrow> Some st
      | c # t \<Rightarrow>
          if c = CHR ''>'' then None
          else if c \<noteq> CHR ''<'' then check_xml st t
          else if \<not> starts_with ''>'' (dropWhile not_gt t) then None
          else case one_tag st (takeWhile not_gt t) of
                 None \<Rightarrow> None
               | Some st' \<Rightarrow> check_xml st' (tl (dropWhile not_gt t)))"
  by pat_completeness auto
termination
  by (relation "measure (length \<circ> snd)")
    (auto simp: less_Suc_eq_le intro!: order_trans [OF diff_le_self] length_dropWhile_le)

declare check_xml.simps [simp del]

definition well_formed :: "string \<Rightarrow> bool" where "well_formed s \<longleftrightarrow> check_xml [] s = Some []"

section \<open>Pieces\<close>

lemma check_Nil [simp]: "check_xml st [] = Some st"
  by (subst check_xml.simps) simp

lemma check_plain: "c \<noteq> CHR ''<'' \<Longrightarrow> c \<noteq> CHR ''>'' \<Longrightarrow> check_xml st (c # t) = check_xml st t"
  by (subst check_xml.simps) simp

lemma check_tag:
  assumes "list_all not_gt b"
  shows "check_xml st (CHR ''<'' # b @ CHR ''>'' # t) = (case one_tag st b of None \<Rightarrow> None | Some st' \<Rightarrow> check_xml st' t)"
proof -
  have "takeWhile not_gt (b @ CHR ''>'' # t) = b" "dropWhile not_gt (b @ CHR ''>'' # t) = CHR ''>'' # t"
    using assms by (auto simp: list_all_iff not_gt_def intro!: takeWhile_run dropWhile_run)
  then show ?thesis by (subst check_xml.simps) (simp split: option.split)
qed

definition intact :: "string \<Rightarrow> bool" where
  "intact s \<longleftrightarrow> (\<forall>st t. check_xml st (s @ t) = check_xml st t)"

named_theorems intact_rules \<open>pieces of markup that are complete\<close>

lemma intact_Nil [intact_rules, simp]: "intact []"
  by (simp add: intact_def)

lemma intact_append [intact_rules]: "intact s \<Longrightarrow> intact t \<Longrightarrow> intact (s @ t)"
  by (simp add: intact_def)

lemma intact_concat: "list_all intact ss \<Longrightarrow> intact (concat ss)"
  by (induction ss) (auto intro: intact_append)

lemma intact_char: "c \<noteq> CHR ''<'' \<Longrightarrow> c \<noteq> CHR ''>'' \<Longrightarrow> intact [c]"
  by (simp add: intact_def check_plain)

lemma intact_text: "(\<And>c. c \<in> set s \<Longrightarrow> c \<noteq> CHR ''<'' \<and> c \<noteq> CHR ''>'') \<Longrightarrow> intact s"
proof (induction s)
  case (Cons c s)
  then have "intact [c]" "intact s" by (simp_all add: intact_char)
  from intact_append [OF this] show ?case by simp
qed simp

lemma intact_well_formed: "intact s \<Longrightarrow> well_formed s"
  unfolding intact_def well_formed_def by (metis append_Nil2 check_Nil)

definition attr_ok :: "string \<times> string \<Rightarrow> bool" where
  "attr_ok kv \<longleftrightarrow> fst kv \<noteq> [] \<and> list_all name_char (fst kv) \<and> list_all value_char (snd kv)"

definition attrs_ok :: "attrs \<Rightarrow> bool" where
  "attrs_ok as \<longleftrightarrow> list_all attr_ok as \<and> distinct (map fst as)"

lemma not_name_char: "\<not> name_char (CHR ''='')" "\<not> name_char (CHR '' '')" "\<not> name_char (CHR ''/'')" "\<not> name_char (CHR ''>'')"
  "\<not> value_char dq" "name_char c \<Longrightarrow> value_char c" "name_char c \<Longrightarrow> not_gt c"
  by (auto simp: name_char_def value_char_def not_gt_def is_lower_def is_upper_def is_digit_def in_range_def dq_def)

lemma read_attr_attr:
  assumes "attr_ok (k, v)"
  shows "read_attr (attr k v @ t) = Some (k, t)"
  using assms unfolding attr_ok_def read_attr_def attr_def list_all_iff
  by (simp add: Let_def takeWhile_run dropWhile_run not_name_char)


lemma read_attrs_text:
  "list_all attr_ok as \<Longrightarrow> distinct (map fst as) \<Longrightarrow> set (map fst as) \<inter> set seen = {} \<Longrightarrow> read_attrs seen (attrs_text as)"
proof (induction as arbitrary: seen)
  case (Cons kv as)
  obtain k v where kv: "kv = (k, v)" by (cases kv)
  have "attrs_text (kv # as) = attr k v @ attrs_text as" by (simp add: attrs_text_def kv)
  moreover have "length (attr k v) > 1" by (simp add: attr_def)
  then have "attr k v @ attrs_text as \<noteq> []" "attr k v @ attrs_text as \<noteq> '' ''" by (auto dest: arg_cong [of _ _ length])
  ultimately show ?case using Cons kv by (subst read_attrs.simps) (auto simp: read_attr_attr)
qed (simp add: attrs_text_def read_attrs.simps)

lemma attrs_text_head: "attrs_text as = [] \<or> hd (attrs_text as) = CHR '' ''"
  by (cases as) (auto simp: attrs_text_def attr_def)

lemma name_split:
  assumes "list_all name_char name"
  shows "takeWhile name_char (name @ attrs_text as) = name" "dropWhile name_char (name @ attrs_text as) = attrs_text as"
proof -
  have h: "attrs_text as = [] \<or> \<not> name_char (hd (attrs_text as))"
    using attrs_text_head [of as] not_name_char(2) by auto
  have n: "name_char c" if "c \<in> set name" for c using assms that by (simp add: list_all_iff)
  show "takeWhile name_char (name @ attrs_text as) = name" using n h by (rule takeWhile_run)
  show "dropWhile name_char (name @ attrs_text as) = attrs_text as" using n h by (rule dropWhile_run)
qed

lemma tag_ok_text: "list_all name_char name \<Longrightarrow> name \<noteq> [] \<Longrightarrow> attrs_ok as \<Longrightarrow> tag_ok (name @ attrs_text as)"
  by (simp add: tag_ok_def name_split attrs_ok_def read_attrs_text)

lemma not_gt_name: "list_all name_char name \<Longrightarrow> list_all not_gt name"
  using not_name_char by (auto simp: list_all_iff)

lemma not_gt_value: "list_all value_char v \<Longrightarrow> list_all not_gt v"
  by (simp add: list_all_iff value_char_def not_gt_def)

lemma not_gt_attrs: "list_all attr_ok as \<Longrightarrow> list_all not_gt (attrs_text as)"
proof (induction as)
  case (Cons kv as)
  obtain k v where kv: "kv = (k, v)" by (cases kv)
  have "list_all not_gt (attr k v)"
    using Cons.prems not_gt_name [of k] not_gt_value [of v] by (simp add: kv attr_def attr_ok_def not_gt_def dq_def)
  then show ?case using Cons by (simp add: attrs_text_def kv)
qed (simp add: attrs_text_def)

lemma attrs_text_last: "attrs_text as = [] \<or> last (attrs_text as) = dq"
  by (induction as rule: rev_induct) (auto simp: attrs_text_def attr_def)

lemma intact_el [intact_rules]:
  assumes "list_all name_char name" "name \<noteq> []" "attrs_ok as"
  shows "intact (el name as)"
proof -
  let ?b = "name @ attrs_text as @ ''/''"
  have gt: "list_all not_gt ?b" using assms by (simp add: not_gt_name not_gt_attrs attrs_ok_def) (simp add: not_gt_def)
  have "\<not> starts_with ''/'' ?b"
    using assms(1,2) not_name_char(3) by (cases name) auto
  then have "one_tag st ?b = Some st" for st
    using tag_ok_text [OF assms] assms(2) by (simp add: one_tag_def butlast_append)
  then show ?thesis using check_tag [OF gt] by (simp add: intact_def el_def)
qed

lemma intact_tag [intact_rules]:
  assumes "list_all name_char name" "name \<noteq> []" "attrs_ok as" "intact inner"
  shows "intact (tag name as inner)"
proof -
  let ?b = "name @ attrs_text as"
  have gt: "list_all not_gt ?b" "list_all not_gt (''/'' @ name)"
    using assms by (simp_all add: not_gt_name not_gt_attrs attrs_ok_def) (simp add: not_gt_def)
  have "\<not> starts_with ''/'' ?b"
    using assms(1,2) not_name_char(3) by (cases name) auto
  moreover have "last ?b \<noteq> CHR ''/''"
    using attrs_text_last [of as] assms(1) not_name_char(3) last_in_set [OF assms(2)]
    by (cases "attrs_text as = []") (auto simp: dq_def list_all_iff)
  ultimately have "one_tag st ?b = Some (name # st)" for st
    using tag_ok_text [OF assms(1-3)] assms(1,2) by (simp add: one_tag_def name_split)
  moreover have "one_tag (name # st) (''/'' @ name) = Some st" for st by (simp add: one_tag_def)
  ultimately show ?thesis
    using check_tag [OF gt(1)] check_tag [OF gt(2)] assms(4) by (simp add: intact_def tag_def)
qed

lemma intact_esc [intact_rules]: "intact (esc s)"
  by (rule intact_text) (auto dest: esc_safe)

lemma value_esc: "list_all value_char (esc s)"
  by (auto simp: list_all_iff value_char_def dest: esc_safe)

lemma value_dec: "list_all value_char (dec n)"
  by (auto simp: list_all_iff value_char_def is_digit_def in_range_def dq_def dest!: dec_digits)

lemma value_int: "list_all value_char (int_str i)"
  using value_dec by (auto simp: int_str_def value_char_def dq_def)

end
