(* ===== verification/Render.thy ===== *)
theory Render
  imports Xml Mandates
begin

text \<open>
  site/brokers/assets/render.js: the drawing of a broker as SVG, from its id and the traits of
  its mandate \<open>m\<close>; \<open>mix\<close> draws from the hash.  The text is that of the page, element by
  element.  What is shown: for every hash, id and mandate it is well-formed and nothing of
  the mandate adds markup, and the sparks stay on the canvas.
\<close>

section \<open>Colours\<close>

definition ACCENT :: "(string \<times> string) list" where
  "ACCENT = [(''Ember'', ''#c4622d''), (''Teal'', ''#2a9d8f''), (''Magenta'', ''#c44569''), (''Gold'', ''#d4a054''),
     (''Violet'', ''#8b6cc1'')]"
definition SUIT :: "(string \<times> string) list" where
  "SUIT = [(''Charcoal'', ''#2a2622''), (''Navy'', ''#1c2a44''), (''Ember'', ''#6b3218''), (''Paper White'', ''#ece4d6''),
     (''Ink Black'', ''#0c0b09'')]"
definition COAT :: "(string \<times> string) list" where
  "COAT = [(''Ash Duster'', ''#4a453e''), (''Ember Trench'', ''#8f4620''), (''Teal Lined'', ''#1e4a46''),
     (''Pinstripe'', ''#2c2924''), (''Charcoal Cape'', ''#161410'')]"
definition HEAD :: "(string \<times> string) list" where
  "HEAD = [(''Gold Skull'', ''#d4a054''), (''Chrome Skull'', ''#c5c8ce''), (''Matte Helm'', ''#3a3530''),
     (''Violet Slit'', ''#5c3d8a''), (''Ember Mask'', ''#c4622d''), (''Paper Visor'', ''#ece4d6'')]"
definition BASE :: "(string \<times> string) list" where
  "BASE = [(''Industrial'', ''#4a453c''), (''Stone'', ''#6d6559''), (''Grid'', ''#2a2620'')]"

definition colour :: "(string \<times> string) list \<Rightarrow> string \<Rightarrow> string \<Rightarrow> string" where
  "colour table key fallback = (case map_of table key of Some c \<Rightarrow> c | None \<Rightarrow> fallback)"

definition mix :: "(string \<Rightarrow> string) \<Rightarrow> nat \<Rightarrow> string \<Rightarrow> nat \<Rightarrow> nat" where
  "mix sha i salt n = rngMod sha i salt n"

section \<open>Head\<close>

definition skull_face :: "int \<Rightarrow> int \<Rightarrow> string \<Rightarrow> string" where
  "skull_face hx hy slit =
     el ''ellipse'' [(''cx'', int_str (hx - 16)), (''cy'', int_str (hy - 4)), (''rx'', ''10''), (''ry'', ''12''), (''fill'', ''#100e0b'')] @
        el ''ellipse'' [(''cx'', int_str (hx + 16)), (''cy'', int_str (hy - 4)), (''rx'', ''10''), (''ry'', ''12''), (''fill'', ''#100e0b'')] @
        el ''ellipse'' [(''cx'', int_str (hx - 16)), (''cy'', int_str (hy - 4)), (''rx'', ''4''), (''ry'', ''5''), (''fill'', slit), (''opacity'', ''0.95'')] @
        el ''ellipse'' [(''cx'', int_str (hx + 16)), (''cy'', int_str (hy - 4)), (''rx'', ''4''), (''ry'', ''5''), (''fill'', slit), (''opacity'', ''0.95'')] @
        el ''path'' [(''d'', ''M'' @ int_str (hx - 10) @ '' '' @ int_str (hy + 18) @ '' Q'' @ int_str hx @ '' '' @ int_str (hy + 28) @ '' '' @ int_str (hx + 10) @ '' '' @ int_str (hy + 18)), (''fill'', ''none''), (''stroke'', ''#100e0b''), (''stroke-width'', ''3'')] @
        el ''rect'' [(''x'', int_str (hx - 6)), (''y'', int_str (hy + 8)), (''width'', ''12''), (''height'', ''8''), (''rx'', ''2''), (''fill'', ''#100e0b''), (''opacity'', ''0.35'')]"

definition slit_face :: "int \<Rightarrow> int \<Rightarrow> string \<Rightarrow> string" where
  "slit_face hx hy slit =
     el ''rect'' [(''x'', int_str (hx - 28)), (''y'', int_str (hy - 6)), (''width'', ''56''), (''height'', ''8''), (''rx'', ''2''), (''fill'', ''#100e0b'')] @
        el ''rect'' [(''x'', int_str (hx - 24)), (''y'', int_str (hy - 4)), (''width'', ''48''), (''height'', ''4''), (''fill'', slit)]"

definition visor_face :: "int \<Rightarrow> int \<Rightarrow> string \<Rightarrow> string" where
  "visor_face hx hy ac =
     el ''rect'' [(''x'', int_str (hx - 32)), (''y'', int_str (hy - 14)), (''width'', ''64''), (''height'', ''22''), (''rx'', ''3''), (''fill'', ''#ece4d6''), (''stroke'', ''#100e0b''), (''stroke-width'', ''2'')] @
        el ''rect'' [(''x'', int_str (hx - 26)), (''y'', int_str (hy - 8)), (''width'', ''52''), (''height'', ''8''), (''fill'', ac), (''opacity'', ''0.85'')]"

definition mask_face :: "int \<Rightarrow> int \<Rightarrow> string \<Rightarrow> string" where
  "mask_face hx hy slit =
     el ''rect'' [(''x'', int_str (hx - 30)), (''y'', int_str (hy - 10)), (''width'', ''60''), (''height'', ''16''), (''rx'', ''4''), (''fill'', ''#100e0b''), (''opacity'', ''0.8'')] @
        el ''rect'' [(''x'', int_str (hx - 22)), (''y'', int_str (hy - 6)), (''width'', ''44''), (''height'', ''6''), (''fill'', slit)]"

definition headShape :: "string \<Rightarrow> int \<Rightarrow> int \<Rightarrow> string \<Rightarrow> string" where
  "headShape h hx hy ac =
     (let fill = colour HEAD h ''#d4a054''; slit = (if h = ''Violet Slit'' then ''#b9a0e0'' else ac) in
      el ''ellipse'' [(''cx'', int_str hx), (''cy'', int_str hy), (''rx'', ''48''), (''ry'', ''56''), (''fill'', fill), (''stroke'', ''#100e0b''), (''stroke-width'', ''3'')] @
      (if str_includes h ''Skull'' then skull_face hx hy slit
       else if h = ''Violet Slit'' then slit_face hx hy slit
       else if h = ''Paper Visor'' then visor_face hx hy ac
       else mask_face hx hy slit) @
      el ''path'' [(''d'', ''M'' @ int_str (hx - 40) @ '' '' @ int_str (hy - 20) @ '' Q'' @ int_str hx @ '' '' @ int_str (hy - 72) @ '' '' @ int_str (hx + 40) @ '' '' @ int_str (hy - 20)), (''fill'', ''#100e0b''), (''opacity'', ''0.55'')])"

section \<open>Head-up display\<close>

definition chart_bar :: "(string \<Rightarrow> string) \<Rightarrow> nat \<Rightarrow> string \<Rightarrow> nat \<Rightarrow> string" where
  "chart_bar sha tok ac i =
     (let x = 120 + int i * 58; y = 70; h = int (18 + mix sha tok (''hudbar'' @ dec i) 42) in
      el ''rect'' [(''x'', int_str (x)), (''y'', int_str (y)), (''width'', ''46''), (''height'', ''64''), (''rx'', ''3''), (''fill'', ''rgba(196,98,45,0.08)'')] @
      el ''rect'' [(''x'', int_str (x + 8)), (''y'', int_str (y + 56 - h)), (''width'', ''8''), (''height'', int_str (h)), (''fill'', ac), (''stroke'', ''none'')] @
      el ''rect'' [(''x'', int_str (x + 20)), (''y'', int_str (y + 48 - h mod 28)), (''width'', ''8''), (''height'', int_str (h mod 28 + 8)), (''fill'', ac), (''opacity'', ''0.55''), (''stroke'', ''none'')] @
      el ''rect'' [(''x'', int_str (x + 32)), (''y'', int_str (y + 52 - h * 3 mod 36)), (''width'', ''8''), (''height'', int_str (h * 3 mod 36 + 6)), (''fill'', ac), (''opacity'', ''0.35''), (''stroke'', ''none'')])"

definition ticker_cube :: "string \<Rightarrow> string \<Rightarrow> nat \<Rightarrow> string" where
  "ticker_cube asset ac i =
     (let x = 140 + int (i mod 6) * 62; y = 62 + int (i mod 2) * 12 in
      el ''rect'' [(''x'', int_str (x)), (''y'', int_str (y)), (''width'', ''52''), (''height'', ''28''), (''rx'', ''2''), (''fill'', ''rgba(16,14,11,0.55)'')] @
      tag ''text'' [(''x'', int_str (x + 8)), (''y'', int_str (y + 18)), (''fill'', ac), (''stroke'', ''none''), (''font-family'', ''IBM Plex Mono, monospace''), (''font-size'', ''11'')] (esc (take 4 asset)))"

text \<open>\<open>h * 0.7\<close> in double precision, as printed, for the heights 6 to 27 that occur.\<close>

definition HEIGHTS_07 :: "string list" where
  "HEIGHTS_07 =
     [''4.199999999999999'', ''4.8999999999999995'', ''5.6'', ''6.3'', ''7'', ''7.699999999999999'', ''8.399999999999999'', ''9.1'', ''9.799999999999999'', ''10.5'',
      ''11.2'', ''11.899999999999999'', ''12.6'', ''13.299999999999999'', ''14'', ''14.7'', ''15.399999999999999'', ''16.099999999999998'', ''16.799999999999997'', ''17.5'', ''18.2'', ''18.9'']"

definition times_07 :: "nat \<Rightarrow> string" where "times_07 h = HEIGHTS_07 ! (h - 6)"

definition orbit_bar :: "(string \<Rightarrow> string) \<Rightarrow> nat \<Rightarrow> string \<Rightarrow> nat \<Rightarrow> string" where
  "orbit_bar sha tok ac i =
     (let x = 130 + int i * 42; h = 6 + mix sha tok (''ob'' @ dec i) 22 in
      el ''rect'' [(''x'', int_str (x)), (''y'', int_str (108 - int h)), (''width'', ''16''), (''height'', dec h), (''fill'', ac), (''stroke'', ''none''), (''opacity'', ''0.8'')] @
      el ''rect'' [(''x'', int_str (x)), (''y'', ''110''), (''width'', ''16''), (''height'', times_07 h), (''fill'', ac), (''stroke'', ''none''), (''opacity'', ''0.35'')])"

definition halo :: string where
  "halo = ''<ellipse'' @ attrs_text [(''cx'', ''320''), (''cy'', ''108''), (''rx'', ''210''), (''ry'', ''48'')] @ '' />''"

definition hud_svg :: "(string \<Rightarrow> string) \<Rightarrow> mandate \<Rightarrow> string \<Rightarrow> nat \<Rightarrow> string" where
  "hud_svg sha m ac tok =
     (let k = hud (m_traits m) in
      if k = ''None'' then []
      else tag ''g'' [(''class'', ''hud''), (''fill'', ''none''), (''stroke'', ac), (''stroke-width'', ''1.4''), (''opacity'', ''0.88'')]
        (if k = ''Charts Halo'' then concat (map (chart_bar sha tok ac) [0..<7])
         else if k = ''Ticker Cubes'' then concat (map (ticker_cube (primaryAsset m) ac) [0..<6])
         else halo @ concat (map (orbit_bar sha tok ac) [0..<9])))"

section \<open>Sparks and hand\<close>

definition spark :: "(string \<Rightarrow> string) \<Rightarrow> nat \<Rightarrow> nat \<Rightarrow> nat \<times> nat \<times> nat" where
  "spark sha tok i =
     (40 + mix sha tok (''sx'' @ dec i) 560, 80 + mix sha tok (''sy'' @ dec i) 620, 1 + mix sha tok (''sr'' @ dec i) 3)"

definition spark_svg :: "string \<Rightarrow> nat \<times> nat \<times> nat \<Rightarrow> string" where
  "spark_svg ac s =
     (case s of (x, y, r) \<Rightarrow>
        el ''circle'' [(''cx'', dec x), (''cy'', dec y), (''r'', dec r), (''fill'', ac)])"

definition spark_list :: "(string \<Rightarrow> string) \<Rightarrow> nat \<Rightarrow> (nat \<times> nat \<times> nat) list" where
  "spark_list sha tok = map (spark sha tok) [0..<8 + mix sha tok ''sparks'' 10]"

definition sparks :: "(string \<Rightarrow> string) \<Rightarrow> nat \<Rightarrow> string \<Rightarrow> string" where
  "sparks sha tok ac =
     tag ''g'' [(''opacity'', ''0.7'')] (concat (map (spark_svg ac) (spark_list sha tok)))"

definition tablet :: "string \<Rightarrow> string" where
  "tablet ac =
     el ''rect'' [(''x'', ''0''), (''y'', ''0''), (''width'', ''54''), (''height'', ''78''), (''rx'', ''4''), (''fill'', ''#1b1712''), (''stroke'', ac), (''stroke-width'', ''2'')] @
           el ''rect'' [(''x'', ''8''), (''y'', ''10''), (''width'', ''38''), (''height'', ''22''), (''fill'', ac), (''opacity'', ''0.7'')] @
           el ''rect'' [(''x'', ''8''), (''y'', ''38''), (''width'', ''38''), (''height'', ''4''), (''fill'', ''#ece4d6''), (''opacity'', ''0.4'')] @
           el ''rect'' [(''x'', ''8''), (''y'', ''46''), (''width'', ''24''), (''height'', ''4''), (''fill'', ''#ece4d6''), (''opacity'', ''0.25'')]"

definition ledger :: "string" where
  "ledger =
     el ''rect'' [(''x'', ''0''), (''y'', ''4''), (''width'', ''62''), (''height'', ''70''), (''rx'', ''2''), (''fill'', ''#ece4d6''), (''stroke'', ''#100e0b''), (''stroke-width'', ''2'')] @
           el ''rect'' [(''x'', ''8''), (''y'', ''14''), (''width'', ''46''), (''height'', ''3''), (''fill'', ''#100e0b''), (''opacity'', ''0.35'')] @
           el ''rect'' [(''x'', ''8''), (''y'', ''22''), (''width'', ''38''), (''height'', ''3''), (''fill'', ''#100e0b''), (''opacity'', ''0.25'')] @
           el ''rect'' [(''x'', ''8''), (''y'', ''30''), (''width'', ''42''), (''height'', ''3''), (''fill'', ''#100e0b''), (''opacity'', ''0.2'')]"

definition orb :: "mandate \<Rightarrow> string \<Rightarrow> string" where
  "orb m ac =
     el ''ellipse'' [(''cx'', ''28''), (''cy'', ''36''), (''rx'', ''26''), (''ry'', ''36''), (''fill'', ac), (''opacity'', ''0.18''), (''stroke'', ac)] @
           tag ''text'' [(''x'', ''10''), (''y'', ''40''), (''fill'', ac), (''font-family'', ''IBM Plex Mono, monospace''), (''font-size'', ''10'')] (esc (take 5 (primaryAsset m)))"

definition handItem :: "mandate \<Rightarrow> string \<Rightarrow> string" where
  "handItem m ac =
     (let h = hand (m_traits m) in
      if h = ''Empty'' then []
      else tag ''g'' [(''transform'', ''translate(402 430)'')]
        (if h = ''Tablet'' then tablet ac else if h = ''Ledger'' then ledger else orb m ac))"

section \<open>The drawing\<close>

definition svg_defs :: "string \<Rightarrow> string \<Rightarrow> nat \<Rightarrow> string" where
  "svg_defs uid ac tok =
     tag ''defs'' [] (
      tag ''radialGradient'' [(''id'', uid @ ''bg''), (''cx'', ''50%''), (''cy'', ''38%''), (''r'', ''70%'')] (el ''stop'' [(''offset'', ''0%''), (''stop-color'', ''#2a1c14'')] @
        el ''stop'' [(''offset'', ''55%''), (''stop-color'', ''#16130f'')] @
        el ''stop'' [(''offset'', ''100%''), (''stop-color'', ''#100e0b'')]) @
      tag ''radialGradient'' [(''id'', uid @ ''glow''), (''cx'', ''50%''), (''cy'', ''42%''), (''r'', ''40%'')] (el ''stop'' [(''offset'', ''0%''), (''stop-color'', ac), (''stop-opacity'', ''0.28'')] @
        el ''stop'' [(''offset'', ''100%''), (''stop-color'', ac), (''stop-opacity'', ''0'')]) @
      tag ''filter'' [(''id'', uid @ ''grain'')] (el ''feTurbulence'' [(''type'', ''fractalNoise''), (''baseFrequency'', ''0.85''), (''numOctaves'', ''2''), (''seed'', dec (tok mod 97))] @
        el ''feColorMatrix'' [(''values'', ''0 0 0 0 0.9  0 0 0 0 0.7  0 0 0 0 0.4  0 0 0 0.05 0'')]))"

definition backdrop :: "string \<Rightarrow> string" where
  "backdrop uid =
     el ''rect'' [(''width'', ''640''), (''height'', ''800''), (''fill'', ''url(#'' @ uid @ ''bg)'')] @
     el ''rect'' [(''width'', ''640''), (''height'', ''800''), (''fill'', ''url(#'' @ uid @ ''glow)'')] @
     el ''rect'' [(''width'', ''640''), (''height'', ''800''), (''filter'', ''url(#'' @ uid @ ''grain)''), (''opacity'', ''0.35'')]"

definition pedestal :: "string \<Rightarrow> string \<Rightarrow> nat \<Rightarrow> string" where
  "pedestal base_fill b p1 =
     el ''ellipse'' [(''cx'', ''320''), (''cy'', ''700''), (''rx'', ''150''), (''ry'', ''28''), (''fill'', base_fill), (''stroke'', ''#100e0b''), (''stroke-width'', ''3'')] @
     (if b = ''Grid'' then
        el ''path'' [(''d'', ''M190 700 L450 700 M220 688 L420 688 M220 712 L420 712''), (''stroke'', ''#ece4d6''), (''stroke-opacity'', ''0.15''), (''fill'', ''none'')]
      else if b = ''Industrial'' then
        el ''rect'' [(''x'', ''250''), (''y'', ''688''), (''width'', ''140''), (''height'', ''8''), (''fill'', ''#100e0b''), (''opacity'', ''0.35'')]
      else []) @
     tag ''g'' [(''transform'', ''translate(210 708) rotate(-12)'')] (el ''rect'' [(''width'', ''40''), (''height'', ''28''), (''fill'', ''#ece4d6''), (''opacity'', ''0.8'')]) @
     tag ''g'' [(''transform'', ''translate(390 710) rotate('' @ dec p1 @ '')'')] (el ''rect'' [(''width'', ''36''), (''height'', ''24''), (''fill'', ''#ece4d6''), (''opacity'', ''0.55'')])"

definition body :: "string \<Rightarrow> string \<Rightarrow> string" where
  "body suit_fill tie =
     el ''rect'' [(''x'', ''278''), (''y'', ''560''), (''width'', ''28''), (''height'', ''130''), (''rx'', ''4''), (''fill'', suit_fill)] @
     el ''rect'' [(''x'', ''334''), (''y'', ''560''), (''width'', ''28''), (''height'', ''130''), (''rx'', ''4''), (''fill'', suit_fill)] @
     el ''rect'' [(''x'', ''274''), (''y'', ''678''), (''width'', ''36''), (''height'', ''14''), (''rx'', ''3''), (''fill'', ''#100e0b'')] @
     el ''rect'' [(''x'', ''330''), (''y'', ''678''), (''width'', ''36''), (''height'', ''14''), (''rx'', ''3''), (''fill'', ''#100e0b'')] @
     el ''path'' [(''d'', ''M250 330 L390 330 L410 560 L230 560 Z''), (''fill'', suit_fill), (''stroke'', ''#100e0b''), (''stroke-width'', ''2'')] @
     el ''path'' [(''d'', ''M320 330 L320 560''), (''stroke'', ''#100e0b''), (''stroke-width'', ''2''), (''opacity'', ''0.45'')] @
     el ''path'' [(''d'', ''M320 338 L308 360 L320 430 L332 360 Z''), (''fill'', tie), (''opacity'', ''0.85'')] @
     el ''path'' [(''d'', ''M268 390 L372 390''), (''stroke'', ''#100e0b''), (''stroke-opacity'', ''0.25'')]"

definition coat_svg :: "string \<Rightarrow> string \<Rightarrow> string" where
  "coat_svg kind ac =
     (case map_of COAT kind of
        None \<Rightarrow> []
      | Some fill \<Rightarrow>
     el ''path'' [(''d'', ''M200 320 L250 330 L236 620 L170 600 Z''), (''fill'', fill), (''stroke'', ''#100e0b''), (''stroke-width'', ''2'')] @
     el ''path'' [(''d'', ''M440 320 L390 330 L404 620 L470 600 Z''), (''fill'', fill), (''stroke'', ''#100e0b''), (''stroke-width'', ''2'')] @
     (if kind = ''Pinstripe'' then
        el ''path'' [(''d'', ''M214 360 L228 580 M226 350 L240 570''), (''stroke'', ''#ece4d6''), (''stroke-opacity'', ''0.15'')] @
        el ''path'' [(''d'', ''M426 360 L412 580 M414 350 L400 570''), (''stroke'', ''#ece4d6''), (''stroke-opacity'', ''0.15'')]
      else []) @
     (if kind = ''Ember Trench'' then
        el ''path'' [(''d'', ''M176 560 Q236 640 250 600''), (''fill'', ac), (''opacity'', ''0.45'')] @
        el ''path'' [(''d'', ''M464 560 Q404 640 390 600''), (''fill'', ac), (''opacity'', ''0.45'')]
      else []) @
     el ''circle'' [(''cx'', ''236''), (''cy'', ''340''), (''r'', ''14''), (''fill'', ac), (''opacity'', ''0.7''), (''stroke'', ''#100e0b'')] @
     el ''circle'' [(''cx'', ''404''), (''cy'', ''340''), (''r'', ''14''), (''fill'', ac), (''opacity'', ''0.7''), (''stroke'', ''#100e0b'')])"

definition arms :: "string \<Rightarrow> string" where
  "arms suit_fill =
     el ''path'' [(''d'', ''M250 340 L214 430 L236 438 L268 360 Z''), (''fill'', suit_fill), (''stroke'', ''#100e0b''), (''stroke-width'', ''2'')] @
     el ''path'' [(''d'', ''M390 340 L430 430 L408 438 L372 360 Z''), (''fill'', suit_fill), (''stroke'', ''#100e0b''), (''stroke-width'', ''2'')]"

definition rarity_text :: "rarity \<Rightarrow> string" where
  "rarity_text r = (case r of Common \<Rightarrow> ''Common'' | Uncommon \<Rightarrow> ''Uncommon'' | Rare \<Rightarrow> ''Rare'' | Elite \<Rightarrow> ''Elite'' | Apex \<Rightarrow> ''Apex'')"

definition dossier :: "mandate \<Rightarrow> string \<Rightarrow> nat \<Rightarrow> string" where
  "dossier m ac tok =
     tag ''text'' [(''x'', ''36''), (''y'', ''48''), (''fill'', ''#d2b48c''), (''font-family'', ''IBM Plex Sans, sans-serif''), (''font-size'', ''13''), (''letter-spacing'', ''4'')] (''CRYPTO BROKERS'') @
     tag ''text'' [(''x'', ''36''), (''y'', ''72''), (''fill'', ''#6d6559''), (''font-family'', ''IBM Plex Mono, monospace''), (''font-size'', ''10''), (''letter-spacing'', ''3'')] (''TOKEN ID'') @
     tag ''text'' [(''x'', ''36''), (''y'', ''132''), (''fill'', ''#ece4d6''), (''font-family'', ''Instrument Serif, Georgia, serif''), (''font-size'', ''64'')] (esc (dec tok)) @
     el ''rect'' [(''x'', ''36''), (''y'', ''142''), (''width'', ''72''), (''height'', ''6''), (''fill'', ac)] @
     tag ''text'' [(''x'', ''36''), (''y'', ''760''), (''fill'', ac), (''font-family'', ''IBM Plex Mono, monospace''), (''font-size'', ''22''), (''font-weight'', ''500'')] (''BROKER #'' @ esc (pad_start 4 (CHR ''0'') (dec tok))) @
     tag ''text'' [(''x'', ''36''), (''y'', ''784''), (''fill'', ''#ece4d6''), (''font-family'', ''Instrument Serif, Georgia, serif''), (''font-size'', ''14''), (''font-style'', ''italic'')] (esc (quote_line m)) @
     tag ''text'' [(''x'', ''604''), (''y'', ''48''), (''text-anchor'', ''end''), (''fill'', ac), (''font-family'', ''IBM Plex Mono, monospace''), (''font-size'', ''12''), (''letter-spacing'', ''2'')] (esc (to_upper (rarity_text (rarity (m_traits m))))) @
     tag ''text'' [(''x'', ''604''), (''y'', ''70''), (''text-anchor'', ''end''), (''fill'', ''#988f80''), (''font-family'', ''IBM Plex Mono, monospace''), (''font-size'', ''11'')] (esc (primaryAsset m))"

text \<open>\<open>w\<close> and \<open>h\<close> are the options, 640 and 800 unless given.\<close>

definition svg :: "(string \<Rightarrow> string) \<Rightarrow> mandate \<Rightarrow> nat \<Rightarrow> nat \<Rightarrow> nat \<Rightarrow> string" where
  "svg sha m w h tok =
     (let tr = m_traits m;
          ac = colour ACCENT (accent tr) ''#c4622d'';
          suit_fill = colour SUIT (suit tr) ''#2a2622'';
          base_fill = colour BASE (base tr) ''#4a453c'';
          uid = ''bk'' @ dec tok;
          tie = (if suit tr = ''Paper White'' then ac else ''#ece4d6'')
      in tag ''svg'' [(''xmlns'', ''http://www.w3.org/2000/svg''), (''viewBox'', ''0 0 640 800''), (''width'', dec w), (''height'', dec h),
           (''role'', ''img''), (''aria-label'', esc (m_name m))]
         (svg_defs uid ac tok @ backdrop uid @ sparks sha tok ac @ hud_svg sha m ac tok @
          pedestal base_fill (base tr) (8 + mix sha tok ''paper'' 18) @ body suit_fill tie @ coat_svg (coat tr) ac @
          arms suit_fill @ handItem m ac @
          el ''ellipse'' [(''cx'', ''228''), (''cy'', ''448''), (''rx'', ''16''), (''ry'', ''12''), (''fill'', ''#1b1712''), (''stroke'', ''#100e0b'')] @
          el ''rect'' [(''x'', ''304''), (''y'', ''292''), (''width'', ''32''), (''height'', ''42''), (''rx'', ''6''), (''fill'', ''#1b1712'')] @
          headShape (head tr) 320 250 ac @ dossier m ac tok))"

section \<open>Every drawing is well-formed\<close>

lemmas char_tests = name_char_def value_char_def is_lower_def is_upper_def is_digit_def in_range_def dq_def

lemma attrs_ok_Cons [simp]:
  "attrs_ok ((k, v) # as) \<longleftrightarrow>
     k \<noteq> [] \<and> list_all name_char k \<and> list_all value_char v \<and> k \<notin> set (map fst as) \<and> attrs_ok as"
  by (auto simp: attrs_ok_def attr_ok_def)

lemma attrs_ok_Nil [simp]: "attrs_ok []"
  by (simp add: attrs_ok_def)

declare value_int [simp] value_dec [simp] value_esc [simp]

lemma colour_value:
  "list_all (\<lambda>(_, c). list_all value_char c) table \<Longrightarrow> list_all value_char d \<Longrightarrow> list_all value_char (colour table k d)"
  by (auto simp: colour_def list_all_iff split: option.split dest!: map_of_SomeD)

lemma intact_map: "(\<And>x. x \<in> set xs \<Longrightarrow> intact (f x)) \<Longrightarrow> intact (concat (map f xs))"
  by (rule intact_concat) (simp add: list_all_iff)

lemmas svg_rules = intact_append intact_el intact_tag char_tests

lemma faces_intact:
  assumes "list_all value_char ac"
  shows "intact (skull_face hx hy ac)" "intact (slit_face hx hy ac)" "intact (visor_face hx hy ac)" "intact (mask_face hx hy ac)"
  by (simp_all add: skull_face_def slit_face_def visor_face_def mask_face_def svg_rules assms)

lemma HEAD_value: "list_all value_char (colour HEAD h ''#d4a054'')"
  by (rule colour_value) (simp_all add: HEAD_def char_tests)

lemma head_intact:
  assumes "list_all value_char ac"
  shows "intact (headShape h hx hy ac)"
proof -
  let ?slit = "if h = ''Violet Slit'' then ''#b9a0e0'' else ac"
  have slit: "list_all value_char ?slit" using assms by (simp add: char_tests)
  have face: "intact (if str_includes h ''Skull'' then skull_face hx hy ?slit
       else if h = ''Violet Slit'' then slit_face hx hy ?slit
       else if h = ''Paper Visor'' then visor_face hx hy ac
       else mask_face hx hy ?slit)"
    using faces_intact [OF slit] faces_intact [OF assms] by presburger
  show ?thesis unfolding headShape_def Let_def
    by (intro intact_append face; simp add: svg_rules HEAD_value)
qed

lemma intact_const: "list_all value_char s \<Longrightarrow> intact s"
  by (rule intact_text) (auto simp: list_all_iff value_char_def)

lemma bars_intact:
  assumes "list_all value_char ac"
  shows "intact (chart_bar sha tok ac i)" "intact (ticker_cube asset ac i)"
  by (simp_all add: chart_bar_def ticker_cube_def Let_def svg_rules intact_esc assms)

lemma heights_value: "list_all (list_all value_char) HEIGHTS_07"
  by (simp add: HEIGHTS_07_def char_tests)

lemma times_07_value: "h < 28 \<Longrightarrow> list_all value_char (times_07 h)"
  using heights_value by (simp add: times_07_def list_all_length HEIGHTS_07_def)

lemma orbit_intact:
  assumes "list_all value_char ac"
  shows "intact (orbit_bar sha tok ac i)"
proof -
  have "6 + mix sha tok (''ob'' @ dec i) 22 < 28" by (simp add: mix_def)
  then show ?thesis using times_07_value by (simp add: orbit_bar_def Let_def svg_rules assms)
qed

lemma halo_intact: "intact halo"
proof -
  let ?as = "[(''cx'', ''320''), (''cy'', ''108''), (''rx'', ''210''), (''ry'', ''48'')]"
  have "intact (CHR ''<'' # (''ellipse'' @ attrs_text ?as @ '' /'') @ [CHR ''>''])"
    unfolding intact_def
  proof (intro allI)
    fix st t
    have gt: "list_all not_gt (''ellipse'' @ attrs_text ?as @ '' /'')"
      by (simp add: attrs_text_def attr_def not_gt_def dq_def)
    have "one_tag st (''ellipse'' @ attrs_text ?as @ '' /'') = Some st"
      by code_simp
    then show "check_xml st ((CHR ''<'' # (''ellipse'' @ attrs_text ?as @ '' /'') @ [CHR ''>'']) @ t) = check_xml st t"
      using check_tag [OF gt] by simp
  qed
  then show ?thesis by (simp add: halo_def)
qed

lemma hud_intact:
  assumes "list_all value_char ac"
  shows "intact (hud_svg sha m ac tok)"
proof -
  have inner: "intact (if hud (m_traits m) = ''Charts Halo'' then concat (map (chart_bar sha tok ac) [0..<7])
         else if hud (m_traits m) = ''Ticker Cubes'' then concat (map (ticker_cube (primaryAsset m) ac) [0..<6])
         else halo @ concat (map (orbit_bar sha tok ac) [0..<9]))"
    using intact_map [of "[0..<7]" "chart_bar sha tok ac"] intact_map [of "[0..<6]" "ticker_cube (primaryAsset m) ac"]
      intact_map [of "[0..<9]" "orbit_bar sha tok ac"] bars_intact [OF assms] orbit_intact [OF assms] halo_intact
    by (simp only: intact_append if_split) simp
  show ?thesis unfolding hud_svg_def Let_def
    using intact_tag [OF _ _ _ inner, of "''g''" "[(''class'', ''hud''), (''fill'', ''none''), (''stroke'', ac),
      (''stroke-width'', ''1.4''), (''opacity'', ''0.88'')]"] assms
    by (simp add: char_tests)
qed

lemma sparks_intact:
  assumes "list_all value_char ac"
  shows "intact (sparks sha tok ac)"
proof -
  have "intact (spark_svg ac s)" for s by (cases s) (simp add: spark_svg_def svg_rules assms)
  then show ?thesis by (simp add: sparks_def svg_rules intact_map)
qed

lemma hand_intact:
  assumes "list_all value_char ac"
  shows "intact (handItem m ac)"
proof -
  have "intact (tablet ac)" "intact ledger" "intact (orb m ac)"
    by (simp_all add: tablet_def ledger_def orb_def svg_rules intact_esc assms)
  then show ?thesis by (simp add: handItem_def Let_def svg_rules)
qed

lemma frame_intact:
  assumes "list_all value_char ac"
  shows "intact (svg_defs (''bk'' @ dec tok) ac tok)" "intact (backdrop (''bk'' @ dec tok))"
  by (simp_all add: svg_defs_def backdrop_def svg_rules assms)

lemma body_intact:
  assumes "list_all value_char c" "list_all value_char d"
  shows "intact (pedestal c b p)" "intact (body c d)" "intact (arms c)"
proof -
  show "intact (body c d)" "intact (arms c)" by (simp_all add: body_def arms_def svg_rules assms)
  show "intact (pedestal c b p)" unfolding pedestal_def
    by (intro intact_append; simp add: svg_rules assms)
qed

lemma coat_intact:
  assumes "list_all value_char ac"
  shows "intact (coat_svg k ac)"
proof (cases "map_of COAT k")
  case (Some c)
  have "list_all (\<lambda>(_, c). list_all value_char c) COAT" by (simp add: COAT_def char_tests)
  with Some have "list_all value_char c" by (auto simp: list_all_iff dest!: map_of_SomeD)
  then show ?thesis unfolding coat_svg_def Some option.case
    by (intro intact_append; simp add: svg_rules assms)
qed (simp add: coat_svg_def)

lemma dossier_intact:
  assumes "list_all value_char ac"
  shows "intact (dossier m ac tok)"
proof -
  have "intact ''CRYPTO BROKERS''" "intact ''TOKEN ID''" "intact (''BROKER #'' @ esc s)" for s
    by (simp_all add: intact_append intact_esc intact_const char_tests)
  then show ?thesis unfolding dossier_def
    by (intro intact_append; simp add: svg_rules intact_esc assms)
qed

text \<open>
  Property C19: Every drawing is well-formed markup, whatever the hash, the id, the size and the
  mandate are - its name, assets, quote and traits included: tags are nested and closed,
  attributes are distinct and quoted.
\<close>

theorem svg_well_formed: "well_formed (svg sha m w h tok)"
proof -
  let ?tr = "m_traits m" let ?ac = "colour ACCENT (accent ?tr) ''#c4622d''"
  let ?suit = "colour SUIT (suit ?tr) ''#2a2622''" let ?base = "colour BASE (base ?tr) ''#4a453c''"
  let ?tie = "if suit ?tr = ''Paper White'' then ?ac else ''#ece4d6''"
  have ac: "list_all value_char ?ac" by (rule colour_value) (simp_all add: ACCENT_def char_tests)
  have su: "list_all value_char ?suit" by (rule colour_value) (simp_all add: SUIT_def char_tests)
  have ba: "list_all value_char ?base" by (rule colour_value) (simp_all add: BASE_def char_tests)
  have tie: "list_all value_char ?tie" using ac by (simp add: char_tests)
  have "intact (svg sha m w h tok)" unfolding svg_def Let_def
  proof (rule intact_tag)
    show "intact (svg_defs (''bk'' @ dec tok) ?ac tok @ backdrop (''bk'' @ dec tok) @ sparks sha tok ?ac @
      hud_svg sha m ?ac tok @ pedestal ?base (base ?tr) (8 + mix sha tok ''paper'' 18) @ body ?suit ?tie @
      coat_svg (coat ?tr) ?ac @ arms ?suit @ handItem m ?ac @
      el ''ellipse'' [(''cx'', ''228''), (''cy'', ''448''), (''rx'', ''16''), (''ry'', ''12''), (''fill'', ''#1b1712''), (''stroke'', ''#100e0b'')] @
      el ''rect'' [(''x'', ''304''), (''y'', ''292''), (''width'', ''32''), (''height'', ''42''), (''rx'', ''6''), (''fill'', ''#1b1712'')] @
      headShape (head ?tr) 320 250 ?ac @ dossier m ?ac tok)"
      by (intro intact_append frame_intact [OF ac] sparks_intact [OF ac] hud_intact [OF ac] body_intact [OF ba ba]
          body_intact [OF su tie] coat_intact [OF ac] hand_intact [OF ac] head_intact [OF ac] dossier_intact [OF ac])
        (simp_all add: svg_rules)
  qed (simp_all add: char_tests)
  then show ?thesis by (rule intact_well_formed)
qed

section \<open>The sparks stay on the canvas\<close>

lemma spark_bounds:
  assumes "spark sha tok i = (x, y, r)"
  shows "40 \<le> x \<and> x < 600 \<and> 80 \<le> y \<and> y < 700 \<and> 1 \<le> r \<and> r \<le> 3"
proof -
  have "rngMod sha tok s 3 \<le> 2" for s using rngMod_less [of 3 sha tok s] by linarith
  with assms show ?thesis by (auto simp: spark_def mix_def)
qed

lemma spark_count: "8 \<le> length (spark_list sha tok) \<and> length (spark_list sha tok) < 18"
  using rngMod_less [of 10 sha tok "''sparks''"] by (simp add: spark_list_def mix_def)

end
