(* ===== verification/Sentinel.thy ===== *)
theory Sentinel
  imports Json Display
begin

text \<open>
  agent/ire-sentinel.mjs: the monitoring agent.  One run asks four endpoints of the local
  node, evaluates six checks, may ask an AI service for an assessment, and writes one
  report file.  Replies, the clock and the environment are arguments; what the run does to
  the outside is the list of its effects.
\<close>

section \<open>Policy\<close>

record policy =
  chainId :: string
  baseDenom :: string
  expectedSupply :: string
  rpcUrl :: string
  apiUrl :: string
  p_model :: string
  maxOutputTokens :: int
  reportDirectory :: string
  prohibitedOperations :: "string list"

text \<open>agent/policy.json.\<close>

definition ire_policy :: policy where
  "ire_policy =
     \<lparr> chainId = ''ire-1'', baseDenom = ''uire'', expectedSupply = ''1000000000000000000'',
       rpcUrl = ''http://127.0.0.1:26657'', apiUrl = ''http://127.0.0.1:1317'',
       p_model = ''gpt-5.6-sol'', maxOutputTokens = 800, reportDirectory = ''agent/reports'',
       prohibitedOperations =
         [''sign, create, or broadcast blockchain transactions'',
          ''read private keys, keyrings, or validator secrets'',
          ''modify node configuration, chain source, or genesis state'',
          ''deploy, migrate, or administer smart contracts''] \<rparr>"

section \<open>Endpoints\<close>

text \<open>
  A fetch fails with a message, or yields a status line and a body that parses or does not
  (then with the parser's message).
\<close>

datatype http_reply = Failed string | Response nat string "string + json"

definition readJson :: "http_reply \<Rightarrow> string + json" where
  "readJson r =
     (case r of
        Failed e \<Rightarrow> Inl e
      | Response code line body \<Rightarrow>
          if 200 \<le> code \<and> code < 300 then body else Inl (dec code @ '' '' @ line))"

record endpoint =
  ep_name :: string
  ep_ok :: bool
  ep_value :: jval
  ep_error :: "string option"

definition checkEndpoint :: "string \<Rightarrow> http_reply \<Rightarrow> endpoint" where
  "checkEndpoint name r =
     (case readJson r of
        Inr v \<Rightarrow> \<lparr> ep_name = name, ep_ok = True, ep_value = Some v, ep_error = None \<rparr>
      | Inl e \<Rightarrow> \<lparr> ep_name = name, ep_ok = False, ep_value = None, ep_error = Some e \<rparr>)"

definition endpointValue :: "endpoint list \<Rightarrow> string \<Rightarrow> jval" where
  "endpointValue endpoints name =
     (case find (\<lambda>e. ep_name e = name) endpoints of Some e \<Rightarrow> ep_value e | None \<Rightarrow> None)"

section \<open>Health\<close>

text \<open>\<open>v ?? w\<close>, and \<open>v.length\<close> on a value that is not null or undefined.\<close>

definition coalesce :: "jval \<Rightarrow> json \<Rightarrow> json" where
  "coalesce v w = (case v of Some j \<Rightarrow> if j = JNull then w else j | None \<Rightarrow> w)"

definition length_of :: "json \<Rightarrow> jval" where
  "length_of v =
     (case v of
        JArr js \<Rightarrow> Some (JNum (fin_int (int (length js))))
      | JStr s \<Rightarrow> Some (JNum (fin_int (int (length s))))
      | JObj kvs \<Rightarrow> fld (Some v) ''length''
      | _ \<Rightarrow> None)"

definition positive :: "jval \<Rightarrow> bool" where
  "positive v = (case to_number v of Fin r \<Rightarrow> r > 0 | PosInf \<Rightarrow> True | _ \<Rightarrow> False)"

record check =
  ch_name :: string
  pass :: bool
  expected :: json
  observed :: jval

record health =
  h_status :: string
  checks :: "check list"
  h_height :: json
  h_blockTime :: json

definition ZERO_INFLATION :: string where "ZERO_INFLATION = ''0.000000000000000000''"

definition evaluate :: "policy \<Rightarrow> endpoint list \<Rightarrow> health" where
  "evaluate p endpoints =
     (let status = fld (endpointValue endpoints ''rpc_status'') ''result'';
          supply = fld (fld (endpointValue endpoints ''supply'') ''amount'') ''amount'';
          inflation = fld (endpointValue endpoints ''inflation'') ''inflation'';
          validators = coalesce (fld (endpointValue endpoints ''bonded_validators'') ''validators'') (JArr []);
          network = fld (fld status ''node_info'') ''network'';
          catching = fld (fld status ''sync_info'') ''catching_up'';
          cs = [
            \<lparr> ch_name = ''rpc_available'', pass = truthy status, expected = JStr ''local RPC responds'',
              observed = Some (JStr (if truthy status then ''responding'' else ''unavailable'')) \<rparr>,
            \<lparr> ch_name = ''chain_id'', pass = network = Some (JStr (chainId p)), expected = JStr (chainId p),
              observed = Some (coalesce network JNull) \<rparr>,
            \<lparr> ch_name = ''node_synced'', pass = catching = Some (JBool False), expected = JBool False,
              observed = Some (coalesce catching JNull) \<rparr>,
            \<lparr> ch_name = ''fixed_supply'', pass = supply = Some (JStr (expectedSupply p)), expected = JStr (expectedSupply p),
              observed = Some (coalesce supply JNull) \<rparr>,
            \<lparr> ch_name = ''zero_inflation'', pass = inflation = Some (JStr ZERO_INFLATION), expected = JStr ZERO_INFLATION,
              observed = Some (coalesce inflation JNull) \<rparr>,
            \<lparr> ch_name = ''bonded_validator_present'', pass = positive (length_of validators),
              expected = JStr ''at least one bonded validator'', observed = length_of validators \<rparr>]
      in \<lparr> h_status = (if list_all pass cs then ''healthy'' else ''attention_required''), checks = cs,
           h_height = coalesce (fld (fld status ''sync_info'') ''latest_block_height'') JNull,
           h_blockTime = coalesce (fld (fld status ''sync_info'') ''latest_block_time'') JNull \<rparr>)"

section \<open>Assessment\<close>

definition elements :: "json \<Rightarrow> json list" where
  "elements v = (case v of JArr js \<Rightarrow> js | _ \<Rightarrow> [v])"

text \<open>\<open>None\<close> stands for a throw: a null item, or an output without \<open>flatMap\<close>.\<close>

fun item_contents :: "json list \<Rightarrow> json list option" where
  "item_contents [] = Some []"
| "item_contents (item # items) =
     (case dot (Some item) ''content'' of
        None \<Rightarrow> None
      | Some c \<Rightarrow> map_option ((@) (elements (coalesce c (JArr [])))) (item_contents items))"

fun output_texts :: "json list \<Rightarrow> string list option" where
  "output_texts [] = Some []"
| "output_texts (c # cs) =
     (case dot (Some c) ''type'' of
        None \<Rightarrow> None
      | Some t \<Rightarrow>
          (case output_texts cs of
             None \<Rightarrow> None
           | Some ts \<Rightarrow>
               if t = Some (JStr ''output_text'')
               then Some ((let v = fld (Some c) ''text'' in if nullish v then [] else to_string v) # ts)
               else Some ts))"

definition responseText :: "jval \<Rightarrow> string option" where
  "responseText response =
     (case dot response ''output'' of
        None \<Rightarrow> None
      | Some out \<Rightarrow>
          (case coalesce out (JArr []) of
             JArr items \<Rightarrow>
               (case item_contents items of
                  None \<Rightarrow> None
                | Some cs \<Rightarrow> map_option (\<lambda>ts. trim (join newline ts)) (output_texts cs))
           | _ \<Rightarrow> None))"

definition OPENAI_URL :: string where "OPENAI_URL = ''https://api.openai.com/v1/responses''"

definition INSTRUCTIONS :: string where
  "INSTRUCTIONS = join '' '' [
     ''You are IRE Sentinel, a defensive blockchain security analyst.'',
     ''Analyze only the provided public health evidence.'',
     ''Never request secrets, private keys, seed phrases, or API keys.'',
     ''Never suggest signing transactions, changing node configuration, or deploying contracts.'',
     ''Return a concise assessment with severity, evidence-based risks, and safe operator recommendations.'']"

record environment =
  aiDisabled :: bool
  openai_key :: string
  agent_model :: string

datatype effect =
    Get string
  | Post string string json
  | Mkdir string
  | WriteFile string string

definition ai_request :: "policy \<Rightarrow> environment \<Rightarrow> json \<Rightarrow> json" where
  "ai_request p env evidence = JObj
     [(''model'', JStr (or_str (agent_model env) (p_model p))),
      (''store'', JBool False),
      (''max_output_tokens'', JNum (fin_int (maxOutputTokens p))),
      (''instructions'', JStr INSTRUCTIONS),
      (''input'', JStr (stringify evidence))]"

text \<open>\<open>thrown\<close> is the engine's message when the reply has not the documented shape.\<close>

definition ai_reply :: "string \<Rightarrow> http_reply \<Rightarrow> json" where
  "ai_reply thrown r =
     (case readJson r of
        Inl e \<Rightarrow> JObj [(''enabled'', JBool True), (''error'', JStr e)]
      | Inr body \<Rightarrow>
          (case (dot (Some body) ''model'', responseText (Some body)) of
             (Some m, Some t) \<Rightarrow>
               JObj ([(''enabled'', JBool True)] @ (case m of Some j \<Rightarrow> [(''model'', j)] | None \<Rightarrow> []) @
                     [(''assessment'', JStr t)])
           | _ \<Rightarrow> JObj [(''enabled'', JBool True), (''error'', JStr thrown)]))"

definition analyzeWithOpenAI :: "policy \<Rightarrow> environment \<Rightarrow> string \<Rightarrow> http_reply \<Rightarrow> json \<Rightarrow> effect list \<times> json" where
  "analyzeWithOpenAI p env thrown r evidence =
     (if aiDisabled env then ([], JObj [(''enabled'', JBool False), (''reason'', JStr ''disabled by --no-ai'')])
      else if openai_key env = [] then
        ([], JObj [(''enabled'', JBool False), (''reason'', JStr ''OPENAI_API_KEY is not configured'')])
      else ([Post OPENAI_URL (''Bearer '' @ openai_key env) (ai_request p env evidence)], ai_reply thrown r))"

section \<open>A run\<close>

definition status_url :: "policy \<Rightarrow> string" where "status_url p = rpcUrl p @ ''/status''"
definition supply_url :: "policy \<Rightarrow> string" where
  "supply_url p = apiUrl p @ ''/cosmos/bank/v1beta1/supply/by_denom?denom='' @ encodeURIComponent (baseDenom p)"
definition inflation_url :: "policy \<Rightarrow> string" where
  "inflation_url p = apiUrl p @ ''/cosmos/mint/v1beta1/inflation''"
definition validators_url :: "policy \<Rightarrow> string" where
  "validators_url p = apiUrl p @ ''/cosmos/staking/v1beta1/validators?status=BOND_STATUS_BONDED''"

definition check_json :: "check \<Rightarrow> json" where
  "check_json c = JObj ([(''name'', JStr (ch_name c)), (''pass'', JBool (pass c)), (''expected'', expected c)] @
     (case observed c of Some v \<Rightarrow> [(''observed'', v)] | None \<Rightarrow> []))"

definition health_json :: "health \<Rightarrow> json" where
  "health_json h = JObj
     [(''status'', JStr (h_status h)), (''checks'', JArr (map check_json (checks h))),
      (''height'', h_height h), (''blockTime'', h_blockTime h)]"

definition error_json :: "endpoint \<Rightarrow> json" where
  "error_json e = JObj ((''name'', JStr (ep_name e)) #
     (case ep_error e of Some t \<Rightarrow> [(''error'', JStr t)] | None \<Rightarrow> []))"

definition evidence_of :: "policy \<Rightarrow> string \<Rightarrow> endpoint list \<Rightarrow> (string \<times> json) list" where
  "evidence_of p now endpoints =
     [(''generatedAt'', JStr now),
      (''agent'', JStr ''IRE Sentinel''),
      (''mode'', JStr ''read-only chain checks; reports-only filesystem writes''),
      (''policy'', JObj [(''chainId'', JStr (chainId p)),
         (''prohibitedOperations'', JArr (map JStr (prohibitedOperations p)))]),
      (''health'', health_json (evaluate p endpoints)),
      (''endpointErrors'', JArr (map error_json (filter (\<lambda>e. \<not> ep_ok e) endpoints)))]"

text \<open>Timestamps with the characters a file name should not have replaced.\<close>

definition utcTimestamp :: "string \<Rightarrow> string" where
  "utcTimestamp now = map (\<lambda>c. if c = CHR '':'' \<or> c = CHR ''.'' then CHR ''-'' else c) now"

record replies =
  rpc_reply :: http_reply
  supply_reply :: http_reply
  inflation_reply :: http_reply
  validators_reply :: http_reply
  openai_reply :: http_reply
  type_error :: string

definition endpoints_of :: "replies \<Rightarrow> endpoint list" where
  "endpoints_of r =
     [checkEndpoint ''rpc_status'' (rpc_reply r), checkEndpoint ''supply'' (supply_reply r),
      checkEndpoint ''inflation'' (inflation_reply r), checkEndpoint ''bonded_validators'' (validators_reply r)]"

text \<open>
  The run: its effects in order and the report.  The pretty-printed form of the report is
  left to the parameter \<open>pretty\<close>.
\<close>

definition runCheck ::
  "policy \<Rightarrow> (json \<Rightarrow> string) \<Rightarrow> string \<Rightarrow> environment \<Rightarrow> string \<Rightarrow> replies \<Rightarrow> effect list \<times> json"
where
  "runCheck p pretty repository env now r =
     (let endpoints = endpoints_of r;
          evidence = evidence_of p now endpoints;
          (asked, ai) = analyzeWithOpenAI p env (type_error r) (openai_reply r) (JObj evidence);
          report = JObj (evidence @ [(''ai'', ai)]);
          dir = repository @ ''/'' @ reportDirectory p;
          filename = ''sentinel-'' @ utcTimestamp now @ ''.json''
      in ([Get (status_url p), Get (supply_url p), Get (inflation_url p), Get (validators_url p)] @ asked @
            [Mkdir dir, WriteFile (dir @ ''/'' @ filename) (pretty report @ newline)],
          report))"

section \<open>Health is what it says\<close>

lemma endpointValue_run:
  "endpointValue (endpoints_of r) ''rpc_status'' = ep_value (checkEndpoint ''rpc_status'' (rpc_reply r))"
  "endpointValue (endpoints_of r) ''supply'' = ep_value (checkEndpoint ''supply'' (supply_reply r))"
  "endpointValue (endpoints_of r) ''inflation'' = ep_value (checkEndpoint ''inflation'' (inflation_reply r))"
  "endpointValue (endpoints_of r) ''bonded_validators'' = ep_value (checkEndpoint ''bonded_validators'' (validators_reply r))"
  by (simp_all add: endpointValue_def endpoints_of_def checkEndpoint_def split: sum.split)

definition body_of :: "http_reply \<Rightarrow> jval" where
  "body_of r = (case readJson r of Inr v \<Rightarrow> Some v | Inl _ \<Rightarrow> None)"

lemma ep_value_body: "ep_value (checkEndpoint n r) = body_of r"
  by (simp add: checkEndpoint_def body_of_def split: sum.split)

lemma truthy_of_fld: "fld (fld v k) l = Some j \<Longrightarrow> truthy v"
proof (cases v)
  case (Some w)
  then show "fld (fld v k) l = Some j \<Longrightarrow> truthy v" by (cases w) auto
qed simp

lemma failed_endpoint: "\<not> ep_ok (checkEndpoint n r) \<Longrightarrow> body_of r = None"
  by (simp add: checkEndpoint_def body_of_def split: sum.splits)

lemma health_status:
  "h_status (evaluate p (endpoints_of r)) =
     (if (let status = fld (body_of (rpc_reply r)) ''result'' in
          fld (fld status ''node_info'') ''network'' = Some (JStr (chainId p)) \<and>
          fld (fld status ''sync_info'') ''catching_up'' = Some (JBool False) \<and>
          fld (fld (body_of (supply_reply r)) ''amount'') ''amount'' = Some (JStr (expectedSupply p)) \<and>
          fld (body_of (inflation_reply r)) ''inflation'' = Some (JStr ZERO_INFLATION) \<and>
          positive (length_of (coalesce (fld (body_of (validators_reply r)) ''validators'') (JArr []))))
      then ''healthy'' else ''attention_required'')"
  using truthy_of_fld [of "fld (body_of (rpc_reply r)) ''result''" "''node_info''" "''network''"]
  by (auto simp: evaluate_def Let_def endpointValue_run ep_value_body)

text \<open>
  Property C10:  A run reports \<open>healthy\<close> exactly when the node answered with the expected chain
  id and is not catching up, the supply and the inflation are the expected strings, and the
  list of bonded validators is not empty; in every other case, so whenever one of the four
  endpoints failed, it reports \<open>attention_required\<close>.
\<close>

theorem healthy_iff:
  "h_status (evaluate p (endpoints_of r)) =
     (if list_all ep_ok (endpoints_of r) \<and>
         (let status = fld (body_of (rpc_reply r)) ''result'' in
          fld (fld status ''node_info'') ''network'' = Some (JStr (chainId p)) \<and>
          fld (fld status ''sync_info'') ''catching_up'' = Some (JBool False) \<and>
          fld (fld (body_of (supply_reply r)) ''amount'') ''amount'' = Some (JStr (expectedSupply p)) \<and>
          fld (body_of (inflation_reply r)) ''inflation'' = Some (JStr ZERO_INFLATION) \<and>
          positive (length_of (coalesce (fld (body_of (validators_reply r)) ''validators'') (JArr []))))
      then ''healthy'' else ''attention_required'')"
proof (cases "list_all ep_ok (endpoints_of r)")
  case True
  then show ?thesis by (simp only: health_status simp_thms)
next
  case False
  then have "body_of (rpc_reply r) = None \<or> body_of (supply_reply r) = None \<or>
      body_of (inflation_reply r) = None \<or> body_of (validators_reply r) = None"
    using failed_endpoint by (auto simp: endpoints_of_def)
  then have "h_status (evaluate p (endpoints_of r)) = ''attention_required''"
    by (auto simp: health_status Let_def coalesce_def length_of_def positive_def fin_int_def)
  with False show ?thesis by simp
qed

section \<open>What a run does\<close>

fun reads_only :: "effect \<Rightarrow> bool" where
  "reads_only (Get url) = (starts_with (rpcUrl ire_policy @ ''/'') url \<or> starts_with (apiUrl ire_policy @ ''/'') url)"
| "reads_only _ = False"




end
